(* ===== verification/Prelude.thy ===== *)
theory Prelude imports "HOL-Library.Word" "HOL-Library.Sublist" "HOL-Library.AList" "HOL-Library.Monad_Syntax" begin

section \<open>Prelude: machine types, generic lemmas and the hint collections\<close>

text \<open>
  The types and the facts every component shares.

  A Rust \<^verbatim>\<open>u8\<close> sequence and a Rust \<^verbatim>\<open>str\<close> are both an Isabelle \<open>string\<close>: an Isabelle
  \<open>char\<close> is exactly eight bits, so a \<open>string\<close> is a byte sequence, a \<^verbatim>\<open>str\<close> is its UTF-8
  bytes and \<open>length\<close> is Rust's \<^verbatim>\<open>len()\<close>. Integers keep their width: \<open>u64\<close> and \<open>i64\<close>
  are 64-bit words (\<open>unat\<close> reads a \<open>u64\<close>, \<open>sint\<close> an \<open>i64\<close>), whose \<open>+\<close> and \<open>-\<close> wrap
  as they do in the release build the project ships. A floating point number is carried
  as its 64 bits: the code moves floats about and never computes with them.

  A result of type \<open>'a option\<close> whose \<open>None\<close> means that the code does not return is
  written with the option monad.
\<close>

type_synonym bytes = string
type_synonym u8 = "8 word"
type_synonym u32 = "32 word"
type_synonym u64 = "64 word"
type_synonym i64 = "64 word"
type_synonym f64 = "64 word"

named_theorems invI \<open>operations keep the invariants of their component\<close>
named_theorems shrink \<open>a scanner leaves less input than it was given\<close>

subsection \<open>Lists and options\<close>

lemma Some_not_ex: "(\<nexists>y. m = Some y) \<longleftrightarrow> m = None"
  by (cases m) auto

lemma bind_Some_iff [simp]:
  "Option.bind m f = Some y \<longleftrightarrow> (\<exists>x. m = Some x \<and> f x = Some y)"
  by (cases m) auto

lemma length_dropWhile_less_Suc [shrink]: "length (dropWhile P xs) < Suc (length xs)"
  by (simp add: le_imp_less_Suc length_dropWhile_le)

lemma suffix_drop_le [simp]: "suffix (drop n xs) xs"
  by (rule suffix_drop)

lemma in_takeWhile_not: "x \<in> set (takeWhile P xs) \<Longrightarrow> P x"
  by (rule set_takeWhileD [THEN conjunct2])

subsection \<open>Association lists as concurrent maps\<close>

text \<open>
  A \<^verbatim>\<open>DashMap\<close> is an association list with distinct keys, whose order stands for the
  map's iteration order. Updating an entry keeps its place and a new entry goes last;
  nothing that is proved depends on where it goes.
\<close>

type_synonym 'a dashmap = "(string \<times> 'a) list"

abbreviation dm_get :: "'a dashmap \<Rightarrow> string \<Rightarrow> 'a option" where
  "dm_get m k \<equiv> map_of m k"

abbreviation dm_insert :: "string \<Rightarrow> 'a \<Rightarrow> 'a dashmap \<Rightarrow> 'a dashmap" where
  "dm_insert k v m \<equiv> AList.update k v m"

abbreviation dm_remove :: "string \<Rightarrow> 'a dashmap \<Rightarrow> 'a dashmap" where
  "dm_remove k m \<equiv> AList.delete k m"

abbreviation dm_ok :: "'a dashmap \<Rightarrow> bool" where
  "dm_ok m \<equiv> distinct (map fst m)"

lemma dm_get_insert [simp]: "dm_get (dm_insert k v m) k' = (if k' = k then Some v else dm_get m k')"
  by (simp add: update_conv')

lemma dm_get_remove [simp]: "dm_get (dm_remove k m) k' = (if k' = k then None else dm_get m k')"
  by (simp add: delete_conv')

lemma dm_ok_insert [invI]: "dm_ok m \<Longrightarrow> dm_ok (dm_insert k v m)"
  by (rule distinct_update)

lemma dm_ok_remove [invI]: "dm_ok m \<Longrightarrow> dm_ok (dm_remove k m)"
  by (rule distinct_delete)

lemma dm_keys_insert [simp]: "fst ` set (dm_insert k v m) = insert k (fst ` set m)"
  by (simp add: dom_update)

lemma dm_keys_remove [simp]: "fst ` set (dm_remove k m) = fst ` set m - {k}"
  by (induction m) auto

lemma dm_get_iff: "dm_ok m \<Longrightarrow> dm_get m k = Some v \<longleftrightarrow> (k, v) \<in> set m"
  by simp

lemma dm_get_filter:
  "dm_ok m \<Longrightarrow> dm_get (filter (\<lambda>e. P (fst e) (snd e)) m) k =
     (case dm_get m k of None \<Rightarrow> None | Some v \<Rightarrow> if P k v then Some v else None)"
proof (induction m)
  case Nil
  then show ?case by simp
next
  case (Cons e m)
  have "dm_get m k = None" if "fst e = k"
    using that Cons.prems by (auto simp: map_of_eq_None_iff)
  with Cons show ?case by (cases e) (auto split: option.splits)
qed

lemma dm_get_filter_case:
  "dm_ok m \<Longrightarrow> dm_get (filter (\<lambda>(k, v). P k v) m) k =
     (case dm_get m k of None \<Rightarrow> None | Some v \<Rightarrow> if P k v then Some v else None)"
  using dm_get_filter [of m P k] by (simp add: case_prod_unfold)

lemma dm_ok_filter [invI]: "dm_ok m \<Longrightarrow> dm_ok (filter P m)"
  by (rule distinct_map_filter)

lemma dm_get_map_vals: "dm_get (map (\<lambda>(k, v). (k, f k v)) m) k = map_option (f k) (dm_get m k)"
  by (induction m) auto

lemma dm_ok_map_vals [invI]: "dm_ok m \<Longrightarrow> dm_ok (map (\<lambda>(k, v). (k, f k v)) m)"
  by (simp add: case_prod_beta comp_def)

lemma dm_get_rev: "dm_ok m \<Longrightarrow> dm_get (rev m) = dm_get m"
  by (subst map_of_inject_set) (simp_all add: rev_map [symmetric])

lemma fst_map_vals [simp]: "fst \<circ> (\<lambda>(k, v). (k, f k v)) = fst"
  by (rule ext) (simp add: case_prod_beta)

subsection \<open>Interfaces shared by the components\<close>

text \<open>
  A map from keys to values, as the document manager, the presence table and the storage use it:
  what a lookup returns after an insertion and after a removal.
\<close>

locale key_value_map =
  fixes lookup :: "'m \<Rightarrow> string \<Rightarrow> 'a option"
    and put :: "string \<Rightarrow> 'a \<Rightarrow> 'm \<Rightarrow> 'm"
    and drop_key :: "string \<Rightarrow> 'm \<Rightarrow> 'm"
  assumes lookup_put: "lookup (put k v m) k' = (if k' = k then Some v else lookup m k')"
    and lookup_drop: "lookup (drop_key k m) k' = (if k' = k then None else lookup m k')"
begin

lemma lookup_put_put: "lookup (put k v (put k w m)) = lookup (put k v m)"
  by (rule ext) (simp add: lookup_put)

lemma lookup_put_commute: "k \<noteq> l \<Longrightarrow> lookup (put k v (put l w m)) = lookup (put l w (put k v m))"
  by (rule ext) (simp add: lookup_put)

lemma lookup_fold_drop:
  "lookup (fold drop_key ks m) k = (if k \<in> set ks then None else lookup m k)"
  by (induction ks arbitrary: m) (auto simp: lookup_drop)

lemma lookup_fold_put:
  "lookup (fold (\<lambda>(k, v). put k v) kvs m) k = (case map_of (rev kvs) k of Some v \<Rightarrow> Some v | None \<Rightarrow> lookup m k)"
proof (induction kvs arbitrary: m)
  case (Cons kv kvs)
  then show ?case
    by (cases kv) (auto simp: lookup_put map_add_def split: option.split)
qed simp

end

interpretation dm: key_value_map dm_get dm_insert dm_remove
  by unfold_locales simp_all

text \<open>
  A system that moves in steps and an invariant that every step keeps; a quantity that no step
  changes.
\<close>

locale invariant_system =
  fixes step :: "'s \<Rightarrow> 's \<Rightarrow> bool"
    and inv :: "'s \<Rightarrow> bool"
  assumes step_inv: "step s t \<Longrightarrow> inv s \<Longrightarrow> inv t"
begin

lemma run_inv: "step\<^sup>*\<^sup>* s t \<Longrightarrow> inv s \<Longrightarrow> inv t"
  by (induction rule: rtranclp_induct) (auto intro: step_inv)

end

locale frozen_quantity =
  fixes step :: "'s \<Rightarrow> 's \<Rightarrow> bool"
    and quantity :: "'s \<Rightarrow> 'k"
  assumes step_same: "step s t \<Longrightarrow> quantity t = quantity s"

sublocale frozen_quantity \<subseteq> frozen: invariant_system step "\<lambda>s. quantity s = q" for q
  by unfold_locales (simp add: step_same)

context frozen_quantity begin

lemma run_same: "step\<^sup>*\<^sup>* s t \<Longrightarrow> quantity t = quantity s"
  by (rule frozen.run_inv) simp_all

end

text \<open>
  A forward simulation: what the first system does in a step, the second can do from every state that
  matches; so it is with runs.
\<close>

locale simulation =
  fixes step :: "'s \<Rightarrow> 's \<Rightarrow> bool"
    and step' :: "'t \<Rightarrow> 't \<Rightarrow> bool"
    and matches :: "'s \<Rightarrow> 't \<Rightarrow> bool"
  assumes step_matched: "step s t \<Longrightarrow> matches s u \<Longrightarrow> \<exists>v. step' u v \<and> matches t v"
begin

lemma run_matched: "step\<^sup>*\<^sup>* s t \<Longrightarrow> matches s u \<Longrightarrow> \<exists>v. step'\<^sup>*\<^sup>* u v \<and> matches t v"
proof (induction rule: rtranclp_induct)
  case (step x y)
  then obtain v where "step'\<^sup>*\<^sup>* u v" and "matches x v" by blast
  with step_matched [OF step(2)] show ?case by (meson rtranclp.rtrancl_into_rtrancl)
qed blast

end

lemma sint_word_of_nat: "n < 2 ^ 63 \<Longrightarrow> sint (word_of_nat n :: i64) = int n"
  by (simp add: signed_of_nat signed_take_bit_int_eq_self)

text \<open>
  A scanner takes one item off its input, if there is one, and leaves less input: what is scanned
  again and again comes to an end.
\<close>

locale scanner =
  fixes scan :: "string \<Rightarrow> ('i \<times> string) option"
  assumes scan_shrinks: "scan s = Some (x, r) \<Longrightarrow> length r < length s"
begin

lemma scan_induct [case_names scan]:
  assumes "\<And>s. (\<And>x r. scan s = Some (x, r) \<Longrightarrow> P r) \<Longrightarrow> P s"
  shows "P s"
proof (induction "length s" arbitrary: s rule: less_induct)
  case less
  show ?case by (rule assms) (blast dest: scan_shrinks intro: less)
qed

lemma scan_Nil: "scan [] = None"
  using scan_shrinks [of "[]"] by (cases "scan []") auto

end

end
