(* ===== verification/RustStd.thy ===== *)
theory RustStd imports Prelude begin

section \<open>The parts of Rust's standard library the code uses on text\<close>

text \<open>
  Searching and stripping, decimal numbers, white space, letter case and lossy UTF-8
  decoding, each on the UTF-8 bytes of a \<^verbatim>\<open>str\<close>. Positions are byte positions, as
  in Rust. The functions are executable; what the components rely on is proved at the end
  of each subsection.
\<close>

abbreviation LF :: char where "LF \<equiv> CHR 0x0A"

subsection \<open>Searching and stripping\<close>

text \<open>\<^verbatim>\<open>s.find(p)\<close>: the position of the first byte that satisfies the predicate.\<close>

definition find_char :: "(char \<Rightarrow> bool) \<Rightarrow> string \<Rightarrow> nat option" where
  "find_char P s = (if list_ex P s then Some (length (takeWhile (\<lambda>c. \<not> P c) s)) else None)"

definition strip_prefix_char :: "char \<Rightarrow> string \<Rightarrow> string option" where
  "strip_prefix_char c s = (case s of [] \<Rightarrow> None | x # xs \<Rightarrow> if x = c then Some xs else None)"

definition strip_suffix_char :: "char \<Rightarrow> string \<Rightarrow> string option" where
  "strip_suffix_char c s = (if s \<noteq> [] \<and> last s = c then Some (butlast s) else None)"

lemma find_char_None: "find_char P s = None \<longleftrightarrow> (\<forall>c\<in>set s. \<not> P c)"
  by (auto simp: find_char_def list_ex_iff)

lemma find_char_Some:
  assumes "find_char P s = Some n"
  shows "n < length s" and "P (s ! n)" and "\<forall>c\<in>set (take n s). \<not> P c"
proof -
  from assms have ex: "\<exists>c\<in>set s. P c" and n: "n = length (takeWhile (\<lambda>c. \<not> P c) s)"
    by (auto simp: find_char_def list_ex_iff split: if_splits)
  from ex show lt: "n < length s"
    using length_takeWhile_le [of "\<lambda>c. \<not> P c" s] n
    by (metis le_neq_implies_less takeWhile_eq_all_conv takeWhile_eq_take take_all order_refl)
  show "P (s ! n)" using nth_length_takeWhile [of "\<lambda>c. \<not> P c" s] lt n by simp
  show "\<forall>c\<in>set (take n s). \<not> P c"
    using n by (metis in_takeWhile_not takeWhile_eq_take)
qed

lemma find_char_append:
  "\<lbrakk>\<forall>c\<in>set a. \<not> P c; P x\<rbrakk> \<Longrightarrow> find_char P (a @ x # b) = Some (length a)"
  by (simp add: find_char_def)

lemma find_char_split:
  assumes "find_char P s = Some n"
  shows "s = take n s @ s ! n # drop (Suc n) s"
  using find_char_Some(1) [OF assms] by (simp add: id_take_nth_drop)

lemma strip_suffix_char_Some: "strip_suffix_char c s = Some r \<longleftrightarrow> s = r @ [c]"
  by (cases s rule: rev_cases) (auto simp: strip_suffix_char_def)

lemma strip_prefix_char_Some: "strip_prefix_char c s = Some r \<longleftrightarrow> s = c # r"
  by (auto simp: strip_prefix_char_def split: list.splits)

lemma strip_suffix_char_None: "strip_suffix_char c s = None \<longleftrightarrow> (s = [] \<or> last s \<noteq> c)"
  by (auto simp: strip_suffix_char_def)

subsection \<open>Decimal numbers\<close>

definition byte :: "char \<Rightarrow> nat" where
  "byte c = of_char c"

definition is_digit :: "char \<Rightarrow> bool" where
  "is_digit c \<longleftrightarrow> 48 \<le> byte c \<and> byte c \<le> 57"

definition digit :: "nat \<Rightarrow> char" where
  "digit n = char_of (48 + n)"

fun show_nat :: "nat \<Rightarrow> string" where
  "show_nat n = (if n < 10 then [digit n] else show_nat (n div 10) @ [digit (n mod 10)])"

declare show_nat.simps [simp del]

definition show_u64 :: "u64 \<Rightarrow> string" where
  "show_u64 n = show_nat (unat n)"

definition show_i64 :: "i64 \<Rightarrow> string" where
  "show_i64 n = (if sint n < 0 then CHR ''-'' # show_nat (nat (- sint n)) else show_nat (nat (sint n)))"

definition digits_val :: "string \<Rightarrow> nat option" where
  "digits_val s = (if s \<noteq> [] \<and> list_all is_digit s
     then Some (foldl (\<lambda>n c. 10 * n + (byte c - 48)) 0 s) else None)"

text \<open>
  \<^verbatim>\<open>str::parse\<close> for an unsigned type of \<open>w\<close> bits: a leading plus sign is accepted, the
  empty string, any other character and an overflow are errors.
\<close>

definition parse_unsigned :: "nat \<Rightarrow> string \<Rightarrow> nat option" where
  "parse_unsigned w s = (case digits_val (case strip_prefix_char (CHR ''+'') s of Some r \<Rightarrow> r | None \<Rightarrow> s) of
       None \<Rightarrow> None
     | Some n \<Rightarrow> if n < 2 ^ w then Some n else None)"

abbreviation parse_usize :: "string \<Rightarrow> nat option" where
  "parse_usize \<equiv> parse_unsigned 64"

definition parse_u64 :: "string \<Rightarrow> u64 option" where
  "parse_u64 s = map_option word_of_nat (parse_unsigned 64 s)"

definition parse_i64 :: "string \<Rightarrow> i64 option" where
  "parse_i64 s = (case strip_prefix_char (CHR ''-'') s of
       Some r \<Rightarrow> (case digits_val r of None \<Rightarrow> None
         | Some n \<Rightarrow> if n \<le> 2 ^ 63 then Some (word_of_int (- int n)) else None)
     | None \<Rightarrow> map_option word_of_nat (parse_unsigned 63 s))"

lemma byte_less [simp]: "byte c < 256"
  by (simp add: byte_def)

lemma byte_char_of [simp]: "n < 256 \<Longrightarrow> byte (char_of n) = n"
  by (simp add: byte_def)

lemma byte_digit [simp]: "n < 10 \<Longrightarrow> byte (digit n) = 48 + n"
  by (simp add: byte_def digit_def)

lemma is_digit_digit [simp]: "n < 10 \<Longrightarrow> is_digit (digit n)"
  by (simp add: is_digit_def)

lemma digit_simps [simp]:
  "digit 0 = CHR ''0''" "digit 1 = CHR ''1''" "digit (Suc 0) = CHR ''1''" "digit 2 = CHR ''2''"
  "digit 3 = CHR ''3''" "digit 4 = CHR ''4''" "digit 5 = CHR ''5''" "digit 6 = CHR ''6''"
  "digit 7 = CHR ''7''" "digit 8 = CHR ''8''" "digit 9 = CHR ''9''"
  by (simp_all add: digit_def char_of_def bit_0)

lemma show_nat_digits: "show_nat n \<noteq> [] \<and> list_all is_digit (show_nat n)"
proof (induction n rule: show_nat.induct)
  case (1 n)
  then show ?case by (subst (1 2) show_nat.simps) auto
qed

lemma foldl_show_nat: "foldl (\<lambda>n c. 10 * n + (byte c - 48)) 0 (show_nat n) = n"
proof (induction n rule: show_nat.induct)
  case (1 n)
  then show ?case by (subst show_nat.simps) auto
qed

lemma digits_val_show_nat [simp]: "digits_val (show_nat n) = Some n"
  by (simp add: digits_val_def show_nat_digits foldl_show_nat)

lemma show_nat_head: "\<not> is_digit c \<Longrightarrow> strip_prefix_char c (show_nat n) = None"
  using show_nat_digits [of n] by (cases "show_nat n") (auto simp: strip_prefix_char_def)

lemma not_digit_signs [simp]: "\<not> is_digit (CHR ''+'')" "\<not> is_digit (CHR ''-'')"
  by (simp_all add: is_digit_def byte_def)

lemma parse_usize_show: "n < 2 ^ 64 \<Longrightarrow> parse_usize (show_nat n) = Some n"
  by (simp add: parse_unsigned_def show_nat_head)

lemma parse_show_u64: "parse_u64 (show_u64 n) = Some n"
proof -
  have "unat n < 2 ^ 64" using unsigned_less [of n] by simp
  then show ?thesis
    by (simp add: parse_u64_def show_u64_def parse_unsigned_def show_nat_head)
qed

lemma parse_show_i64: "parse_i64 (show_i64 n) = Some n"
proof (cases "sint n < 0")
  case True
  have "- (2 ^ 63) \<le> sint n" using sint_ge [of n] by simp
  with True have "nat (- sint n) \<le> 2 ^ 63" by (simp add: nat_le_iff)
  with True show ?thesis
    by (simp add: parse_i64_def show_i64_def strip_prefix_char_def)
next
  case False
  have "sint n < 2 ^ 63" using sint_lt [of n] by simp
  with False have "nat (sint n) < 2 ^ 63" by (simp add: nat_less_iff)
  moreover have "(word_of_nat (nat (sint n)) :: i64) = n"
    using False by (simp add: of_nat_nat)
  ultimately show ?thesis
    using False
    by (simp add: parse_i64_def show_i64_def parse_unsigned_def show_nat_head)
qed

subsection \<open>White space\<close>

text \<open>
  \<^verbatim>\<open>trim\<close> removes the characters with the Unicode property White\_Space from both ends.
  Their UTF-8 encodings have one byte (tab to carriage return, space), two (U+0085, U+00A0)
  or three (U+1680, U+2000 to U+200A, U+2028, U+2029, U+202F, U+205F, U+3000). The scan from
  the end reads the same encodings backwards.
\<close>

definition is_ws1 :: "char \<Rightarrow> bool" where
  "is_ws1 c \<longleftrightarrow> (9 \<le> byte c \<and> byte c \<le> 13) \<or> byte c = 32"

definition is_ws2 :: "char \<Rightarrow> char \<Rightarrow> bool" where
  "is_ws2 c d \<longleftrightarrow> byte c = 0xC2 \<and> (byte d = 0x85 \<or> byte d = 0xA0)"

definition is_ws3 :: "char \<Rightarrow> char \<Rightarrow> char \<Rightarrow> bool" where
  "is_ws3 c d e \<longleftrightarrow>
     (byte c = 0xE1 \<and> byte d = 0x9A \<and> byte e = 0x80) \<or>
     (byte c = 0xE2 \<and> byte d = 0x80 \<and>
        (0x80 \<le> byte e \<and> byte e \<le> 0x8A \<or> byte e \<in> {0xA8, 0xA9, 0xAF})) \<or>
     (byte c = 0xE2 \<and> byte d = 0x81 \<and> byte e = 0x9F) \<or>
     (byte c = 0xE3 \<and> byte d = 0x80 \<and> byte e = 0x80)"

fun skip_ws :: "(char \<Rightarrow> char \<Rightarrow> bool) \<Rightarrow> (char \<Rightarrow> char \<Rightarrow> char \<Rightarrow> bool) \<Rightarrow> string \<Rightarrow> string" where
  "skip_ws p2 p3 [] = []"
| "skip_ws p2 p3 (c # s) =
     (if is_ws1 c then skip_ws p2 p3 s
      else case s of
        [] \<Rightarrow> c # s
      | d # s1 \<Rightarrow>
          if p2 c d then skip_ws p2 p3 s1
          else (case s1 of
             [] \<Rightarrow> c # s
           | e # s2 \<Rightarrow> if p3 c d e then skip_ws p2 p3 s2 else c # s))"

definition trim_start :: "string \<Rightarrow> string" where
  "trim_start s = skip_ws is_ws2 is_ws3 s"

definition trim_end :: "string \<Rightarrow> string" where
  "trim_end s = rev (skip_ws (\<lambda>d c. is_ws2 c d) (\<lambda>e d c. is_ws3 c d e) (rev s))"

definition trim :: "string \<Rightarrow> string" where
  "trim s = trim_end (trim_start s)"

declare skip_ws.simps(2) [simp del]

lemma suffix_skip_ws: "suffix (skip_ws p2 p3 s) s"
proof (induction p2 p3 s rule: skip_ws.induct)
  case (2 p2 p3 c s)
  then show ?case
    unfolding skip_ws.simps(2) [of p2 p3 c s]
    by (auto simp: suffix_Cons split: list.split)
qed simp

lemma skip_ws_idle: "\<not> is_ws1 c \<Longrightarrow> (\<And>d. \<not> p2 c d) \<Longrightarrow> (\<And>d e. \<not> p3 c d e) \<Longrightarrow> skip_ws p2 p3 (c # s) = c # s"
  unfolding skip_ws.simps(2) [of p2 p3 c s] by (simp split: list.split)

lemma sublist_trim: "\<exists>a b. s = a @ trim s @ b"
proof -
  obtain a where a: "s = a @ trim_start s"
    using suffix_skip_ws [of is_ws2 is_ws3 s] by (auto simp: trim_start_def suffix_def)
  obtain b where "rev (trim_start s) = b @ rev (trim s)"
    using suffix_skip_ws [of "\<lambda>d c. is_ws2 c d" "\<lambda>e d c. is_ws3 c d e" "rev (trim_start s)"]
    by (auto simp: trim_def trim_end_def suffix_def)
  then have "trim_start s = trim s @ rev b"
    by (metis rev_append rev_rev_ident)
  with a show ?thesis by metis
qed

lemma set_trim: "set (trim s) \<subseteq> set s"
  using sublist_trim [of s] by (metis set_append Un_iff subsetI)

lemma length_trim: "length (trim s) \<le> length s"
  using sublist_trim [of s] by (metis le_add1 le_add2 le_trans length_append)

lemma trim_idle:
  assumes "s \<noteq> []" and "32 < byte (hd s)" "byte (hd s) < 128"
    and "32 < byte (last s)" "byte (last s) < 128"
  shows "trim s = s"
proof -
  from assms(1) obtain c t where c: "s = c # t" by (cases s) auto
  from assms(1) obtain u x where x: "s = u @ [x]" by (cases s rule: rev_cases) auto
  have "trim_start s = s"
    using assms(2,3) unfolding trim_start_def c
    by (intro skip_ws_idle) (auto simp: is_ws1_def is_ws2_def is_ws3_def)
  moreover have "skip_ws (\<lambda>d c. is_ws2 c d) (\<lambda>e d c. is_ws3 c d e) (x # rev u) = x # rev u"
    using assms(4,5) x
    by (intro skip_ws_idle) (auto simp: is_ws1_def is_ws2_def is_ws3_def)
  then have "trim_end s = s" unfolding trim_end_def x by simp
  ultimately show ?thesis by (simp add: trim_def)
qed

subsection \<open>Letter case\<close>

text \<open>
  The code uses \<^verbatim>\<open>to_uppercase\<close> and \<^verbatim>\<open>to_lowercase\<close> to compare a word with ASCII names. The
  characters beyond ASCII whose upper case is ASCII are the dotless i, the long s, the sharp
  s and the Latin ligatures U+FB00 to U+FB06; no character beyond ASCII has a lower case that
  occurs in a name the code compares with. Every other character beyond ASCII is left as it
  is here: it still differs from every ASCII name, and its upper case would show only in the
  text of the message for an unknown command.
\<close>

definition upper_char :: "char \<Rightarrow> char" where
  "upper_char c = (if 97 \<le> byte c \<and> byte c \<le> 122 then char_of (byte c - 32) else c)"

definition lower_char :: "char \<Rightarrow> char" where
  "lower_char c = (if 65 \<le> byte c \<and> byte c \<le> 90 then char_of (byte c + 32) else c)"

definition upper2 :: "char \<Rightarrow> char \<Rightarrow> string option" where
  "upper2 c d =
     (if byte c = 0xC4 \<and> byte d = 0xB1 then Some ''I''
      else if byte c = 0xC5 \<and> byte d = 0xBF then Some ''S''
      else if byte c = 0xC3 \<and> byte d = 0x9F then Some ''SS''
      else None)"

definition upper3 :: "char \<Rightarrow> char \<Rightarrow> char \<Rightarrow> string option" where
  "upper3 c d e =
     (if byte c = 0xEF \<and> byte d = 0xAC \<and> 0x80 \<le> byte e \<and> byte e \<le> 0x86
      then Some ([''FF'', ''FI'', ''FL'', ''FFI'', ''FFL'', ''ST'', ''ST''] ! (byte e - 0x80))
      else None)"

fun to_uppercase :: "string \<Rightarrow> string" where
  "to_uppercase [] = []"
| "to_uppercase (c # s) =
     (case s of
        [] \<Rightarrow> [upper_char c]
      | d # s1 \<Rightarrow>
          (case upper2 c d of
             Some u \<Rightarrow> u @ to_uppercase s1
           | None \<Rightarrow>
               (case s1 of
                  [] \<Rightarrow> upper_char c # to_uppercase s
                | e # s2 \<Rightarrow>
                    (case upper3 c d e of
                       Some u \<Rightarrow> u @ to_uppercase s2
                     | None \<Rightarrow> upper_char c # to_uppercase s))))"

definition to_lowercase :: "string \<Rightarrow> string" where
  "to_lowercase s = map lower_char s"

abbreviation ascii :: "string \<Rightarrow> bool" where
  "ascii s \<equiv> list_all (\<lambda>c. byte c < 128) s"

declare to_uppercase.simps(2) [simp del]

lemma to_uppercase_Cons: "byte c < 128 \<Longrightarrow> to_uppercase (c # s) = upper_char c # to_uppercase s"
  unfolding to_uppercase.simps(2) [of c s]
  by (auto simp: upper2_def upper3_def split: list.split)

lemma to_uppercase_ascii: "ascii s \<Longrightarrow> to_uppercase s = map upper_char s"
  by (induction s) (auto simp: to_uppercase_Cons)

subsection \<open>Lossy UTF-8 decoding\<close>

text \<open>
  \<^verbatim>\<open>String::from_utf8_lossy\<close>: well-formed characters are kept, and each maximal prefix of an
  ill-formed sequence becomes U+FFFD. \<open>utf8_chunk c s\<close> decodes one character whose first byte
  is \<open>c\<close>: it returns whether it is well formed, the bytes it puts out and the input left.
\<close>

definition cont :: "char \<Rightarrow> bool" where
  "cont c \<longleftrightarrow> 0x80 \<le> byte c \<and> byte c \<le> 0xBF"

definition second_ok :: "char \<Rightarrow> char \<Rightarrow> bool" where
  "second_ok c d \<longleftrightarrow>
     (if byte c = 0xE0 then 0xA0 \<le> byte d \<and> byte d \<le> 0xBF
      else if byte c = 0xED then 0x80 \<le> byte d \<and> byte d \<le> 0x9F
      else if byte c = 0xF0 then 0x90 \<le> byte d \<and> byte d \<le> 0xBF
      else if byte c = 0xF4 then 0x80 \<le> byte d \<and> byte d \<le> 0x8F
      else cont d)"

definition utf8_width :: "char \<Rightarrow> nat" where
  "utf8_width c =
     (if byte c < 0x80 then 1
      else if 0xC2 \<le> byte c \<and> byte c \<le> 0xDF then 2
      else if 0xE0 \<le> byte c \<and> byte c \<le> 0xEF then 3
      else if 0xF0 \<le> byte c \<and> byte c \<le> 0xF4 then 4
      else 0)"

definition replacement :: string where
  "replacement = [CHR 0xEF, CHR 0xBF, CHR 0xBD]"

definition utf8_chunk :: "char \<Rightarrow> string \<Rightarrow> bool \<times> string \<times> string" where
  "utf8_chunk c s =
     (if utf8_width c = 1 then (True, [c], s)
      else if utf8_width c = 0 then (False, replacement, s)
      else case s of
        [] \<Rightarrow> (False, replacement, s)
      | d # s1 \<Rightarrow>
          if \<not> second_ok c d then (False, replacement, s)
          else if utf8_width c = 2 then (True, [c, d], s1)
          else (case s1 of
             [] \<Rightarrow> (False, replacement, s1)
           | e # s2 \<Rightarrow>
               if \<not> cont e then (False, replacement, s1)
               else if utf8_width c = 3 then (True, [c, d, e], s2)
               else (case s2 of
                  [] \<Rightarrow> (False, replacement, s2)
                | f # s3 \<Rightarrow>
                    if \<not> cont f then (False, replacement, s2) else (True, [c, d, e, f], s3))))"

lemma utf8_chunk_shrinks: "utf8_chunk c s = (w, out, r) \<Longrightarrow> length r \<le> length s"
  by (auto simp: utf8_chunk_def split: if_splits list.splits)

function from_utf8_lossy :: "bytes \<Rightarrow> string" where
  "from_utf8_lossy [] = []"
| "from_utf8_lossy (c # s) = (case utf8_chunk c s of (w, out, r) \<Rightarrow> out @ from_utf8_lossy r)"
  by pat_completeness auto
termination
  by (relation "measure length") (auto dest!: utf8_chunk_shrinks [OF sym])

function valid_utf8 :: "bytes \<Rightarrow> bool" where
  "valid_utf8 [] = True"
| "valid_utf8 (c # s) = (case utf8_chunk c s of (w, out, r) \<Rightarrow> w \<and> valid_utf8 r)"
  by pat_completeness auto
termination
  by (relation "measure length") (auto dest!: utf8_chunk_shrinks [OF sym])

lemma utf8_chunk_valid: "utf8_chunk c s = (True, out, r) \<Longrightarrow> out @ r = c # s"
  by (auto simp: utf8_chunk_def split: if_splits list.splits)

lemma utf8_chunk_ascii: "byte c < 128 \<Longrightarrow> utf8_chunk c s = (True, [c], s)"
  by (simp add: utf8_chunk_def utf8_width_def)

lemma utf8_chunk_replacement: "utf8_chunk (CHR 0xEF) (CHR 0xBF # CHR 0xBD # t) = (True, replacement, t)"
  by (simp add: utf8_chunk_def replacement_def utf8_width_def second_ok_def cont_def byte_def)

lemma utf8_chunk_bad: "utf8_chunk c s = (False, out, r) \<Longrightarrow> out = replacement"
  by (auto simp: utf8_chunk_def split: if_splits list.splits)

lemma utf8_chunk_good:
  "utf8_chunk c s = (True, out, r) \<Longrightarrow> \<exists>xs. out = c # xs \<and> (\<forall>t. utf8_chunk c (xs @ t) = (True, out, t))"
  by (auto simp: utf8_chunk_def split: if_splits list.splits)

lemma utf8_chunk_out:
  assumes "utf8_chunk c s = (w, out, r)"
  shows "\<exists>x xs. out = x # xs \<and> (\<forall>t. utf8_chunk x (xs @ t) = (True, out, t))"
proof (cases w)
  case True
  then show ?thesis using utf8_chunk_good [of c s out r] assms by auto
next
  case False
  then have "out = replacement" using utf8_chunk_bad [of c s out r] assms by simp
  then show ?thesis using utf8_chunk_replacement by (simp add: replacement_def)
qed

lemma from_utf8_lossy_valid: "valid_utf8 s \<Longrightarrow> from_utf8_lossy s = s"
  by (induction s rule: valid_utf8.induct) (auto split: prod.splits dest: utf8_chunk_valid)

lemma valid_from_utf8_lossy: "valid_utf8 (from_utf8_lossy s)"
proof (induction s rule: from_utf8_lossy.induct)
  case (2 c s)
  obtain w out r where ch: "utf8_chunk c s = (w, out, r)" by (cases "utf8_chunk c s") auto
  obtain x xs where "out = x # xs" and "\<And>t. utf8_chunk x (xs @ t) = (True, out, t)"
    using utf8_chunk_out [OF ch] by blast
  with 2 [OF ch [symmetric] refl] ch show ?case by simp
qed simp

lemma valid_utf8_append: "valid_utf8 s \<Longrightarrow> valid_utf8 (s @ t) = valid_utf8 t"
proof (induction s rule: valid_utf8.induct)
  case (2 c s)
  obtain w out r where ch: "utf8_chunk c s = (w, out, r)" by (cases "utf8_chunk c s") auto
  with 2(2) have w: "utf8_chunk c s = (True, out, r)" "valid_utf8 r" by simp_all
  from utf8_chunk_good [OF w(1)] obtain xs where xs: "out = c # xs" "\<And>u. utf8_chunk c (xs @ u) = (True, out, u)"
    by blast
  have "s = xs @ r" using utf8_chunk_valid [OF w(1)] xs(1) by simp
  then have "utf8_chunk c (s @ t) = (True, out, r @ t)" using xs(2) [of "r @ t"] by simp
  with 2(1) [OF ch [symmetric] refl w(2)] show ?case by simp
qed simp

lemma ascii_valid_utf8: "ascii s \<Longrightarrow> valid_utf8 s"
  by (induction s) (auto simp: utf8_chunk_ascii)

lemma from_utf8_lossy_ascii [simp]: "ascii s \<Longrightarrow> from_utf8_lossy s = s"
  by (simp add: ascii_valid_utf8 from_utf8_lossy_valid)

lemma utf8_chunk_set:
  "utf8_chunk c s = (w, out, r) \<Longrightarrow> set out \<subseteq> insert c (set s) \<union> set replacement \<and> set r \<subseteq> set s"
  by (auto simp: utf8_chunk_def split: if_splits list.splits)

lemma set_from_utf8_lossy: "set (from_utf8_lossy s) \<subseteq> set s \<union> set replacement"
proof (induction s rule: from_utf8_lossy.induct)
  case (2 c s)
  obtain w out r where ch: "utf8_chunk c s = (w, out, r)" by (cases "utf8_chunk c s") auto
  with 2 [OF ch [symmetric] refl] utf8_chunk_set [OF ch] show ?case by auto
qed simp

end
