(* ===== verification/Crdt.thy ===== *)
theory Crdt imports RustStd "HOL-Library.Finite_Map" begin

section \<open>Values, strategies and paths (ussl-core: error.rs, crdt.rs)\<close>

text \<open>
  The error type of the core, the conflict resolution strategies with their names, the JSON-like
  values a document holds, and the paths that address a position inside a value. The path parser
  of the source calls itself again without consuming input on an opening bracket that is never
  closed, so it is a partial function: \<open>None\<close> means that the call does not return.
\<close>

subsection \<open>Errors\<close>

datatype error =
    DocumentNotFound string
  | InvalidDocumentId string
  | InvalidPath string
  | StrategyMismatch string string
  | DocumentExists string
  | Serialization string
  | CrdtError string
  | DocumentTooLarge nat nat
  | NestingTooDeep nat nat
  | InvalidStrategy string
  | RestoreError string

fun error_msg :: "error \<Rightarrow> string" where
  "error_msg (DocumentNotFound s) = ''Document not found: '' @ s"
| "error_msg (InvalidDocumentId s) = ''Invalid document ID: '' @ s"
| "error_msg (InvalidPath s) = ''Invalid path: '' @ s"
| "error_msg (StrategyMismatch e g) = ''Strategy mismatch: expected '' @ e @ '', got '' @ g"
| "error_msg (DocumentExists s) = ''Document already exists: '' @ s"
| "error_msg (Serialization s) = ''Serialization error: '' @ s"
| "error_msg (CrdtError s) = ''CRDT error: '' @ s"
| "error_msg (DocumentTooLarge n l) = ''Document size exceeds limit: '' @ show_nat n @ '' > '' @ show_nat l"
| "error_msg (NestingTooDeep n l) = ''Nesting depth exceeds limit: '' @ show_nat n @ '' > '' @ show_nat l"
| "error_msg (InvalidStrategy s) = ''Invalid strategy: '' @ s"
| "error_msg (RestoreError s) = ''Failed to restore state: '' @ s"

subsection \<open>Strategies\<close>

datatype strategy = Lww | CrdtCounter | CrdtSet | CrdtMap | CrdtText

definition strategy_default :: strategy where
  "strategy_default = Lww"

fun strategy_name :: "strategy \<Rightarrow> string" where
  "strategy_name Lww = ''lww''"
| "strategy_name CrdtCounter = ''crdt-counter''"
| "strategy_name CrdtSet = ''crdt-set''"
| "strategy_name CrdtMap = ''crdt-map''"
| "strategy_name CrdtText = ''crdt-text''"

definition strategy_from_str :: "string \<Rightarrow> error + strategy" where
  "strategy_from_str s =
     (let l = to_lowercase s in
      if l = ''lww'' then Inr Lww
      else if l = ''crdt-counter'' \<or> l = ''counter'' then Inr CrdtCounter
      else if l = ''crdt-set'' \<or> l = ''set'' then Inr CrdtSet
      else if l = ''crdt-map'' \<or> l = ''map'' then Inr CrdtMap
      else if l = ''crdt-text'' \<or> l = ''text'' then Inr CrdtText
      else Inl (InvalidPath (''Unknown strategy: '' @ s)))"

lemma strategy_from_str_name [simp]: "strategy_from_str (strategy_name st) = Inr st"
  by (cases st) (simp_all add: strategy_from_str_def to_lowercase_def lower_char_def byte_def)

subsection \<open>Values\<close>

datatype number = NInteger i64 | NFloat f64

datatype val =
    VNull
  | VBool bool
  | VNumber number
  | VString string
  | VBinary bytes
  | VArray "val list"
  | VObject "(string, val) fmap"

fun is_null :: "val \<Rightarrow> bool" where
  "is_null VNull = True"
| "is_null _ = False"

fun as_bool :: "val \<Rightarrow> bool option" where
  "as_bool (VBool b) = Some b"
| "as_bool _ = None"

fun as_i64 :: "val \<Rightarrow> i64 option" where
  "as_i64 (VNumber (NInteger n)) = Some n"
| "as_i64 _ = None"

fun as_str :: "val \<Rightarrow> string option" where
  "as_str (VString s) = Some s"
| "as_str _ = None"

fun as_array :: "val \<Rightarrow> val list option" where
  "as_array (VArray a) = Some a"
| "as_array _ = None"

fun as_object :: "val \<Rightarrow> (string, val) fmap option" where
  "as_object (VObject m) = Some m"
| "as_object _ = None"

definition val_default :: val where
  "val_default = VNull"

text \<open>The conversions into values, one per type; that of a vector converts the elements.\<close>

definition val_from_bool :: "bool \<Rightarrow> val" where
  "val_from_bool v = VBool v"

definition val_from_i64 :: "i64 \<Rightarrow> val" where
  "val_from_i64 v = VNumber (NInteger v)"

definition val_from_f64 :: "f64 \<Rightarrow> val" where
  "val_from_f64 v = VNumber (NFloat v)"

definition val_from_string :: "string \<Rightarrow> val" where
  "val_from_string v = VString v"

definition val_from_str :: "string \<Rightarrow> val" where
  "val_from_str v = VString v"

definition val_from_vec :: "('t \<Rightarrow> val) \<Rightarrow> 't list \<Rightarrow> val" where
  "val_from_vec into v = VArray (map into v)"

lemma as_val_from [simp]:
  "as_bool (val_from_bool b) = Some b" "as_i64 (val_from_i64 n) = Some n"
  "as_str (val_from_string s) = Some s" "as_str (val_from_str s) = Some s" "as_array (val_from_vec into v) = Some (map into v)"
  by (simp_all add: val_from_bool_def val_from_i64_def val_from_string_def val_from_str_def val_from_vec_def)

subsection \<open>Path segments\<close>

datatype path_segment = Key string | Index nat

text \<open>
  The state of \<^verbatim>\<open>PathParser\<close> is the part of the path from \<^verbatim>\<open>pos\<close> on. \<open>path_index\<close> is the attempt
  to read an index at an opening bracket: the index, if the text up to the closing bracket is a
  number, and the position after it, which the source has moved past the closing bracket even
  when the text is no number.
\<close>

definition strip_dot :: "string \<Rightarrow> string" where
  "strip_dot s = (case strip_prefix_char (CHR ''.'') s of Some r \<Rightarrow> r | None \<Rightarrow> s)"

definition path_index :: "string \<Rightarrow> nat option \<times> string" where
  "path_index s =
     (if s \<noteq> [] \<and> hd s = CHR ''['' then
        (case find_char (\<lambda>c. c = CHR '']'') s of
           Some e \<Rightarrow> (parse_usize (take (e - 1) (drop 1 s)), drop (e + 1) s)
         | None \<Rightarrow> (None, s))
      else (None, s))"

definition key_end :: "string \<Rightarrow> nat" where
  "key_end s = (case find_char (\<lambda>c. c = CHR ''.'' \<or> c = CHR ''['') s of Some e \<Rightarrow> e | None \<Rightarrow> length s)"

partial_function (option) path_next :: "string \<Rightarrow> (path_segment \<times> string) option option" where
  "path_next s =
     (if s = [] then Some None
      else let remaining = strip_dot s in
        if remaining = [] then Some None
        else (case path_index remaining of
            (Some idx, pos) \<Rightarrow> Some (Some (Index idx, pos))
          | (None, pos) \<Rightarrow>
              let end = key_end remaining; key = take end remaining; pos' = drop end pos in
              if key = [] then path_next pos' else Some (Some (Key key, pos'))))"

text \<open>\<^verbatim>\<open>PathSegment::parse(path).collect()\<close>.\<close>

partial_function (option) path_collect :: "string \<Rightarrow> path_segment list option" where
  "path_collect s =
     Option.bind (path_next s) (\<lambda>r.
       case r of
         None \<Rightarrow> Some []
       | Some (seg, pos) \<Rightarrow> Option.bind (path_collect pos) (\<lambda>segs. Some (seg # segs)))"

subsection \<open>Reading and writing at a path\<close>

fun step_into :: "val \<Rightarrow> path_segment \<Rightarrow> val option" where
  "step_into v (Key k) = (case as_object v of None \<Rightarrow> None | Some m \<Rightarrow> fmlookup m k)"
| "step_into v (Index i) =
     (case as_array v of None \<Rightarrow> None | Some a \<Rightarrow> if i < length a then Some (a ! i) else None)"

partial_function (option) get_path_from :: "val \<Rightarrow> string \<Rightarrow> val option option" where
  "get_path_from current s =
     Option.bind (path_next s) (\<lambda>r.
       case r of
         None \<Rightarrow> Some (Some current)
       | Some (seg, pos) \<Rightarrow>
           (case step_into current seg of
              None \<Rightarrow> Some None
            | Some v \<Rightarrow> get_path_from v pos))"

definition get_path :: "val \<Rightarrow> string \<Rightarrow> val option option" where
  "get_path v path = (if path = [] then Some (Some v) else get_path_from v path)"

definition or_object :: "val \<Rightarrow> (string, val) fmap" where
  "or_object v = (case v of VObject m \<Rightarrow> m | _ \<Rightarrow> fmempty)"

definition or_array :: "val \<Rightarrow> val list" where
  "or_array v = (case v of VArray a \<Rightarrow> a | _ \<Rightarrow> [])"

text \<open>\<^verbatim>\<open>while arr.len() <= idx { arr.push(Null) }\<close>\<close>

definition pad_to :: "nat \<Rightarrow> val list \<Rightarrow> val list" where
  "pad_to idx arr = arr @ replicate (Suc idx - length arr) VNull"

fun set_segs :: "val \<Rightarrow> path_segment list \<Rightarrow> val \<Rightarrow> val" where
  "set_segs current [] x = current"
| "set_segs current [Key k] x = VObject (fmupd k x (or_object current))"
| "set_segs current (Key k # segs) x =
     (let m = or_object current;
          child = (case fmlookup m k of Some v \<Rightarrow> v | None \<Rightarrow> VNull)
      in VObject (fmupd k (set_segs child segs x) m))"
| "set_segs current [Index i] x = VArray ((pad_to i (or_array current))[i := x])"
| "set_segs current (Index i # segs) x =
     (let arr = pad_to i (or_array current) in VArray (arr[i := set_segs (arr ! i) segs x]))"

definition set_path :: "val \<Rightarrow> string \<Rightarrow> val \<Rightarrow> val option" where
  "set_path v path x =
     (if path = [] then Some x
      else Option.bind (path_collect path) (\<lambda>segs. Some (set_segs v segs x)))"

end
