(* ===== verification/CrdtLaws.thy ===== *)
theory CrdtLaws imports Crdt begin

section \<open>What the path parser and the value operations guarantee\<close>

text \<open>
  The parser returns exactly on the paths without an unclosed bracket, reads back every path
  written in the usual form, and yields only well-formed segments. Reading after writing returns
  the written value, and writing at one key leaves every other key alone. \<open>get_segs\<close> is the
  reference reading over a parsed path; the lazy reader of the code agrees with it.
\<close>

subsection \<open>Where the path parser returns\<close>

fun unclosed :: "string \<Rightarrow> bool" where
  "unclosed [] = False"
| "unclosed (c # s) = (unclosed s \<or> (c = CHR ''['' \<and> CHR '']'' \<notin> set s))"

lemma unclosed_append:
  "unclosed (a @ b) \<longleftrightarrow> unclosed b \<or> (CHR '']'' \<notin> set b \<and> unclosed a)"
  by (induction a) auto

lemma unclosed_drop: "unclosed (drop n s) \<Longrightarrow> unclosed s"
  using unclosed_append [of "take n s" "drop n s"] by simp

lemma unclosed_drop_plain:
  assumes "CHR ''['' \<notin> set (take n s)" and "unclosed s"
  shows "unclosed (drop n s)"
proof -
  have "\<not> unclosed t" if "CHR ''['' \<notin> set t" for t
    using that by (induction t) auto
  with assms unclosed_append [of "take n s" "drop n s"] show ?thesis by auto
qed

lemma strip_dot_simps [simp]:
  "strip_dot [] = []" "strip_dot (c # s) = (if c = CHR ''.'' then s else c # s)"
  by (simp_all add: strip_dot_def strip_prefix_char_def)

lemma unclosed_strip_dot [simp]: "unclosed (strip_dot s) = unclosed s"
  by (cases s) auto

lemma length_strip_dot [shrink]: "length (strip_dot s) \<le> length s"
  by (cases s) auto

lemma suffix_strip_dot: "suffix (strip_dot s) s"
  by (cases s) (auto simp: suffix_Cons)

lemma key_end_Cons:
  "key_end (c # s) = (if c = CHR ''.'' \<or> c = CHR ''['' then 0 else Suc (key_end s))"
  by (auto simp: key_end_def find_char_def split: option.splits)

lemma key_end_le: "key_end s \<le> length s"
  by (induction s) (auto simp: key_end_Cons key_end_def find_char_def)

lemma key_plain: "set (take (key_end s) s) \<inter> {CHR ''.'', CHR ''[''} = {}"
proof (induction s)
  case (Cons c s)
  then show ?case by (auto simp: key_end_Cons)
qed simp

lemma path_index_simps [simp]:
  "path_index [] = (None, [])"
  "c \<noteq> CHR ''['' \<Longrightarrow> path_index (c # s) = (None, c # s)"
  by (simp_all add: path_index_def)

lemma path_index_closed:
  assumes "CHR '']'' \<notin> set a"
  shows "path_index (CHR ''['' # a @ CHR '']'' # b) = (parse_usize a, b)"
proof -
  have "\<forall>c\<in>set (CHR ''['' # a). \<not> c = CHR '']''" using assms by auto
  from find_char_append [OF this, of "CHR '']''" b]
  have "find_char (\<lambda>c. c = CHR '']'') (CHR ''['' # a @ CHR '']'' # b) = Some (Suc (length a))"
    by simp
  then show ?thesis by (simp add: path_index_def)
qed

lemma path_index_open:
  "CHR '']'' \<notin> set a \<Longrightarrow> path_index (CHR ''['' # a) = (None, CHR ''['' # a)"
  by (simp add: path_index_def find_char_def list_ex_iff)

text \<open>The three shapes of what is left of the path after the dot.\<close>

lemma remaining_cases:
  obtains (nil) "r = []"
  | (plain) c s where "r = c # s" and "c \<noteq> CHR ''[''"
  | (bracket) a b where "r = CHR ''['' # a @ CHR '']'' # b" and "CHR '']'' \<notin> set a"
  | (broken) a where "r = CHR ''['' # a" and "CHR '']'' \<notin> set a"
proof (cases r)
  case (Cons c s)
  show ?thesis
  proof (cases "c = CHR ''['' \<and> CHR '']'' \<in> set s")
    case True
    then obtain a b where "s = a @ CHR '']'' # b" "CHR '']'' \<notin> set a"
      by (metis split_list_first)
    with True Cons bracket show ?thesis by blast
  next
    case False
    with Cons plain broken show ?thesis by blast
  qed
qed (rule nil)

lemma path_next_plain:
  assumes "strip_dot s = c # r" and "c \<noteq> CHR ''[''"
  shows "path_next s = (if c = CHR ''.'' then path_next (c # r)
     else Some (Some (Key (take (key_end (c # r)) (c # r)), drop (key_end (c # r)) (c # r))))"
proof -
  from assms have "s \<noteq> []" by auto
  with assms show ?thesis
    by (subst path_next.simps) (auto simp: Let_def key_end_Cons)
qed

lemma path_next_bracket:
  assumes "strip_dot s = CHR ''['' # a @ CHR '']'' # b" and "CHR '']'' \<notin> set a"
  shows "path_next s = (case parse_usize a of Some i \<Rightarrow> Some (Some (Index i, b)) | None \<Rightarrow> path_next b)"
proof -
  from assms have "s \<noteq> []" by auto
  with assms show ?thesis
    by (subst path_next.simps) (auto simp: Let_def key_end_Cons path_index_closed split: option.splits)
qed

lemma path_next_nil: "strip_dot s = [] \<Longrightarrow> path_next s = Some None"
  by (subst path_next.simps) (simp add: Let_def)

lemma path_next_returns: "\<not> unclosed s \<Longrightarrow> \<exists>r. path_next s = Some r"
proof (induction "length s" arbitrary: s rule: less_induct)
  case less
  show ?case
  proof (cases "strip_dot s" rule: remaining_cases)
    case nil
    then show ?thesis by (simp add: path_next_nil)
  next
    case (plain c r)
    have "length (c # r) < length s" if "c = CHR ''.''"
      using plain that by (cases s) (auto split: if_splits)
    moreover have "\<not> unclosed (c # r)"
      using plain(1) less.prems unclosed_strip_dot [of s] by simp
    ultimately show ?thesis
      using path_next_plain [OF plain] less.hyps [of "c # r"] by auto
  next
    case (bracket a b)
    have "\<not> unclosed b"
      using less.prems unclosed_strip_dot [of s] unclosed_append [of "a @ [CHR '']'']" b]
      unfolding bracket(1) by auto
    moreover have "length b < length s"
      using length_strip_dot [of s] unfolding bracket(1) by simp
    ultimately show ?thesis
      using path_next_bracket [OF bracket] less.hyps [of b] by (auto split: option.splits)
  next
    case (broken a)
    then show ?thesis using less.prems unclosed_strip_dot [of s] by simp
  qed
qed

text \<open>What a returned segment leaves, by induction over the recursion of the partial function.\<close>

definition next_ok :: "string \<Rightarrow> (path_segment \<times> string) option \<Rightarrow> bool" where
  "next_ok s r \<longleftrightarrow>
     (case r of
        None \<Rightarrow> \<not> unclosed s
      | Some (seg, pos) \<Rightarrow> suffix pos s \<and> length pos < length s \<and> (unclosed s \<longrightarrow> unclosed pos) \<and>
          (case seg of Key k \<Rightarrow> k \<noteq> [] \<and> set k \<inter> {CHR ''.'', CHR ''[''} = {} | Index i \<Rightarrow> i < 2 ^ 64))"

lemma next_ok_mono:
  assumes "next_ok pos r" and "suffix pos s" and "unclosed s \<Longrightarrow> unclosed pos"
  shows "next_ok s r"
  using assms suffix_length_le [OF assms(2)]
  by (auto simp: next_ok_def split: option.splits intro: suffix_order.trans)

lemma path_next_not_broken:
  assumes "path_next s = Some r"
  shows "\<forall>a. strip_dot s = CHR ''['' # a \<longrightarrow> CHR '']'' \<in> set a"
proof (rule path_next.raw_induct [where P = "\<lambda>s r. \<forall>a. strip_dot s = CHR ''['' # a \<longrightarrow> CHR '']'' \<in> set a", OF _ assms], goal_cases)
  case (1 f s r)
  show ?case
  proof (intro allI impI)
    fix a
    assume a: "strip_dot s = CHR ''['' # a"
    show "CHR '']'' \<in> set a"
    proof (rule ccontr)
      assume open_bracket: "CHR '']'' \<notin> set a"
      from a have "s \<noteq> []" by auto
      with 1(2) a open_bracket have "f (CHR ''['' # a) = Some r" by (simp add: Let_def key_end_Cons path_index_open)
      from 1(1) [OF this] open_bracket show False by simp
    qed
  qed
qed

lemma next_ok_key:
  assumes "strip_dot s = c # t" and "c \<noteq> CHR ''[''" and "c \<noteq> CHR ''.''"
  shows "next_ok s (Some (Key (take (key_end (c # t)) (c # t)), drop (key_end (c # t)) (c # t)))"
proof -
  let ?n = "key_end (c # t)"
  have s: "suffix (c # t) s" using suffix_strip_dot [of s] assms(1) by simp
  have "unclosed (drop ?n (c # t))" if "unclosed s"
    using that unclosed_strip_dot [of s] assms(1) key_plain [of "c # t"] by (intro unclosed_drop_plain) auto
  moreover have "suffix (drop ?n (c # t)) s" using s suffix_drop suffix_order.trans by blast
  moreover have "length (drop ?n (c # t)) < length s"
    using suffix_length_le [OF s] assms by (simp add: key_end_Cons)
  ultimately show ?thesis
    using key_plain [of "c # t"] assms by (simp add: next_ok_def key_end_Cons)
qed

lemma behind_bracket:
  assumes "strip_dot s = CHR ''['' # a @ CHR '']'' # b"
  shows "suffix b s" and "length b < length s" and "unclosed s \<Longrightarrow> unclosed b"
proof -
  have s: "suffix (CHR ''['' # a @ CHR '']'' # b) s" using suffix_strip_dot [of s] assms by simp
  have "suffix b (CHR ''['' # a @ CHR '']'' # b)" by (auto simp: suffix_def)
  then show "suffix b s" using s suffix_order.trans by blast
  show "length b < length s" using suffix_length_le [OF s] by simp
  show "unclosed b" if "unclosed s"
    using that unclosed_strip_dot [of s] unclosed_append [of "a @ [CHR '']'']" b] unclosed_append [of a "[CHR '']'']"] assms by auto
qed

lemma path_next_ok: "path_next s = Some r \<Longrightarrow> next_ok s r"
proof (induction "length s" arbitrary: s rule: less_induct)
  case less
  show ?case
  proof (cases "strip_dot s" rule: remaining_cases)
    case nil
    with less.prems unclosed_strip_dot [of s] show ?thesis by (auto simp: path_next_nil next_ok_def)
  next
    case (plain c t)
    show ?thesis
    proof (cases "c = CHR ''.''")
      case True
      then have "length (c # t) < length s" using plain by (cases s) (auto split: if_splits)
      moreover have "suffix (c # t) s" using suffix_strip_dot [of s] plain by simp
      ultimately show ?thesis
        using less path_next_plain [OF plain] True unclosed_strip_dot [of s] plain(1) by (auto intro: next_ok_mono [of "c # t"])
    next
      case False
      with less.prems path_next_plain [OF plain] next_ok_key [OF plain False] show ?thesis by simp
    qed
  next
    case (bracket a b)
    note b = behind_bracket [OF bracket(1)]
    show ?thesis
    proof (cases "parse_usize a")
      case None
      with less path_next_bracket [OF bracket] b show ?thesis by (auto intro: next_ok_mono [of b])
    next
      case (Some i)
      then have "i < 2 ^ 64" by (auto simp: parse_unsigned_def split: option.splits if_splits)
      with Some less.prems path_next_bracket [OF bracket] b show ?thesis by (auto simp: next_ok_def)
    qed
  next
    case (broken a)
    with path_next_not_broken [OF less.prems] show ?thesis by simp
  qed
qed

lemma path_next_shrinks: "path_next s = Some (Some (seg, pos)) \<Longrightarrow> length pos < length s"
  by (auto dest!: path_next_ok simp: next_ok_def)

text \<open>The path parser as a scanner of segments; a parse that does not return scans nothing.\<close>

definition path_scan :: "string \<Rightarrow> (path_segment \<times> string) option" where
  "path_scan s = Option.bind (path_next s) (\<lambda>r. r)"

interpretation path: scanner path_scan
  by unfold_locales (auto simp: path_scan_def dest: path_next_shrinks)

definition seg_ok :: "path_segment \<Rightarrow> bool" where
  "seg_ok seg = (case seg of Key k \<Rightarrow> k \<noteq> [] \<and> set k \<inter> {CHR ''.'', CHR ''[''} = {} | Index i \<Rightarrow> i < 2 ^ 64)"

lemma path_collect_returns: "\<not> unclosed s \<Longrightarrow> \<exists>segs. path_collect s = Some segs"
proof (induction s rule: path.scan_induct)
  case (scan s)
  obtain r where r: "path_next s = Some r" using path_next_returns scan.prems by blast
  show ?case
  proof (cases r)
    case None
    with r show ?thesis by (subst path_collect.simps) simp
  next
    case (Some p)
    then obtain seg pos where p: "r = Some (seg, pos)" by (cases p) auto
    with path_next_ok [OF r] have "suffix pos s" by (auto simp: next_ok_def)
    then have "\<not> unclosed pos" using scan.prems unclosed_append by (auto simp: suffix_def)
    moreover have "path_scan s = Some (seg, pos)" using r p by (simp add: path_scan_def)
    ultimately obtain segs where "path_collect pos = Some segs" using scan.IH by blast
    with r p show ?thesis by (subst path_collect.simps) simp
  qed
qed

lemma path_collect_closed:
  assumes "path_collect s = Some segs"
  shows "\<not> unclosed s \<and> list_all seg_ok segs"
proof (rule path_collect.raw_induct [where P = "\<lambda>s segs. \<not> unclosed s \<and> list_all seg_ok segs", OF _ assms])
  fix f s segs
  assume IH: "\<And>s segs. f s = Some segs \<Longrightarrow> \<not> unclosed s \<and> list_all seg_ok segs"
    and eq: "Option.bind (path_next s) (\<lambda>r. case r of None \<Rightarrow> Some []
       | Some (seg, pos) \<Rightarrow> Option.bind (f pos) (\<lambda>segs. Some (seg # segs))) = Some segs"
  from eq obtain r where r: "path_next s = Some r" by auto
  show "\<not> unclosed s \<and> list_all seg_ok segs"
  proof (cases r)
    case None
    with eq r path_next_ok [OF r] show ?thesis by (auto simp: next_ok_def)
  next
    case (Some p)
    obtain seg pos where p: "r = Some (seg, pos)" using Some by (cases p) auto
    with eq r obtain segs' where "f pos = Some segs'" "segs = seg # segs'" by auto
    with IH path_next_ok [OF r] p show ?thesis
      by (auto simp: next_ok_def seg_ok_def)
  qed
qed

text \<open>
  C28. Parsing a path into its segments returns if and only if the path has no opening bracket
  that is never closed; on a path with one, for example \<^verbatim>\<open>items[\<close>, the parser calls itself
  for ever on the same position.
\<close>

theorem path_collect_diverges_iff: "path_collect s = None \<longleftrightarrow> unclosed s"
  using path_collect_returns path_collect_closed by (metis not_None_eq)

subsection \<open>Writing a path and reading it back\<close>

fun render_seg :: "path_segment \<Rightarrow> string" where
  "render_seg (Key k) = CHR ''.'' # k"
| "render_seg (Index i) = CHR ''['' # show_nat i @ '']''"

definition render_path :: "path_segment list \<Rightarrow> string" where
  "render_path segs = strip_dot (concat (map render_seg segs))"

lemma not_digit_brackets [simp]: "\<not> is_digit (CHR '']'')" "\<not> is_digit (CHR ''['')" "\<not> is_digit (CHR ''.'')"
  by (simp_all add: is_digit_def byte_def)

lemma show_nat_set: "c \<in> set (show_nat n) \<Longrightarrow> is_digit c"
  using show_nat_digits [of n] by (simp add: list_all_iff)

lemma key_end_append:
  assumes "set k \<inter> {CHR ''.'', CHR ''[''} = {}" and "r = [] \<or> hd r \<in> {CHR ''.'', CHR ''[''}"
  shows "key_end (k @ r) = length k"
  using assms
proof (induction k)
  case Nil
  then show ?case by (cases r) (auto simp: key_end_Cons key_end_def find_char_def)
qed (auto simp: key_end_Cons)

lemma render_hd: "concat (map render_seg segs) = [] \<or> hd (concat (map render_seg segs)) \<in> {CHR ''.'', CHR ''[''}"
proof (cases segs)
  case (Cons seg ss)
  then show ?thesis by (cases seg) auto
qed simp

lemma path_next_render:
  assumes "seg_ok seg" and "r = [] \<or> hd r \<in> {CHR ''.'', CHR ''[''}"
  shows "path_next (render_seg seg @ r) = Some (Some (seg, r))"
proof (cases seg)
  case (Key k)
  with assms obtain c k' where k: "k = c # k'" "c \<noteq> CHR ''.''" "c \<noteq> CHR ''[''"
    and kd: "set k \<inter> {CHR ''.'', CHR ''[''} = {}"
    by (cases k) (auto simp: seg_ok_def)
  have "key_end (k @ r) = length k" using kd assms(2) by (rule key_end_append)
  then show ?thesis
    using path_next_plain [of "render_seg seg @ r" c "k' @ r"] k Key by simp
next
  case (Index i)
  have "CHR '']'' \<notin> set (show_nat i)" using show_nat_set by fastforce
  moreover have "parse_usize (show_nat i) = Some i"
    using Index assms(1) by (simp add: seg_ok_def parse_usize_show)
  ultimately show ?thesis
    using path_next_bracket [of "render_seg seg @ r" "show_nat i" r] Index by simp
qed

lemma path_collect_render_dots: "list_all seg_ok segs \<Longrightarrow> path_collect (concat (map render_seg segs)) = Some segs"
proof (induction segs)
  case Nil
  show ?case by (subst path_collect.simps) (simp add: path_next_nil)
next
  case (Cons seg segs)
  then have "path_next (concat (map render_seg (seg # segs))) = Some (Some (seg, concat (map render_seg segs)))"
    using path_next_render [of seg "concat (map render_seg segs)"] render_hd [of segs] by simp
  with Cons show ?case by (subst path_collect.simps) simp
qed

lemma path_next_strip_dot:
  assumes "strip_dot s = [] \<or> hd (strip_dot s) \<noteq> CHR ''.''"
  shows "path_next (strip_dot s) = path_next s"
proof (cases "strip_dot s" rule: remaining_cases)
  case nil
  then show ?thesis using path_next_nil [of s] path_next_nil [of "[]"] by simp
next
  case (plain c t)
  with assms have "c \<noteq> CHR ''.''" by simp
  with plain show ?thesis using path_next_plain [of s c t] path_next_plain [of "c # t" c t] by simp
next
  case (bracket a b)
  then show ?thesis
    using path_next_bracket [of s a b] path_next_bracket [of "strip_dot s" a b] by simp
next
  case (broken a)
  have "path_next s = None" if "path_next (CHR ''['' # a) = None" using that broken
    by (subst path_next.simps) (auto simp: Let_def key_end_Cons path_index_open)
  moreover have "path_next (CHR ''['' # a) = path_next s" if "s \<noteq> CHR ''['' # a"
    using that broken by (subst (2) path_next.simps) (auto simp: Let_def key_end_Cons path_index_open)
  ultimately show ?thesis using broken by metis
qed

lemma path_collect_cong: "path_next s = path_next t \<Longrightarrow> path_collect s = path_collect t"
  by (subst (1 2) path_collect.simps) simp

lemma path_collect_strip_dot:
  "strip_dot s = [] \<or> hd (strip_dot s) \<noteq> CHR ''.'' \<Longrightarrow> path_collect (strip_dot s) = path_collect s"
  by (rule path_collect_cong) (rule path_next_strip_dot)

lemma strip_dot_render:
  "list_all seg_ok segs \<Longrightarrow> render_path segs = [] \<or> hd (render_path segs) \<noteq> CHR ''.''"
proof (cases segs)
  case (Cons seg ss)
  moreover assume "list_all seg_ok segs"
  ultimately show ?thesis
    by (cases seg) (auto simp: render_path_def seg_ok_def neq_Nil_conv)
qed (simp add: render_path_def)

lemma path_collect_render: "list_all seg_ok segs \<Longrightarrow> path_collect (render_path segs) = Some segs"
  using path_collect_strip_dot strip_dot_render path_collect_render_dots
  unfolding render_path_def by metis

text \<open>
  C30. Parsing a path and writing its segments back in the usual form (\<^verbatim>\<open>users[0].name\<close>) gives a
  path with the same segments: the segments of every path that parses can be written, and what
  is written parses to exactly these segments.
\<close>

theorem path_parse_render:
  assumes "path_collect s = Some segs"
  shows "path_collect (render_path segs) = Some segs"
  using path_collect_closed [OF assms] by (simp add: path_collect_render)

lemma path_example: "path_collect ''a..b[x][7]'' = Some [Key ''a'', Key ''b'', Index 7]"
  by (simp add: path_collect.simps path_next.simps path_index_def find_char_def key_end_def
      parse_unsigned_def digits_val_def is_digit_def byte_def strip_prefix_char_def)

lemma path_parse_render_witness:
  "path_collect (render_path [Key ''a'', Key ''b'', Index 7]) = Some [Key ''a'', Key ''b'', Index 7]"
  by (rule path_parse_render [OF path_example])

subsection \<open>Reading and writing\<close>

fun get_segs :: "val \<Rightarrow> path_segment list \<Rightarrow> val option" where
  "get_segs v [] = Some v"
| "get_segs v (seg # segs) = (case step_into v seg of None \<Rightarrow> None | Some w \<Rightarrow> get_segs w segs)"

lemma get_path_from_segs: "path_collect s = Some segs \<Longrightarrow> get_path_from v s = Some (get_segs v segs)"
proof (induction segs arbitrary: s v)
  case Nil
  then obtain r where r: "path_next s = Some r"
    by (subst (asm) path_collect.simps) auto
  with Nil have "r = None"
    by (subst (asm) path_collect.simps) (cases r; auto)
  with r show ?case by (subst get_path_from.simps) simp
next
  case (Cons seg segs)
  then obtain pos where "path_next s = Some (Some (seg, pos))" and "path_collect pos = Some segs"
    by (subst (asm) path_collect.simps) (auto split: option.splits)
  with Cons.IH show ?case by (subst get_path_from.simps) (auto split: option.splits)
qed

lemma path_collect_Nil [simp]: "path_collect [] = Some []"
  by (subst path_collect.simps) (simp add: path_next_nil)

lemma get_path_segs: "path_collect s = Some segs \<Longrightarrow> get_path v s = Some (get_segs v segs)"
  by (auto simp: get_path_def get_path_from_segs)

lemma set_path_segs:
  "path_collect s = Some segs \<Longrightarrow> s \<noteq> [] \<Longrightarrow> set_path v s x = Some (set_segs v segs x)"
  by (simp add: set_path_def)

definition child :: "val \<Rightarrow> path_segment \<Rightarrow> val" where
  "child v seg = (case step_into v seg of Some w \<Rightarrow> w | None \<Rightarrow> VNull)"

fun put_child :: "val \<Rightarrow> path_segment \<Rightarrow> val \<Rightarrow> val" where
  "put_child v (Key k) y = VObject (fmupd k y (or_object v))"
| "put_child v (Index i) y = VArray ((pad_to i (or_array v))[i := y])"

lemma child_Key: "(case fmlookup (or_object v) k of Some w \<Rightarrow> w | None \<Rightarrow> VNull) = child v (Key k)"
  by (cases v) (simp_all add: child_def or_object_def)

lemma child_Index: "pad_to i (or_array v) ! i = child v (Index i)"
  by (cases v) (auto simp: child_def or_array_def pad_to_def nth_append nth_Cons')

lemma set_segs_Cons:
  "set_segs v (seg # segs) x = put_child v seg (if segs = [] then x else set_segs (child v seg) segs x)"
  by (cases seg; cases segs) (simp_all add: Let_def child_Key child_Index)

lemma step_put_same [simp]: "step_into (put_child v seg y) seg = Some y"
  by (cases seg) (auto simp: pad_to_def)

lemma step_put_key: "k \<noteq> k' \<Longrightarrow> step_into (put_child v (Key k) y) (Key k') = step_into v (Key k')"
  by (cases v) (auto simp: or_object_def)

lemma step_put_index:
  "i \<noteq> j \<Longrightarrow> step_into v (Index j) = Some w \<Longrightarrow> step_into (put_child v (Index i) y) (Index j) = Some w"
  by (cases v) (auto simp: or_array_def pad_to_def nth_append nth_list_update split: if_splits)

lemma step_into_VNull [simp]: "step_into VNull seg = None"
  by (cases seg) auto

lemma get_set_same: "segs \<noteq> [] \<Longrightarrow> get_segs (set_segs v segs x) segs = Some x"
proof (induction segs arbitrary: v)
  case (Cons seg segs)
  then show ?case by (cases "segs = []") (simp_all add: set_segs_Cons)
qed simp

lemma get_segs_child: "segs \<noteq> [] \<Longrightarrow> get_segs (child v seg) segs = get_segs v (seg # segs)"
  by (cases segs) (auto simp: child_def split: option.splits)

lemma get_set_other_key:
  "y \<noteq> z \<Longrightarrow> get_segs (set_segs v (xs @ Key z # zs) x) (xs @ Key y # ys) = get_segs v (xs @ Key y # ys)"
proof (induction xs arbitrary: v)
  case Nil
  then show ?case by (simp add: set_segs_Cons step_put_key del: put_child.simps step_into.simps)
next
  case (Cons seg xs)
  then have "get_segs (set_segs v ((seg # xs) @ Key z # zs) x) ((seg # xs) @ Key y # ys)
      = get_segs (child v seg) (xs @ Key y # ys)"
    by (simp add: set_segs_Cons)
  also have "\<dots> = get_segs v (seg # xs @ Key y # ys)" by (rule get_segs_child) simp
  finally show ?case by simp
qed

lemma get_set_other_index:
  "i \<noteq> j \<Longrightarrow> get_segs v (xs @ Index j # ys) = Some w \<Longrightarrow>
   get_segs (set_segs v (xs @ Index i # zs) x) (xs @ Index j # ys) = Some w"
proof (induction xs arbitrary: v)
  case Nil
  then obtain u where "step_into v (Index j) = Some u" "get_segs u ys = Some w"
    by (auto simp del: step_into.simps split: option.splits)
  with Nil show ?case
    by (simp add: set_segs_Cons step_put_index del: put_child.simps step_into.simps)
next
  case (Cons seg xs)
  then have "get_segs (child v seg) (xs @ Index j # ys) = Some w"
    by (subst get_segs_child) simp_all
  with Cons.IH [OF Cons.prems(1)] show ?case by (simp add: set_segs_Cons)
qed

text \<open>
  C29. A value written at a path is what the path then reads, whatever was there before: missing
  objects and arrays are created, values of another kind on the way are replaced. The one
  exception is a path that is not empty but has no segment, such as a single dot.
\<close>

theorem set_path_then_get_path:
  assumes "set_path v s x = Some v'" and "s = [] \<or> path_collect s \<noteq> Some []"
  shows "get_path v' s = Some (Some x)"
proof (cases "s = []")
  case True
  with assms(1) show ?thesis by (simp add: set_path_def get_path_def)
next
  case False
  with assms obtain segs where c: "path_collect s = Some segs" "segs \<noteq> []" "v' = set_segs v segs x"
    by (auto simp: set_path_def)
  then show ?thesis by (simp add: get_path_segs get_set_same)
qed

lemma set_path_then_get_path_witness:
  "\<exists>v'. set_path VNull ''a..b[x][7]'' (VBool True) = Some v' \<and>
        get_path v' ''a..b[x][7]'' = Some (Some (VBool True))"
proof -
  have "set_path VNull ''a..b[x][7]'' (VBool True)
      = Some (set_segs VNull [Key ''a'', Key ''b'', Index 7] (VBool True))"
    by (rule set_path_segs [OF path_example]) simp
  moreover from set_path_then_get_path [OF this] path_example
  have "get_path (set_segs VNull [Key ''a'', Key ''b'', Index 7] (VBool True)) ''a..b[x][7]''
      = Some (Some (VBool True))"
    by simp
  ultimately show ?thesis by blast
qed

text \<open>
  Writing at a path leaves every path that parts from it at another key exactly as it was,
  defined or not, also when the write creates or replaces the containers they share.
\<close>

theorem set_path_keeps_other_keys:
  assumes "set_path v s x = Some v'"
    and "path_collect s = Some (xs @ Key z # zs)" and "path_collect t = Some (xs @ Key y # ys)"
    and "y \<noteq> z"
  shows "get_path v' t = get_path v t"
proof -
  from assms(2) have "s \<noteq> []" by auto
  with assms(1,2) have "v' = set_segs v (xs @ Key z # zs) x" by (simp add: set_path_def)
  with assms(3,4) show ?thesis by (simp add: get_path_segs get_set_other_key)
qed

lemma set_path_keeps_other_keys_witness:
  "\<exists>v'. set_path (VBool True) ''a'' VNull = Some v' \<and> get_path v' ''b'' = get_path (VBool True) ''b''"
proof -
  have "path_collect ''a'' = Some ([] @ Key ''a'' # [])" and "path_collect ''b'' = Some ([] @ Key ''b'' # [])"
    using path_collect_render [of "[Key ''a'']"] path_collect_render [of "[Key ''b'']"]
    by (simp_all add: render_path_def seg_ok_def)
  moreover from this(1) obtain v' where "set_path (VBool True) ''a'' VNull = Some v'"
    by (simp add: set_path_def)
  ultimately show ?thesis using set_path_keeps_other_keys [of _ "''a''"] by fastforce
qed

text \<open>
  A value that a path reads is still there after a write at another element of the same
  array, also when the write makes the array longer.
\<close>

theorem set_path_keeps_other_elements:
  assumes "set_path v s x = Some v'"
    and "path_collect s = Some (xs @ Index i # zs)" and "path_collect t = Some (xs @ Index j # ys)"
    and "i \<noteq> j" and "get_path v t = Some (Some w)"
  shows "get_path v' t = Some (Some w)"
proof -
  from assms(2) have "s \<noteq> []" by auto
  with assms(1,2) have "v' = set_segs v (xs @ Index i # zs) x" by (simp add: set_path_def)
  with assms(3-5) show ?thesis by (simp add: get_path_segs get_set_other_index)
qed

lemma set_path_keeps_other_elements_witness:
  "\<exists>v'. set_path (VArray [VBool True]) ''[5]'' VNull = Some v' \<and> get_path v' ''[0]'' = Some (Some (VBool True))"
proof -
  have p: "path_collect ''[5]'' = Some ([] @ Index 5 # [])" and q: "path_collect ''[0]'' = Some ([] @ Index 0 # [])"
    using path_collect_render [of "[Index 5]"] path_collect_render [of "[Index 0]"]
    by (simp_all add: render_path_def seg_ok_def show_nat.simps)
  from p obtain v' where v': "set_path (VArray [VBool True]) ''[5]'' VNull = Some v'"
    by (simp add: set_path_def)
  have "get_path (VArray [VBool True]) ''[0]'' = Some (Some (VBool True))"
    using get_path_segs [OF q] by simp
  from set_path_keeps_other_elements [OF v' p q _ this] v' show ?thesis by simp
qed

text \<open>
  A path that is not empty but has no segment (a single dot, a bracket without a number) is
  accepted by a write, which reports success and changes nothing.
\<close>

theorem set_path_no_segments:
  assumes "s \<noteq> []" and "path_collect s = Some []"
  shows "set_path v s x = Some v"
  using assms by (simp add: set_path_def)

lemma set_path_no_segments_witness: "set_path v ''.'' x = Some v \<and> set_path VNull ''[x]'' (VBool True) = Some VNull"
proof -
  have "path_collect ''.'' = Some []" "path_collect ''[x]'' = Some []"
    by (simp_all add: path_collect.simps path_next.simps path_index_def find_char_def key_end_def
        parse_unsigned_def digits_val_def is_digit_def byte_def strip_prefix_char_def)
  then show ?thesis using set_path_no_segments [of "''.''"] set_path_no_segments [of "''[x]''"] by simp
qed

end
