(* ===== verification/Document.thy ===== *)
theory Document imports Crdt begin

section \<open>Documents (ussl-core: document.rs)\<close>

text \<open>
  Identifiers, metadata with expiry, and the document with its operations. A document keeps its
  data twice: \<open>lww_data\<close> is a value, \<open>ydoc\<close> the state of a Y.js document of the library yrs, used
  only by the text strategy and for snapshots. The library is the parameter \<open>yrs\<close>, a record of
  the operations the code calls on the text named content. The clock, in milliseconds, is the
  parameter \<open>now\<close> of the operations that read it.

  An operation returns its result with the document after it; \<open>None\<close> means that it does not
  return, which the path parser can cause.
\<close>

definition MAX_DOCUMENT_SIZE :: nat where
  "MAX_DOCUMENT_SIZE = 16 * 1024 * 1024"

definition MAX_NESTING_DEPTH :: nat where
  "MAX_NESTING_DEPTH = 32"

definition COMPACTION_THRESHOLD :: u64 where
  "COMPACTION_THRESHOLD = 1000"

definition COMPACTION_SIZE_THRESHOLD :: nat where
  "COMPACTION_SIZE_THRESHOLD = 1024 * 1024"

subsection \<open>Identifiers\<close>

datatype document_id = DocumentId (id_str: string)

definition id_char :: "char \<Rightarrow> bool" where
  "id_char c \<longleftrightarrow>
     (48 \<le> byte c \<and> byte c \<le> 57) \<or> (65 \<le> byte c \<and> byte c \<le> 90) \<or> (97 \<le> byte c \<and> byte c \<le> 122)
     \<or> c = CHR '':'' \<or> c = CHR ''_'' \<or> c = CHR ''-''"

definition document_id_new :: "string \<Rightarrow> error + document_id" where
  "document_id_new s =
     (if s = [] then Inl (InvalidDocumentId ''Document ID cannot be empty'')
      else if length s > 512 then Inl (InvalidDocumentId ''Document ID exceeds 512 bytes'')
      else if \<not> list_all id_char s
        then Inl (InvalidDocumentId ''Document ID must match pattern [a-zA-Z0-9:_-]+'')
      else Inr (DocumentId s))"

subsection \<open>Metadata\<close>

record document_meta =
  meta_id :: document_id
  meta_strategy :: strategy
  created_at :: u64
  updated_at :: u64
  version :: u64
  ttl :: "u64 option"

definition meta_new :: "u64 \<Rightarrow> document_id \<Rightarrow> strategy \<Rightarrow> document_meta" where
  "meta_new now i st = \<lparr>meta_id = i, meta_strategy = st, created_at = now, updated_at = now,
     version = 1, ttl = None\<rparr>"

definition meta_with_ttl :: "u64 \<Rightarrow> document_id \<Rightarrow> strategy \<Rightarrow> u64 \<Rightarrow> document_meta" where
  "meta_with_ttl now i st ttl_ms = \<lparr>meta_id = i, meta_strategy = st, created_at = now,
     updated_at = now, version = 1, ttl = Some ttl_ms\<rparr>"

definition is_expired :: "u64 \<Rightarrow> document_meta \<Rightarrow> bool" where
  "is_expired now m = (case ttl m of Some ttl_ms \<Rightarrow> now > created_at m + ttl_ms | None \<Rightarrow> False)"

definition ttl_remaining :: "u64 \<Rightarrow> document_meta \<Rightarrow> i64 option" where
  "ttl_remaining now m =
     map_option (\<lambda>ttl_ms. let expires_at = created_at m + ttl_ms in expires_at - now) (ttl m)"

subsection \<open>The library yrs\<close>

text \<open>
  \<open>y_text\<close> is \<^verbatim>\<open>get_string\<close> of the text content, \<open>y_remove\<close> and \<open>y_insert\<close> are \<^verbatim>\<open>remove_range\<close> and
  \<^verbatim>\<open>insert\<close> on it, \<open>y_encode\<close> is \<^verbatim>\<open>encode_state_as_update_v1\<close> from the empty state vector, and
  \<open>y_apply\<close> decodes an update and applies it (\<open>Inl\<close> is the decoder's error message).
\<close>

record 'y yrs =
  y_new :: 'y
  y_text :: "'y \<Rightarrow> string"
  y_remove :: "'y \<Rightarrow> u32 \<Rightarrow> u32 \<Rightarrow> 'y"
  y_insert :: "'y \<Rightarrow> u32 \<Rightarrow> string \<Rightarrow> 'y"
  y_encode :: "'y \<Rightarrow> bytes"
  y_apply :: "'y \<Rightarrow> bytes \<Rightarrow> string + 'y"

subsection \<open>Documents\<close>

record 'y document =
  meta :: document_meta
  ydoc :: 'y
  lww_data :: val
  update_count :: u64
  compaction_count :: u64

definition document_new :: "'y yrs \<Rightarrow> u64 \<Rightarrow> document_id \<Rightarrow> strategy \<Rightarrow> 'y document" where
  "document_new y now i st = \<lparr>meta = meta_new now i st, ydoc = y_new y, lww_data = VObject fmempty,
     update_count = 0, compaction_count = 0\<rparr>"

definition document_with_ttl :: "'y yrs \<Rightarrow> u64 \<Rightarrow> document_id \<Rightarrow> strategy \<Rightarrow> u64 \<Rightarrow> 'y document" where
  "document_with_ttl y now i st ttl_ms = \<lparr>meta = meta_with_ttl now i st ttl_ms, ydoc = y_new y,
     lww_data = VObject fmempty, update_count = 0, compaction_count = 0\<rparr>"

abbreviation doc_strategy :: "'y document \<Rightarrow> strategy" where
  "doc_strategy d \<equiv> meta_strategy (meta d)"

abbreviation doc_version :: "'y document \<Rightarrow> u64" where
  "doc_version d \<equiv> version (meta d)"

text \<open>What callers see of a document.\<close>

definition document_ident :: "'y document \<Rightarrow> document_id" where
  "document_ident d = meta_id (meta d)"

definition document_is_expired :: "u64 \<Rightarrow> 'y document \<Rightarrow> bool" where
  "document_is_expired now d = is_expired now (meta d)"

definition document_ttl_remaining :: "u64 \<Rightarrow> 'y document \<Rightarrow> i64 option" where
  "document_ttl_remaining now d = ttl_remaining now (meta d)"

definition set_ttl :: "u64 option \<Rightarrow> 'y document \<Rightarrow> 'y document" where
  "set_ttl ttl_ms d = d\<lparr>meta := (meta d)\<lparr>ttl := ttl_ms\<rparr>\<rparr>"

definition update_version :: "u64 \<Rightarrow> 'y document \<Rightarrow> 'y document" where
  "update_version now d = d\<lparr>meta := (meta d)\<lparr>version := version (meta d) + 1, updated_at := now\<rparr>\<rparr>"

definition increment_update_count :: "'y document \<Rightarrow> 'y document" where
  "increment_update_count d = d\<lparr>update_count := update_count d + 1\<rparr>"

definition doc_get :: "'y yrs \<Rightarrow> 'y document \<Rightarrow> string option \<Rightarrow> (error + val) option" where
  "doc_get y d path =
     (case doc_strategy d of
        CrdtText \<Rightarrow> Some (Inr (VString (y_text y (ydoc d))))
      | CrdtCounter \<Rightarrow> Some (Inr (lww_data d))
      | CrdtSet \<Rightarrow> Some (Inr (lww_data d))
      | _ \<Rightarrow>
          (case path of
             Some p \<Rightarrow> Option.bind (get_path (lww_data d) p) (\<lambda>r. Some (case r of
                 Some v \<Rightarrow> Inr v
               | None \<Rightarrow> Inl (InvalidPath p)))
           | None \<Rightarrow> Some (Inr (lww_data d))))"

definition doc_set ::
  "'y yrs \<Rightarrow> u64 \<Rightarrow> 'y document \<Rightarrow> string \<Rightarrow> val \<Rightarrow> ((error + unit) \<times> 'y document) option" where
  "doc_set y now d path x =
     (case doc_strategy d of
        CrdtText \<Rightarrow>
          (case x of
             VString text_value \<Rightarrow>
               let current_len = word_of_nat (length (y_text y (ydoc d)));
                   yd = y_insert y (y_remove y (ydoc d) 0 current_len) 0 text_value
               in Some (Inr (), update_version now (increment_update_count (d\<lparr>ydoc := yd\<rparr>)))
           | _ \<Rightarrow> Some (Inl (CrdtError ''CrdtText strategy requires string values''), d))
      | _ \<Rightarrow> Option.bind (set_path (lww_data d) path x)
          (\<lambda>v. Some (Inr (), update_version now (d\<lparr>lww_data := v\<rparr>))))"

definition doc_delete ::
  "u64 \<Rightarrow> 'y document \<Rightarrow> string option \<Rightarrow> ((error + unit) \<times> 'y document) option" where
  "doc_delete now d path =
     (case path of
        Some p \<Rightarrow> Option.bind (set_path (lww_data d) p VNull)
          (\<lambda>v. Some (Inr (), update_version now (d\<lparr>lww_data := v\<rparr>)))
      | None \<Rightarrow> Some (Inr (), update_version now (d\<lparr>lww_data := VObject fmempty\<rparr>)))"

text \<open>
  \<open>push_existing\<close> is the second half of \<^verbatim>\<open>push\<close>: it reads the path again and, if it finds an
  array, writes the longer one back.
\<close>

definition push_existing :: "val \<Rightarrow> string \<Rightarrow> val \<Rightarrow> val option" where
  "push_existing data path x =
     Option.bind (get_path data path) (\<lambda>r. case r of
         Some (VArray arr) \<Rightarrow> set_path data path (VArray (arr @ [x]))
       | _ \<Rightarrow> Some data)"

definition doc_push ::
  "u64 \<Rightarrow> 'y document \<Rightarrow> string \<Rightarrow> val \<Rightarrow> ((error + unit) \<times> 'y document) option" where
  "doc_push now d path x =
     Option.bind (get_path (lww_data d) path) (\<lambda>r. case r of
         Some v \<Rightarrow>
           (case v of
              VArray arr \<Rightarrow> Option.bind (push_existing (lww_data d) path x)
                (\<lambda>data. Some (Inr (), update_version now (d\<lparr>lww_data := data\<rparr>)))
            | _ \<Rightarrow> Some (Inl (InvalidPath (path @ '' is not an array'')), d))
       | None \<Rightarrow>
           Option.bind (set_path (lww_data d) path (VArray [])) (\<lambda>created.
           Option.bind (push_existing created path x) (\<lambda>data.
             Some (Inr (), update_version now (d\<lparr>lww_data := data\<rparr>)))))"

definition doc_increment ::
  "u64 \<Rightarrow> 'y document \<Rightarrow> string \<Rightarrow> i64 \<Rightarrow> ((error + i64) \<times> 'y document) option" where
  "doc_increment now d path delta =
     Option.bind (get_path (lww_data d) path) (\<lambda>r.
       let current = (case Option.bind r as_i64 of Some n \<Rightarrow> n | None \<Rightarrow> 0);
           new_value = current + delta
       in Option.bind (set_path (lww_data d) path (VNumber (NInteger new_value)))
            (\<lambda>v. Some (Inr new_value, update_version now (d\<lparr>lww_data := v\<rparr>))))"

definition encode_state :: "'y yrs \<Rightarrow> 'y document \<Rightarrow> bytes" where
  "encode_state y d = y_encode y (ydoc d)"

definition apply_update :: "'y yrs \<Rightarrow> u64 \<Rightarrow> 'y document \<Rightarrow> bytes \<Rightarrow> (error + unit) \<times> 'y document" where
  "apply_update y now d update =
     (case y_apply y (ydoc d) update of
        Inl e \<Rightarrow> (Inl (CrdtError e), d)
      | Inr yd \<Rightarrow> (Inr (), update_version now (increment_update_count (d\<lparr>ydoc := yd\<rparr>))))"

definition apply_state :: "'y yrs \<Rightarrow> u64 \<Rightarrow> 'y document \<Rightarrow> bytes \<Rightarrow> (error + unit) \<times> 'y document" where
  "apply_state y now d state =
     (if state = [] then (Inr (), d)
      else (case y_apply y (ydoc d) state of
        Inl e \<Rightarrow> (Inl (RestoreError e), d)
      | Inr yd \<Rightarrow> (Inr (), update_version now (d\<lparr>ydoc := yd\<rparr>))))"

definition state_size :: "'y yrs \<Rightarrow> 'y document \<Rightarrow> nat" where
  "state_size y d = length (encode_state y d)"

definition should_compact :: "'y yrs \<Rightarrow> 'y document \<Rightarrow> bool" where
  "should_compact y d =
     (if update_count d \<ge> COMPACTION_THRESHOLD then True
      else if update_count d > 100 then state_size y d \<ge> COMPACTION_SIZE_THRESHOLD
      else False)"

definition compacted :: "'y yrs \<Rightarrow> 'y document \<Rightarrow> error + 'y" where
  "compacted y d =
     (if doc_strategy d = CrdtText then Inr (y_insert y (y_new y) 0 (y_text y (ydoc d)))
      else (case y_apply y (y_new y) (encode_state y d) of
        Inl e \<Rightarrow> Inl (CrdtError e)
      | Inr yd \<Rightarrow> Inr yd))"

definition compact :: "'y yrs \<Rightarrow> 'y document \<Rightarrow> (error + nat) \<times> 'y document" where
  "compact y d =
     (let old_size = length (encode_state y d) in
      case compacted y d of
        Inl e \<Rightarrow> (Inl e, d)
      | Inr new_doc \<Rightarrow>
          let d' = d\<lparr>ydoc := new_doc, update_count := 0, compaction_count := compaction_count d + 1\<rparr>;
              new_size = length (encode_state y d')
          in (Inr (if old_size > new_size then old_size - new_size else 0), d'))"

end
