(* ===== verification/DocumentLaws.thy ===== *)
theory DocumentLaws imports CrdtLaws Document begin

section \<open>What the document operations guarantee\<close>

text \<open>
  Identifiers, expiry, and the behaviour of every operation: what it returns, what the next read
  returns, and that the version counter tells a reader about every change of content. What is
  assumed of yrs is stated by two predicates, \<open>yrs_text_laws\<close> and \<open>yrs_state_laws\<close>; a small
  implementation, \<open>string_yrs\<close>, shows that they can hold.
\<close>

subsection \<open>Identifiers\<close>

text \<open>
  An identifier is accepted exactly if it has 1 to 512 bytes, all of them ASCII letters,
  digits, colons, underscores or hyphens; it is kept as it is, and every other text is refused
  with an error that says it is an invalid identifier.
\<close>

theorem document_id_new_iff:
  "(document_id_new s = Inr i \<longleftrightarrow> i = DocumentId s \<and> 0 < length s \<and> length s \<le> 512 \<and> list_all id_char s)
   \<and> ((\<exists>e. document_id_new s = Inl (InvalidDocumentId e)) \<longleftrightarrow>
      \<not> (0 < length s \<and> length s \<le> 512 \<and> list_all id_char s))"
  by (auto simp: document_id_new_def)

lemma document_id_new_Inr [simp]: "document_id_new s = Inr i \<Longrightarrow> id_str i = s"
  by (auto simp: document_id_new_def split: if_splits)

lemma id_char_not_star: "id_char c \<Longrightarrow> c \<noteq> CHR ''*''"
  by (auto simp: id_char_def byte_def)

lemma document_id_no_star: "document_id_new s = Inr i \<Longrightarrow> CHR ''*'' \<notin> set s"
  using id_char_not_star by (force simp: document_id_new_def list_all_iff split: if_splits)

subsection \<open>Expiry\<close>

lemma unat_expires:
  "unat c + unat t < 2 ^ 64 \<Longrightarrow> unat ((c::u64) + t) = unat c + unat t"
  by (simp add: unat_word_ariths)

lemma is_expired_iff:
  assumes "ttl m = Some t" and "unat (created_at m) + unat t < 2 ^ 64"
  shows "is_expired now m \<longleftrightarrow> unat (created_at m) + unat t < unat now"
  using assms by (simp add: is_expired_def word_less_nat_alt unat_expires)

lemma sint_small:
  assumes "unat (a::i64) < 2 ^ 63"
  shows "sint a = int (unat a)"
proof -
  have "sint a = signed_take_bit 63 (uint a)" by (simp add: sint_uint)
  also have "uint a = int (unat a)" by (rule uint_nat)
  also have "signed_take_bit 63 (int (unat a)) = int (unat a)"
    using assms by (intro signed_take_bit_int_eq_self) (simp_all del: of_nat_unat)
  finally show ?thesis .
qed

lemma sint_diff_small:
  assumes "unat (a::i64) < 2 ^ 63" and "unat b < 2 ^ 63"
  shows "sint (a - b) = int (unat a) - int (unat b)"
proof -
  have "sint (a - b) = signed_take_bit 63 (int (unat a) - int (unat b))"
    using sint_word_diff [of a b] assms by (simp add: sint_small)
  also have "\<dots> = int (unat a) - int (unat b)"
  proof (rule signed_take_bit_int_eq_self)
    show "- (2 ^ 63) \<le> int (unat a) - int (unat b)" "int (unat a) - int (unat b) < 2 ^ 63"
      using assms by (simp_all del: of_nat_unat)
  qed
  finally show ?thesis .
qed

text \<open>
  As long as the clock and the moment of expiry stay below 2 to the 63, the remaining time is
  the moment of expiry minus the clock, and a document is expired exactly if its remaining time is
  negative: the answer -2 of the TTL command agrees with what the garbage collector removes.
\<close>

theorem ttl_remaining_agrees_with_expiry:
  assumes "ttl m = Some t" and "unat (created_at m) + unat t < 2 ^ 63" and "unat now < 2 ^ 63"
  shows "\<exists>r. ttl_remaining now m = Some r \<and>
    sint r = int (unat (created_at m)) + int (unat t) - int (unat now) \<and>
    (is_expired now m \<longleftrightarrow> sint r < 0)"
proof -
  from assms(2) have "unat (created_at m) + unat t < 2 ^ 64" by simp
  note u = unat_expires [OF this]
  have "sint (created_at m + t - now) = int (unat (created_at m + t)) - int (unat now)"
    using assms(2,3) u by (intro sint_diff_small) simp_all
  with u assms(1) is_expired_iff [OF assms(1) \<open>_ < 2 ^ 64\<close>, of now] show ?thesis
    by (auto simp: ttl_remaining_def Let_def simp del: of_nat_unat)
qed

lemma ttl_remaining_agrees_with_expiry_witness:
  "\<exists>r. ttl_remaining 1200 (meta_with_ttl 1000 (DocumentId ''d'') Lww 100) = Some r \<and> sint r = -100 \<and>
     is_expired 1200 (meta_with_ttl 1000 (DocumentId ''d'') Lww 100)"
  using ttl_remaining_agrees_with_expiry [of "meta_with_ttl 1000 (DocumentId ''d'') Lww 100" 100 1200]
  by (auto simp: meta_with_ttl_def)

text \<open>
  A time to live so long that the moment of expiry does not fit 64 bits wraps around: the
  document counts as expired as soon as the clock reads its moment of creation, so the garbage
  collector removes at once what was meant to live longest.
\<close>

theorem huge_ttl_expires_at_once:
  assumes "ttl m = Some t" and "2 ^ 64 \<le> unat (created_at m) + unat t" and "created_at m \<le> now"
  shows "is_expired now m"
proof -
  have "unat t < 2 ^ 64" "unat (created_at m) < 2 ^ 64" using unsigned_less [of t] unsigned_less [of "created_at m"] by simp_all
  moreover have "unat (created_at m + t) = (unat (created_at m) + unat t) mod 2 ^ 64"
    by (simp add: unat_word_ariths)
  ultimately have "unat (created_at m + t) = unat (created_at m) + unat t - 2 ^ 64"
    using assms(2) by (simp add: mod_if le_mod_geq)
  with \<open>unat t < 2 ^ 64\<close> assms(2,3) have "unat (created_at m + t) < unat now"
    by (simp add: word_le_nat_alt)
  then show ?thesis using assms(1) by (simp add: is_expired_def word_less_nat_alt)
qed

lemma huge_ttl_expires_at_once_witness:
  "is_expired 1700000000000 (meta_with_ttl 1700000000000 (DocumentId ''d'') Lww 18446744073709551615)"
  by (rule huge_ttl_expires_at_once [of _ 18446744073709551615]) (simp_all add: meta_with_ttl_def)

text \<open>
  The time to live always counts from the creation of the document: giving a time to live to
  a document that is already older than it makes the document expired at once.
\<close>

theorem set_ttl_counts_from_creation:
  assumes "unat (created_at (meta d)) + unat t < 2 ^ 64"
  shows "is_expired now (meta (set_ttl (Some t) d)) \<longleftrightarrow> unat t < unat now - unat (created_at (meta d))"
  using is_expired_iff [of "meta (set_ttl (Some t) d)" t now] assms
  by (auto simp: set_ttl_def)

lemma set_ttl_counts_from_creation_witness:
  "is_expired 20000 (meta (set_ttl (Some 5000) (document_new y 10000 (DocumentId ''d'') Lww)))"
  by (subst set_ttl_counts_from_creation) (simp_all add: document_new_def meta_new_def)

subsection \<open>What is assumed of yrs\<close>

text \<open>
  The text of a new document is empty; removing as many bytes as the text has, from position 0,
  leaves the empty text; inserting into the empty text gives the inserted text.
\<close>

definition yrs_text_laws :: "'y yrs \<Rightarrow> bool" where
  "yrs_text_laws y \<longleftrightarrow>
     y_text y (y_new y) = [] \<and>
     (\<forall>yd n. unat n = length (y_text y yd) \<longrightarrow> y_text y (y_remove y yd 0 n) = []) \<and>
     (\<forall>yd s. y_text y yd = [] \<longrightarrow> y_text y (y_insert y yd 0 s) = s)"

text \<open>
  The encoded state of a document is not empty (it starts with the number of its blocks), and
  applied to a new document it decodes and gives the same text.
\<close>

definition yrs_state_laws :: "'y yrs \<Rightarrow> bool" where
  "yrs_state_laws y \<longleftrightarrow>
     (\<forall>yd. y_encode y yd \<noteq> [] \<and>
       (\<exists>yd'. y_apply y (y_new y) (y_encode y yd) = Inr yd' \<and> y_text y yd' = y_text y yd))"

definition string_yrs :: "string yrs" where
  "string_yrs = \<lparr>y_new = [], y_text = (\<lambda>s. s),
     y_remove = (\<lambda>s a n. take (unat a) s @ drop (unat a + unat n) s),
     y_insert = (\<lambda>s a t. take (unat a) s @ t @ drop (unat a) s),
     y_encode = (\<lambda>s. CHR 0x00 # s),
     y_apply = (\<lambda>s u. if u = [] then Inl ''unexpected end'' else Inr (if s = [] then tl u else s))\<rparr>"

lemma string_yrs_text [simp]: "yrs_text_laws string_yrs"
  by (simp add: yrs_text_laws_def string_yrs_def)

lemma string_yrs_state [simp]: "yrs_state_laws string_yrs"
  by (simp add: yrs_state_laws_def string_yrs_def)

subsection \<open>Steps of a document\<close>

inductive doc_step :: "'y yrs \<Rightarrow> u64 \<Rightarrow> 'y document \<Rightarrow> 'y document \<Rightarrow> bool" for y now where
  set: "doc_set y now d p x = Some (r, d') \<Longrightarrow> doc_step y now d d'"
| delete: "doc_delete now d p' = Some (r, d') \<Longrightarrow> doc_step y now d d'"
| push: "doc_push now d p x = Some (r, d') \<Longrightarrow> doc_step y now d d'"
| increment: "doc_increment now d p n = Some (r', d') \<Longrightarrow> doc_step y now d d'"
| update: "apply_update y now d u = (r, d') \<Longrightarrow> doc_step y now d d'"
| state: "apply_state y now d u = (r, d') \<Longrightarrow> doc_step y now d d'"
| expire: "doc_step y now d (set_ttl t d)"
| compact: "compact y d = (r'', d') \<Longrightarrow> doc_step y now d d'"

definition doc_moves :: "'y yrs \<Rightarrow> 'y document \<Rightarrow> 'y document \<Rightarrow> bool" where
  "doc_moves y d d' \<longleftrightarrow> (\<exists>now. doc_step y now d d')"

lemmas doc_op_defs = doc_set_def doc_delete_def doc_push_def doc_increment_def apply_update_def
  apply_state_def set_ttl_def compact_def

lemma update_version_sel [simp]:
  "lww_data (update_version now d) = lww_data d" "ydoc (update_version now d) = ydoc d"
  "update_count (update_version now d) = update_count d"
  "meta_id (meta (update_version now d)) = meta_id (meta d)"
  "meta_strategy (meta (update_version now d)) = meta_strategy (meta d)"
  "created_at (meta (update_version now d)) = created_at (meta d)"
  "ttl (meta (update_version now d)) = ttl (meta d)"
  "version (meta (update_version now d)) = version (meta d) + 1"
  "updated_at (meta (update_version now d)) = now"
  by (simp_all add: update_version_def)

lemma increment_update_count_sel [simp]:
  "lww_data (increment_update_count d) = lww_data d" "ydoc (increment_update_count d) = ydoc d"
  "meta (increment_update_count d) = meta d"
  "update_count (increment_update_count d) = update_count d + 1"
  by (simp_all add: increment_update_count_def)

text \<open>The shape of every step: a refusal changes nothing, a success moves the version by one.\<close>

definition bumped :: "u64 \<Rightarrow> 'y document \<Rightarrow> 'y document \<Rightarrow> bool" where
  "bumped now d d' \<longleftrightarrow> version (meta d') = version (meta d) + 1 \<and> updated_at (meta d') = now \<and>
     meta_id (meta d') = meta_id (meta d) \<and> meta_strategy (meta d') = meta_strategy (meta d) \<and>
     created_at (meta d') = created_at (meta d) \<and> ttl (meta d') = ttl (meta d)"

lemma bumped_update_version [simp]: "meta d' = meta d \<Longrightarrow> bumped now d (update_version now d')"
  by (simp add: bumped_def update_version_def)

lemma doc_set_cases:
  assumes "doc_set y now d p x = Some (r, d')"
  shows "(\<exists>e. r = Inl e \<and> d' = d \<and> doc_strategy d = CrdtText) \<or> r = Inr () \<and> bumped now d d'"
proof (cases "doc_strategy d = CrdtText")
  case True
  with assms show ?thesis by (cases x) (auto simp: doc_set_def Let_def)
next
  case False
  with assms show ?thesis by (auto simp: doc_set_def split: strategy.splits)
qed

lemma doc_delete_cases:
  "doc_delete now d p = Some (r, d') \<Longrightarrow> r = Inr () \<and> bumped now d d' \<and> ydoc d' = ydoc d \<and> update_count d' = update_count d"
  by (cases p) (auto simp: doc_delete_def)

lemma doc_push_cases:
  assumes "doc_push now d p x = Some (r, d')"
  shows "(\<exists>e. r = Inl e \<and> d' = d) \<or> r = Inr () \<and> bumped now d d' \<and> ydoc d' = ydoc d \<and> update_count d' = update_count d"
proof -
  obtain v where v: "get_path (lww_data d) p = Some v" using assms by (auto simp: doc_push_def)
  show ?thesis
  proof (cases v)
    case None
    with v assms show ?thesis by (auto simp: doc_push_def)
  next
    case (Some w)
    with v assms show ?thesis by (cases w) (auto simp: doc_push_def)
  qed
qed

lemma doc_increment_cases:
  "doc_increment now d p n = Some (r, d') \<Longrightarrow>
   (\<exists>v. r = Inr v) \<and> bumped now d d' \<and> ydoc d' = ydoc d \<and> update_count d' = update_count d"
  by (auto simp: doc_increment_def Let_def)

lemma apply_update_cases:
  "apply_update y now d u = (r, d') \<Longrightarrow> (\<exists>e. r = Inl e \<and> d' = d) \<or> r = Inr () \<and> bumped now d d'"
  by (auto simp: apply_update_def split: sum.splits)

lemma apply_state_cases:
  "apply_state y now d u = (r, d') \<Longrightarrow> d' = d \<or> r = Inr () \<and> bumped now d d' \<and> lww_data d' = lww_data d"
  by (auto simp: apply_state_def split: sum.splits if_splits)

lemma compact_cases:
  "compact y d = (r, d') \<Longrightarrow> (\<exists>e. r = Inl e \<and> d' = d \<and> doc_strategy d \<noteq> CrdtText) \<or>
     (\<exists>n yd. r = Inr n \<and> compacted y d = Inr yd \<and> d' = d\<lparr>ydoc := yd, update_count := 0,
        compaction_count := compaction_count d + 1\<rparr>)"
  by (auto simp: compact_def compacted_def Let_def split: sum.splits if_splits)

lemma doc_step_cases:
  assumes "doc_step y now d d'"
  shows "d' = d \<or> bumped now d d' \<or> (\<exists>t. d' = set_ttl t d) \<or>
    (\<exists>yd. compacted y d = Inr yd \<and> d' = d\<lparr>ydoc := yd, update_count := 0,
        compaction_count := compaction_count d + 1\<rparr>)"
  using assms
proof cases
  case set
  then show ?thesis by (auto dest: doc_set_cases)
qed (auto dest: doc_delete_cases doc_push_cases doc_increment_cases apply_update_cases
      apply_state_cases compact_cases)

definition doc_identity :: "'y document \<Rightarrow> document_id \<times> strategy \<times> u64" where
  "doc_identity d = (meta_id (meta d), meta_strategy (meta d), created_at (meta d))"

lemma doc_step_identity: "doc_step y now d d' \<Longrightarrow> doc_identity d' = doc_identity d"
  by (auto dest!: doc_step_cases simp: bumped_def set_ttl_def doc_identity_def)

interpretation doc: frozen_quantity "doc_moves y" doc_identity for y
  by unfold_locales (auto simp: doc_moves_def dest: doc_step_identity)

text \<open>
  Over any sequence of operations a document keeps its identifier, its strategy and its
  moment of creation.
\<close>

theorem doc_run_identity:
  assumes "(doc_moves y)\<^sup>*\<^sup>* d d'"
  shows "meta_id (meta d') = meta_id (meta d) \<and> meta_strategy (meta d') = meta_strategy (meta d) \<and>
    created_at (meta d') = created_at (meta d)"
  using doc.run_same [OF assms] by (simp add: doc_identity_def)

lemma doc_run_identity_witness:
  "\<exists>d'. (doc_moves string_yrs)\<^sup>*\<^sup>* (document_new string_yrs 5 (DocumentId ''d'') Lww) d' \<and>
     ttl (meta d') = Some 7 \<and> created_at (meta d') = 5"
proof -
  let ?d = "document_new string_yrs 5 (DocumentId ''d'') Lww"
  have "doc_moves string_yrs ?d (set_ttl (Some 7) ?d)"
    unfolding doc_moves_def using doc_step.expire by blast
  then have run: "(doc_moves string_yrs)\<^sup>*\<^sup>* ?d (set_ttl (Some 7) ?d)" by blast
  moreover have "ttl (meta (set_ttl (Some 7) ?d)) = Some 7" by (simp add: set_ttl_def)
  moreover have "created_at (meta (set_ttl (Some 7) ?d)) = 5"
    using doc_run_identity [OF run] by (simp add: document_new_def meta_new_def)
  ultimately show ?thesis by blast
qed

lemma version_moves [simp]: "(n::u64) \<noteq> n + 1" "n + 1 \<noteq> (n::u64)"
  by simp_all

text \<open>
  C27. The version tells about every change of content: when an operation leaves the version
  number as it was, every read of the document returns what it returned before. In particular
  compaction, which throws away the history of edits, keeps the text.
\<close>

theorem version_tracks_content:
  assumes "yrs_text_laws y" and "doc_step y now d d'" and "doc_version d' = doc_version d"
  shows "doc_get y d' p = doc_get y d p"
proof -
  have "y_text y yd = y_text y (ydoc d)" if "compacted y d = Inr yd" "doc_strategy d = CrdtText" for yd
    using that assms(1) by (auto simp: compacted_def yrs_text_laws_def)
  with doc_step_cases [OF assms(2)] assms(3) show ?thesis
    by (auto simp: bumped_def set_ttl_def doc_get_def split: strategy.split option.split)
qed

lemma version_tracks_content_witness:
  "doc_get string_yrs (snd (compact string_yrs (document_new string_yrs 5 (DocumentId ''d'') CrdtText))) None
     = doc_get string_yrs (document_new string_yrs 5 (DocumentId ''d'') CrdtText) None"
proof (rule version_tracks_content [where now = 0])
  let ?d = "document_new string_yrs 5 (DocumentId ''d'') CrdtText"
  show "doc_step string_yrs 0 ?d (snd (compact string_yrs ?d))"
    by (rule doc_step.compact [of _ _ "fst (compact string_yrs ?d)"]) simp
  show "doc_version (snd (compact string_yrs ?d)) = doc_version ?d"
    by (simp add: compact_def compacted_def document_new_def meta_new_def Let_def)
qed simp

subsection \<open>What the operations do\<close>

lemma no_segments_iff: "(p = [] \<or> path_collect p \<noteq> Some []) \<Longrightarrow> set_path v p x = Some v' \<Longrightarrow> get_path v' p = Some (Some x)"
  by (auto simp: set_path_def get_path_def get_path_from_segs get_set_same split: if_splits)

text \<open>
  A value that was set on a last-writer-wins or map document is what the document then
  returns at the same path, unless the path has no segment.
\<close>

theorem doc_set_then_get:
  assumes "doc_strategy d = Lww \<or> doc_strategy d = CrdtMap"
    and "doc_set y now d p x = Some (r, d')" and "p = [] \<or> path_collect p \<noteq> Some []"
  shows "r = Inr () \<and> doc_get y d' (Some p) = Some (Inr x)"
proof -
  from assms(1,2) obtain v where v: "set_path (lww_data d) p x = Some v" "r = Inr ()"
      "d' = update_version now (d\<lparr>lww_data := v\<rparr>)"
    by (auto simp: doc_set_def)
  from no_segments_iff [OF assms(3) v(1)] v assms(1) show ?thesis
    by (auto simp: doc_get_def)
qed

lemma doc_set_then_get_witness:
  "\<exists>d'. doc_set string_yrs 9 (document_new string_yrs 5 (DocumentId ''d'') Lww) ''a..b[x][7]'' VNull = Some (Inr (), d') \<and>
     doc_get string_yrs d' (Some ''a..b[x][7]'') = Some (Inr VNull)"
proof -
  let ?d = "document_new string_yrs 5 (DocumentId ''d'') Lww"
  have s: "doc_strategy ?d = Lww" by (simp add: document_new_def meta_new_def)
  obtain d' where d': "doc_set string_yrs 9 ?d ''a..b[x][7]'' VNull = Some (Inr (), d')"
    using set_path_segs [OF path_example, of "lww_data ?d" VNull] s by (simp add: doc_set_def)
  from doc_set_then_get [OF disjI1 [OF s] d'] path_example d' show ?thesis by simp
qed

text \<open>
  On a text document setting a string replaces the whole text, whatever the path, and every
  read then returns it; any other value is refused and changes nothing.
\<close>

theorem doc_set_text:
  assumes "yrs_text_laws y" and "doc_strategy d = CrdtText" and "length (y_text y (ydoc d)) < 2 ^ 32"
    and "doc_set y now d p x = Some (r, d')"
  shows "case x of
      VString t \<Rightarrow> r = Inr () \<and> doc_get y d' q = Some (Inr (VString t))
    | _ \<Rightarrow> r = Inl (CrdtError ''CrdtText strategy requires string values'') \<and> d' = d"
proof -
  have "unat (word_of_nat (length (y_text y (ydoc d))) :: u32) = length (y_text y (ydoc d))"
    using assms(3) by (simp add: unat_of_nat)
  with assms(1) have "y_text y (y_insert y (y_remove y (ydoc d) 0 (word_of_nat (length (y_text y (ydoc d))))) 0 t) = t" for t
    by (simp add: yrs_text_laws_def)
  with assms(2,4) show ?thesis
    by (cases x) (auto simp: doc_set_def doc_get_def Let_def)
qed

lemma doc_set_text_witness:
  "\<exists>d'. doc_set string_yrs 9 (document_new string_yrs 5 (DocumentId ''d'') CrdtText) [] (VString ''hi'') = Some (Inr (), d') \<and>
     doc_get string_yrs d' None = Some (Inr (VString ''hi''))"
proof -
  let ?d = "document_new string_yrs 5 (DocumentId ''d'') CrdtText"
  have s: "doc_strategy ?d = CrdtText" "length (y_text string_yrs (ydoc ?d)) < 2 ^ 32"
    by (simp_all add: document_new_def meta_new_def string_yrs_def)
  obtain d' where d': "doc_set string_yrs 9 ?d [] (VString ''hi'') = Some (Inr (), d')"
    using s by (simp add: doc_set_def Let_def)
  from doc_set_text [OF string_yrs_text s d', of None] d' show ?thesis by simp
qed

text \<open>
  A push appends to the array at the path, starts an array of one element where the path reads
  nothing, and refuses, changing nothing, where it reads a value that is no array.
\<close>

theorem doc_push_appends:
  assumes "doc_push now d p x = Some (r, d')" and "p = [] \<or> path_collect p \<noteq> Some []"
  shows "(\<exists>a. get_path (lww_data d) p = Some (Some (VArray a)) \<and> r = Inr () \<and>
            get_path (lww_data d') p = Some (Some (VArray (a @ [x])))) \<or>
     (get_path (lww_data d) p = Some None \<and> r = Inr () \<and>
            get_path (lww_data d') p = Some (Some (VArray [x]))) \<or>
     (\<exists>v. get_path (lww_data d) p = Some (Some v) \<and> (\<nexists>a. v = VArray a) \<and>
            r = Inl (InvalidPath (p @ '' is not an array'')) \<and> d' = d)"
proof -
  obtain v where v: "get_path (lww_data d) p = Some v" using assms(1) by (auto simp: doc_push_def)
  have pushed: "get_path data' p = Some (Some (VArray (a @ [x])))"
    if "get_path data p = Some (Some (VArray a))" and "push_existing data p x = Some data'" for data data' a
    using that no_segments_iff [OF assms(2)] by (simp add: push_existing_def)
  show ?thesis
  proof (cases v)
    case None
    with v assms(1) obtain c data where "set_path (lww_data d) p (VArray []) = Some c"
        "push_existing c p x = Some data" "r = Inr ()" "lww_data d' = data"
      by (auto simp: doc_push_def)
    moreover from this(1) no_segments_iff [OF assms(2)] have "get_path c p = Some (Some (VArray []))" by blast
    ultimately show ?thesis using pushed [of c "[]"] v None by simp
  next
    case (Some w)
    show ?thesis
    proof (cases "\<exists>a. w = VArray a")
      case True
      then obtain a where a: "w = VArray a" by blast
      with v Some assms(1) obtain data where "push_existing (lww_data d) p x = Some data"
          "r = Inr ()" "lww_data d' = data"
        by (auto simp: doc_push_def)
      with pushed [of "lww_data d" a] v Some a show ?thesis by simp
    next
      case False
      with v Some assms(1) show ?thesis by (cases w) (auto simp: doc_push_def)
    qed
  qed
qed

lemma doc_push_appends_witness:
  "\<exists>d'. doc_push 9 (document_new string_yrs 5 (DocumentId ''d'') Lww) [] VNull = Some (Inl (InvalidPath '' is not an array''), d') \<and>
     d' = document_new string_yrs 5 (DocumentId ''d'') Lww"
proof -
  let ?d = "document_new string_yrs 5 (DocumentId ''d'') Lww"
  have d: "doc_push 9 ?d [] VNull = Some (Inl (InvalidPath '' is not an array''), ?d)"
    by (simp add: doc_push_def document_new_def get_path_def)
  show ?thesis using doc_push_appends [OF d] d by simp
qed

text \<open>
  An increment adds to the integer at the path, taking anything that is not an integer for
  zero, returns the sum and leaves it at the path. Without overflow of 64 bits the sum is the
  mathematical one.
\<close>

theorem doc_increment_adds:
  assumes "doc_increment now d p n = Some (r, d')" and "p = [] \<or> path_collect p \<noteq> Some []"
  shows "\<exists>v c. get_path (lww_data d) p = Some v \<and>
    c = (case v of Some (VNumber (NInteger m)) \<Rightarrow> m | _ \<Rightarrow> 0) \<and> r = Inr (c + n) \<and>
    get_path (lww_data d') p = Some (Some (VNumber (NInteger (c + n)))) \<and>
    (- (2 ^ 63) \<le> sint c + sint n \<and> sint c + sint n < 2 ^ 63 \<longrightarrow> sint (c + n) = sint c + sint n)"
proof -
  from assms(1) obtain v u where v: "get_path (lww_data d) p = Some v"
    and u: "set_path (lww_data d) p (VNumber (NInteger ((case Option.bind v as_i64 of Some n \<Rightarrow> n | None \<Rightarrow> 0) + n))) = Some u"
    and r: "r = Inr ((case Option.bind v as_i64 of Some n \<Rightarrow> n | None \<Rightarrow> 0) + n)" "lww_data d' = u"
    by (auto simp: doc_increment_def Let_def)
  have "(case Option.bind v as_i64 of Some n \<Rightarrow> n | None \<Rightarrow> 0) =
      (case v of Some (VNumber (NInteger m)) \<Rightarrow> m | _ \<Rightarrow> 0)"
    by (auto split: option.split val.split number.split)
  moreover have "sint (c + n) = sint c + sint n" if "- (2 ^ 63) \<le> sint c + sint n" "sint c + sint n < 2 ^ 63" for c
    using that sint_word_add [of c n] signed_take_bit_int_eq_self [of 63 "sint c + sint n"] by simp
  ultimately show ?thesis using v r no_segments_iff [OF assms(2) u] by (auto simp del: One_nat_def)
qed

lemma doc_increment_adds_witness:
  "\<exists>d'. doc_increment 9 (document_new string_yrs 5 (DocumentId ''d'') CrdtCounter) [] 4 = Some (Inr 4, d') \<and>
     get_path (lww_data d') [] = Some (Some (VNumber (NInteger 4)))"
proof -
  obtain d' where d: "doc_increment 9 (document_new string_yrs 5 (DocumentId ''d'') CrdtCounter) [] 4 = Some (Inr 4, d')"
    by (simp add: doc_increment_def document_new_def get_path_def set_path_def)
  then show ?thesis
    using doc_increment_adds [OF d] by (auto simp: document_new_def get_path_def)
qed

text \<open>
  On a text document pushing, incrementing and deleting a path report success or an error
  of their own, move the version at most, and never change what a read returns: they work on the
  part of the document that text documents do not read.
\<close>

theorem text_ignores_value_operations:
  assumes "doc_strategy d = CrdtText"
    and "doc_push now d p x = Some (r, d') \<or> doc_increment now d p n = Some (r', d') \<or>
         doc_delete now d p' = Some (r'', d')"
  shows "doc_get y d' q = doc_get y d q"
proof -
  have "ydoc d' = ydoc d \<and> doc_strategy d' = doc_strategy d"
    using assms(2) by (auto dest: doc_push_cases doc_increment_cases doc_delete_cases simp: bumped_def)
  with assms(1) show ?thesis by (simp add: doc_get_def)
qed

lemma text_ignores_value_operations_witness:
  "\<exists>d'. doc_increment 9 (document_new string_yrs 5 (DocumentId ''d'') CrdtText) [] 4 = Some (Inr 4, d') \<and>
     doc_get string_yrs d' None = Some (Inr (VString []))"
proof -
  let ?d = "document_new string_yrs 5 (DocumentId ''d'') CrdtText"
  obtain d' where d: "doc_increment 9 ?d [] 4 = Some (Inr 4, d')"
    by (simp add: doc_increment_def document_new_def get_path_def set_path_def)
  have "doc_get string_yrs d' None = doc_get string_yrs ?d None"
    by (rule text_ignores_value_operations [OF _ disjI2 [OF disjI1 [OF d]]])
       (simp add: document_new_def meta_new_def)
  with d show ?thesis by (simp add: doc_get_def document_new_def meta_new_def string_yrs_def)
qed

text \<open>
  The declared limit on nesting is not enforced: for every depth there is a path that is
  written successfully into an empty document and leaves a value that deep in it.
\<close>

theorem nesting_is_not_limited:
  "\<exists>p d'. doc_set y now (document_new y now i Lww) p x = Some (Inr (), d') \<and>
     (\<exists>segs. length segs = MAX_NESTING_DEPTH + Suc n \<and> get_segs (lww_data d') segs = Some x)"
proof -
  define segs where "segs = replicate (MAX_NESTING_DEPTH + Suc n) (Key ''a'')"
  have ok: "list_all seg_ok segs" by (simp add: segs_def list_all_iff seg_ok_def)
  have ne: "segs \<noteq> []" by (simp add: segs_def)
  have c: "path_collect (render_path segs) = Some segs" using ok by (rule path_collect_render)
  with ne have "render_path segs \<noteq> []" by auto
  with c have "set_path (VObject fmempty) (render_path segs) x = Some (set_segs (VObject fmempty) segs x)"
    by (rule set_path_segs)
  then obtain d' where "doc_set y now (document_new y now i Lww) (render_path segs) x = Some (Inr (), d')"
      and "lww_data d' = set_segs (VObject fmempty) segs x"
    by (auto simp: doc_set_def document_new_def meta_new_def)
  moreover from this(2) ne have "get_segs (lww_data d') segs = Some x" by (simp add: get_set_same)
  moreover have "length segs = MAX_NESTING_DEPTH + Suc n" by (simp add: segs_def)
  ultimately show ?thesis by blast
qed

text \<open>
  Compaction is triggered by the number of text edits and remote updates only: value
  operations never count, so a document that is not a text document and receives no remote update
  is never compacted automatically.
\<close>

theorem value_operations_never_compact:
  assumes "update_count d = 0" and "doc_strategy d \<noteq> CrdtText"
    and "doc_set y now d p x = Some (r, d') \<or> doc_push now d p x = Some (r, d') \<or>
         doc_increment now d p n = Some (r', d') \<or> doc_delete now d p' = Some (r, d')"
  shows "update_count d' = 0 \<and> \<not> should_compact y d'"
proof -
  have "update_count d' = update_count d" if "doc_set y now d p x = Some (r, d')"
    using that assms(2) by (auto simp: doc_set_def split: strategy.splits)
  with assms(1,3) have "update_count d' = 0"
    by (auto dest: doc_push_cases doc_increment_cases doc_delete_cases)
  then show ?thesis by (simp add: should_compact_def COMPACTION_THRESHOLD_def)
qed

lemma value_operations_never_compact_witness:
  "\<exists>d'. doc_increment 9 (document_new string_yrs 5 (DocumentId ''d'') Lww) [] 4 = Some (Inr 4, d') \<and>
     \<not> should_compact string_yrs d'"
proof -
  let ?d = "document_new string_yrs 5 (DocumentId ''d'') Lww"
  obtain d' where d: "doc_increment 9 ?d [] 4 = Some (Inr 4, d')"
    by (simp add: doc_increment_def document_new_def get_path_def set_path_def)
  have "update_count d' = 0 \<and> \<not> should_compact string_yrs d'"
    by (rule value_operations_never_compact [OF _ _ disjI2 [OF disjI2 [OF disjI1 [OF d]]]])
       (simp_all add: document_new_def meta_new_def)
  with d show ?thesis by blast
qed

end
