(* ===== verification/Json.thy ===== *)
theory Json imports Crdt begin

section \<open>JSON values as the code sees them\<close>

text \<open>
  The values of the library serde\_json. The code reads a number only through \<^verbatim>\<open>as_i64\<close> and
  \<^verbatim>\<open>as_f64\<close>, so a number is the pair of what these return. An object is the list of its entries
  in the order the library iterates over them. Parsing and printing JSON text are parameters of
  the functions that use them.
\<close>

datatype json_number = JsonNumber (num_as_i64: "i64 option") (num_as_f64: "f64 option")

datatype json =
    JNull
  | JBool bool
  | JNumber json_number
  | JString string
  | JArray "json list"
  | JObject "(string \<times> json) list"

end
