(* ===== verification/Manager.thy ===== *)
theory Manager imports Document Json begin

section \<open>The document manager (ussl-core: manager.rs)\<close>

text \<open>
  All documents by identifier, the presence table and the broadcast channel for updates. The
  channel is the number of its receivers and the updates sent so far, oldest first; sending with
  no receiver fails and the code ignores the failure, so nothing is recorded then. A document is
  shared by reference in the code: whoever holds it changes the entry of the map, which here is
  \<open>manager_put\<close>.

  An operation that reads the clock gets the reading as \<open>now\<close>; a scan over the documents gets
  one reading for each entry.
\<close>

record delta =
  delta_document_id :: document_id
  delta_version :: u64
  delta_path :: "string option"
  delta_data :: bytes

record presence =
  presence_client :: string
  presence_document :: document_id
  presence_data :: json

record 'y manager =
  documents :: "'y document dashmap"
  receivers :: nat
  sent :: "delta list"
  presence_of :: "presence list dashmap"

definition manager_new :: "'y manager" where
  "manager_new = \<lparr>documents = [], receivers = 0, sent = [], presence_of = []\<rparr>"

definition manager_put :: "document_id \<Rightarrow> 'y document \<Rightarrow> 'y manager \<Rightarrow> 'y manager" where
  "manager_put i d m = m\<lparr>documents := dm_insert (id_str i) d (documents m)\<rparr>"

definition manager_create ::
  "'y yrs \<Rightarrow> u64 \<Rightarrow> 'y manager \<Rightarrow> document_id \<Rightarrow> strategy \<Rightarrow> u64 option \<Rightarrow> (error + 'y document) \<times> 'y manager" where
  "manager_create y now m i st t =
     (let key = id_str i in
      if dm_get (documents m) key \<noteq> None then (Inl (DocumentExists key), m)
      else
        let d = (case t of Some ttl_ms \<Rightarrow> document_with_ttl y now i st ttl_ms | None \<Rightarrow> document_new y now i st)
        in (Inr d, m\<lparr>documents := dm_insert key d (documents m)\<rparr>))"

text \<open>The same in its two accesses to the table, which other threads may come between.\<close>

definition create_check :: "'y manager \<Rightarrow> document_id \<Rightarrow> error option" where
  "create_check m i = (if dm_get (documents m) (id_str i) \<noteq> None then Some (DocumentExists (id_str i)) else None)"

definition create_insert ::
  "'y yrs \<Rightarrow> u64 \<Rightarrow> 'y manager \<Rightarrow> document_id \<Rightarrow> strategy \<Rightarrow> u64 option \<Rightarrow> 'y document \<times> 'y manager" where
  "create_insert y now m i st t =
     (let d = (case t of Some ttl_ms \<Rightarrow> document_with_ttl y now i st ttl_ms | None \<Rightarrow> document_new y now i st)
      in (d, m\<lparr>documents := dm_insert (id_str i) d (documents m)\<rparr>))"

lemma manager_create_accesses:
  "manager_create y now m i st t =
     (case create_check m i of
        Some e \<Rightarrow> (Inl e, m)
      | None \<Rightarrow> (case create_insert y now m i st t of (d, m') \<Rightarrow> (Inr d, m')))"
  by (simp add: manager_create_def create_check_def create_insert_def Let_def)

definition manager_get :: "'y manager \<Rightarrow> document_id \<Rightarrow> error + 'y document" where
  "manager_get m i =
     (case dm_get (documents m) (id_str i) of Some d \<Rightarrow> Inr d | None \<Rightarrow> Inl (DocumentNotFound (id_str i)))"

definition manager_get_or_create ::
  "'y yrs \<Rightarrow> u64 \<Rightarrow> 'y manager \<Rightarrow> document_id \<Rightarrow> strategy \<Rightarrow> 'y document \<times> 'y manager" where
  "manager_get_or_create y now m i st =
     (case dm_get (documents m) (id_str i) of
        Some d \<Rightarrow> (d, m)
      | None \<Rightarrow>
          let d = document_new y now i st
          in (d, m\<lparr>documents := dm_insert (id_str i) d (documents m)\<rparr>))"

definition manager_delete :: "'y manager \<Rightarrow> document_id \<Rightarrow> (error + unit) \<times> 'y manager" where
  "manager_delete m i =
     (case dm_get (documents m) (id_str i) of
        Some d \<Rightarrow> (Inr (), m\<lparr>documents := dm_remove (id_str i) (documents m)\<rparr>)
      | None \<Rightarrow> (Inl (DocumentNotFound (id_str i)), m))"

definition matches_pattern :: "string \<Rightarrow> string \<Rightarrow> bool" where
  "matches_pattern key pattern =
     (if pattern = ''*'' then True
      else case strip_suffix_char (CHR ''*'') pattern of
        Some p \<Rightarrow> prefix p key
      | None \<Rightarrow>
          (case strip_prefix_char (CHR ''*'') pattern of
             Some s \<Rightarrow> suffix s key
           | None \<Rightarrow> key = pattern))"

definition manager_list :: "'y manager \<Rightarrow> string option \<Rightarrow> document_meta list" where
  "manager_list m pattern =
     map (\<lambda>(k, d). meta d)
       (filter (\<lambda>(k, d). case pattern of None \<Rightarrow> True | Some p \<Rightarrow> matches_pattern k p) (documents m))"

definition subscribe :: "'y manager \<Rightarrow> 'y manager" where
  "subscribe m = m\<lparr>receivers := Suc (receivers m)\<rparr>"

definition publish_update :: "delta \<Rightarrow> 'y manager \<Rightarrow> 'y manager" where
  "publish_update dl m = (if receivers m = 0 then m else m\<lparr>sent := sent m @ [dl]\<rparr>)"

text \<open>
  Setting a presence takes two separate accesses to the table: first the entry of the document is
  created if needed and the client's old presence dropped, then the entry is looked up again and
  the new presence appended. The second access panics if the entry is gone by then.
\<close>

definition presence_retain :: "string \<Rightarrow> document_id \<Rightarrow> 'y manager \<Rightarrow> 'y manager" where
  "presence_retain cid i m =
     (let ps = (case dm_get (presence_of m) (id_str i) of Some ps \<Rightarrow> ps | None \<Rightarrow> [])
      in m\<lparr>presence_of := dm_insert (id_str i) (filter (\<lambda>p. presence_client p \<noteq> cid) ps) (presence_of m)\<rparr>)"

definition presence_push :: "presence \<Rightarrow> 'y manager \<Rightarrow> 'y manager option" where
  "presence_push p m =
     (case dm_get (presence_of m) (id_str (presence_document p)) of
        Some ps \<Rightarrow> Some (m\<lparr>presence_of := dm_insert (id_str (presence_document p)) (ps @ [p]) (presence_of m)\<rparr>)
      | None \<Rightarrow> None)"

definition set_presence :: "string \<Rightarrow> document_id \<Rightarrow> json \<Rightarrow> 'y manager \<Rightarrow> 'y manager option" where
  "set_presence cid i data m =
     presence_push \<lparr>presence_client = cid, presence_document = i, presence_data = data\<rparr>
       (presence_retain cid i m)"

definition get_presence :: "'y manager \<Rightarrow> document_id \<Rightarrow> presence list" where
  "get_presence m i = (case dm_get (presence_of m) (id_str i) of Some ps \<Rightarrow> ps | None \<Rightarrow> [])"

definition remove_presence :: "string \<Rightarrow> 'y manager \<Rightarrow> 'y manager" where
  "remove_presence cid m =
     m\<lparr>presence_of := map (\<lambda>(k, ps). (k, filter (\<lambda>p. presence_client p \<noteq> cid) ps)) (presence_of m)\<rparr>"

definition set_expire :: "'y manager \<Rightarrow> document_id \<Rightarrow> u64 option \<Rightarrow> (error + unit) \<times> 'y manager" where
  "set_expire m i t =
     (case manager_get m i of
        Inl e \<Rightarrow> (Inl e, m)
      | Inr d \<Rightarrow> (Inr (), manager_put i (set_ttl t d) m))"

definition manager_ttl :: "u64 \<Rightarrow> 'y manager \<Rightarrow> document_id \<Rightarrow> error + i64 option" where
  "manager_ttl now m i =
     (case manager_get m i of Inl e \<Rightarrow> Inl e | Inr d \<Rightarrow> Inr (ttl_remaining now (meta d)))"

definition gc :: "(string \<Rightarrow> u64) \<Rightarrow> 'y manager \<Rightarrow> nat \<times> 'y manager" where
  "gc now m =
     (let to_remove = map fst (filter (\<lambda>(k, d). is_expired (now k) (meta d)) (documents m))
      in (length to_remove,
          m\<lparr>documents := fold dm_remove to_remove (documents m),
            presence_of := fold dm_remove to_remove (presence_of m)\<rparr>))"

definition expired_count :: "(string \<Rightarrow> u64) \<Rightarrow> 'y manager \<Rightarrow> nat" where
  "expired_count now m = length (filter (\<lambda>(k, d). is_expired (now k) (meta d)) (documents m))"

record manager_stats =
  document_count :: nat
  subscriber_count :: nat

definition stats :: "'y manager \<Rightarrow> manager_stats" where
  "stats m = \<lparr>document_count = length (documents m), subscriber_count = receivers m\<rparr>"

subsection \<open>Backup and restore\<close>

record document_backup =
  backup_id :: string
  backup_strategy :: string
  backup_state :: bytes
  ttl_remaining_ms :: "i64 option"

record backup =
  backup_version :: u32
  timestamp :: u64
  backup_documents :: "document_backup list"

definition backup :: "'y yrs \<Rightarrow> u64 \<Rightarrow> (string \<Rightarrow> u64) \<Rightarrow> 'y manager \<Rightarrow> backup" where
  "backup y now_secs now m =
     \<lparr>backup_version = 1, timestamp = now_secs,
      backup_documents =
        map (\<lambda>(k, d). \<lparr>backup_id = k, backup_strategy = strategy_name (doc_strategy d),
               backup_state = encode_state y d, ttl_remaining_ms = ttl_remaining (now k) (meta d)\<rparr>)
          (filter (\<lambda>(k, d). \<not> is_expired (now k) (meta d)) (documents m))\<rparr>"

text \<open>One round of the restore loop: the document to insert, or the error that ends the loop.\<close>

definition restored_document :: "'y yrs \<Rightarrow> u64 \<Rightarrow> document_backup \<Rightarrow> error + 'y document" where
  "restored_document y now b =
     (case document_id_new (backup_id b) of
        Inl e \<Rightarrow> Inl e
      | Inr i \<Rightarrow>
          (case strategy_from_str (backup_strategy b) of
             Inl _ \<Rightarrow> Inl (InvalidStrategy (backup_strategy b))
           | Inr st \<Rightarrow>
               let d = (case ttl_remaining_ms b of
                     Some t \<Rightarrow> if sint t > 0 then document_with_ttl y now i st t else document_new y now i st
                   | None \<Rightarrow> document_new y now i st)
               in (case apply_state y now d (backup_state b) of
                     (Inl e, _) \<Rightarrow> Inl e
                   | (Inr _, d') \<Rightarrow> Inr d')))"

fun restore_loop ::
  "'y yrs \<Rightarrow> u64 \<Rightarrow> document_backup list \<Rightarrow> nat \<Rightarrow> 'y manager \<Rightarrow> (error + nat) \<times> 'y manager" where
  "restore_loop y now [] restored m = (Inr restored, m)"
| "restore_loop y now (b # bs) restored m =
     (case restored_document y now b of
        Inl e \<Rightarrow> (Inl e, m)
      | Inr d \<Rightarrow> restore_loop y now bs (restored + 1)
                  (m\<lparr>documents := dm_insert (backup_id b) d (documents m)\<rparr>))"

definition restore :: "'y yrs \<Rightarrow> u64 \<Rightarrow> backup \<Rightarrow> 'y manager \<Rightarrow> (error + nat) \<times> 'y manager" where
  "restore y now b m = restore_loop y now (backup_documents b) 0 m"

end
