(* ===== verification/ManagerLaws.thy ===== *)
theory ManagerLaws imports DocumentLaws Manager begin

section \<open>What the document manager guarantees\<close>

text \<open>
  The invariant of the tables in every reachable state, pattern matching, garbage collection,
  presence, and what a backup keeps and loses.
\<close>

subsection \<open>The invariant\<close>

definition manager_ok :: "'y manager \<Rightarrow> bool" where
  "manager_ok m \<longleftrightarrow> dm_ok (documents m) \<and> dm_ok (presence_of m) \<and>
     (\<forall>k d. dm_get (documents m) k = Some d \<longrightarrow> document_id_new k = Inr (meta_id (meta d))) \<and>
     (\<forall>k ps. dm_get (presence_of m) k = Some ps \<longrightarrow>
        distinct (map presence_client ps) \<and> (\<forall>p\<in>set ps. id_str (presence_document p) = k))"

inductive manager_step :: "'y yrs \<Rightarrow> 'y manager \<Rightarrow> 'y manager \<Rightarrow> bool" for y where
  create: "document_id_new s = Inr i \<Longrightarrow> manager_create y now m i st t = (r, m') \<Longrightarrow> manager_step y m m'"
| get_or_create: "document_id_new s = Inr i \<Longrightarrow> manager_get_or_create y now m i st = (d, m') \<Longrightarrow> manager_step y m m'"
| delete: "manager_delete m i = (r', m') \<Longrightarrow> manager_step y m m'"
| edit: "manager_get m i = Inr d \<Longrightarrow> doc_step y now d d' \<Longrightarrow> manager_step y m (manager_put i d' m)"
| subscribe: "manager_step y m (subscribe m)"
| publish: "manager_step y m (publish_update dl m)"
| set_presence: "document_id_new s = Inr i \<Longrightarrow> set_presence cid i data m = Some m' \<Longrightarrow> manager_step y m m'"
| remove_presence: "manager_step y m (remove_presence cid m)"
| expire: "set_expire m i t = (r', m') \<Longrightarrow> manager_step y m m'"
| gc: "gc clock m = (n, m') \<Longrightarrow> manager_step y m m'"
| restore: "restore y now b m = (r'', m') \<Longrightarrow> manager_step y m m'"

lemma manager_ok_new [invI]: "manager_ok manager_new"
  by (simp add: manager_ok_def manager_new_def)

lemma manager_ok_insert [invI]:
  "\<lbrakk>manager_ok m; document_id_new k = Inr (meta_id (meta d))\<rbrakk>
   \<Longrightarrow> manager_ok (m\<lparr>documents := dm_insert k d (documents m)\<rparr>)"
  by (auto simp: manager_ok_def distinct_update)

lemma manager_ok_cong [invI]:
  "\<lbrakk>manager_ok m; documents m' = documents m; presence_of m' = presence_of m\<rbrakk> \<Longrightarrow> manager_ok m'"
  by (simp add: manager_ok_def)

lemma manager_get_Inr: "manager_get m i = Inr d \<longleftrightarrow> dm_get (documents m) (id_str i) = Some d"
  by (auto simp: manager_get_def split: option.splits)

lemma manager_ok_id: "manager_ok m \<Longrightarrow> dm_get (documents m) k = Some d \<Longrightarrow> document_id_new k = Inr (meta_id (meta d))"
  by (simp add: manager_ok_def)

lemma meta_id_new [simp]:
  "meta_id (meta (document_new y now i st)) = i" "meta_id (meta (document_with_ttl y now i st t)) = i"
  "meta_strategy (meta (document_new y now i st)) = st" "meta_strategy (meta (document_with_ttl y now i st t)) = st"
  "lww_data (document_new y now i st) = VObject fmempty" "lww_data (document_with_ttl y now i st t) = VObject fmempty"
  "ydoc (document_new y now i st) = y_new y" "ydoc (document_with_ttl y now i st t) = y_new y"
  "ttl (meta (document_new y now i st)) = None" "ttl (meta (document_with_ttl y now i st t)) = Some t"
  "created_at (meta (document_new y now i st)) = now" "created_at (meta (document_with_ttl y now i st t)) = now"
  by (simp_all add: document_new_def meta_new_def document_with_ttl_def meta_with_ttl_def)

lemma manager_ok_edit [invI]:
  assumes "manager_ok m" and "manager_get m i = Inr d" and "doc_identity d' = doc_identity d"
  shows "manager_ok (manager_put i d' m)"
proof -
  have "document_id_new (id_str i) = Inr (meta_id (meta d'))"
    using assms manager_ok_id by (auto simp: manager_get_Inr doc_identity_def)
  then show ?thesis unfolding manager_put_def by (rule manager_ok_insert [OF assms(1)])
qed

lemma set_ttl_identity [simp]: "doc_identity (set_ttl t d) = doc_identity d"
  by (simp add: doc_identity_def set_ttl_def)

lemma fold_remove_ok: "dm_ok m \<Longrightarrow> dm_ok (fold dm_remove ks m)"
  by (induction ks arbitrary: m) (auto simp: distinct_delete)

lemma manager_ok_fold_remove [invI]:
  "manager_ok m \<Longrightarrow> manager_ok (m\<lparr>documents := fold dm_remove ks (documents m),
     presence_of := fold dm_remove ls (presence_of m)\<rparr>)"
  by (auto simp: manager_ok_def fold_remove_ok dm.lookup_fold_drop split: if_splits)

lemma manager_ok_retain [invI]:
  assumes "manager_ok m"
  shows "manager_ok (presence_retain cid i m)"
  using assms
  by (auto simp: manager_ok_def presence_retain_def Let_def distinct_update
      intro!: distinct_map_filter split: option.split)

lemma presence_retain_get:
  "dm_get (presence_of (presence_retain cid i m)) k =
     (if k = id_str i then Some (filter (\<lambda>p. presence_client p \<noteq> cid) (get_presence m i))
      else dm_get (presence_of m) k)"
  by (simp add: presence_retain_def get_presence_def Let_def)

lemma set_presence_eq:
  "set_presence cid i data m = Some (m\<lparr>presence_of :=
     dm_insert (id_str i) (filter (\<lambda>p. presence_client p \<noteq> cid) (get_presence m i) @
       [\<lparr>presence_client = cid, presence_document = i, presence_data = data\<rparr>])
     (presence_of (presence_retain cid i m))\<rparr>)"
  by (simp add: set_presence_def presence_push_def presence_retain_get)
     (simp add: presence_retain_def Let_def)

lemma manager_ok_set_presence [invI]:
  assumes "manager_ok m" and "set_presence cid i data m = Some m'"
  shows "manager_ok m'"
proof -
  let ?ps = "filter (\<lambda>p. presence_client p \<noteq> cid) (get_presence m i)"
  let ?r = "presence_retain cid i m"
  have r: "manager_ok ?r" using assms(1) by (rule manager_ok_retain)
  have "dm_get (presence_of ?r) (id_str i) = Some ?ps"
    by (simp add: presence_retain_get)
  with r have ps: "distinct (map presence_client ?ps)"
      "\<forall>p\<in>set ?ps. id_str (presence_document p) = id_str i"
    unfolding manager_ok_def by blast+
  have m': "documents m' = documents ?r"
    "presence_of m' = dm_insert (id_str i)
       (?ps @ [\<lparr>presence_client = cid, presence_document = i, presence_data = data\<rparr>]) (presence_of ?r)"
    using assms(2) by (auto simp: set_presence_eq presence_retain_def Let_def)
  have "distinct (map presence_client (?ps @ [\<lparr>presence_client = cid, presence_document = i, presence_data = data\<rparr>]))"
    using ps(1) by auto
  with r ps(2) show ?thesis
    unfolding manager_ok_def m' by (simp add: distinct_update del: map_append)
qed

lemma manager_ok_remove_presence [invI]:
  assumes "manager_ok m"
  shows "manager_ok (remove_presence cid m)"
  using assms
  by (auto simp: manager_ok_def remove_presence_def dm_get_map_vals intro!: distinct_map_filter)

lemma restored_document_Inr:
  assumes "restored_document y now b = Inr d"
  shows "document_id_new (backup_id b) = Inr (meta_id (meta d))
    \<and> strategy_from_str (backup_strategy b) = Inr (doc_strategy d)
    \<and> lww_data d = VObject fmempty
    \<and> ttl (meta d) = (case ttl_remaining_ms b of
        Some t \<Rightarrow> if sint t > 0 then Some t else None | None \<Rightarrow> None)
    \<and> created_at (meta d) = now
    \<and> (if backup_state b = [] then ydoc d = y_new y
       else y_apply y (y_new y) (backup_state b) = Inr (ydoc d))"
  using assms
  by (auto simp: restored_document_def apply_state_def Let_def split: sum.splits option.splits if_splits)

lemma manager_ok_restore [invI]:
  "manager_ok m \<Longrightarrow> restore_loop y now bs n m = (r, m') \<Longrightarrow> manager_ok m'"
proof (induction bs arbitrary: n m)
  case (Cons b bs)
  show ?case
  proof (cases "restored_document y now b")
    case (Inl e)
    with Cons.prems show ?thesis by simp
  next
    case (Inr d)
    then have "document_id_new (backup_id b) = Inr (meta_id (meta d))"
      by (simp add: restored_document_Inr)
    with Cons.prems(1) have "manager_ok (m\<lparr>documents := dm_insert (backup_id b) d (documents m)\<rparr>)"
      by (rule manager_ok_insert)
    with Inr Cons.prems(2) show ?thesis by (auto intro: Cons.IH)
  qed
qed simp

lemma document_id_new_own: "document_id_new s = Inr i \<Longrightarrow> document_id_new (id_str i) = Inr i"
  using document_id_new_Inr by fastforce

lemma manager_step_ok: "manager_step y m m' \<Longrightarrow> manager_ok m \<Longrightarrow> manager_ok m'"
proof (induction rule: manager_step.induct)
  case (create s i now m st t r m')
  have ok: "manager_ok (m\<lparr>documents := dm_insert (id_str i) d (documents m)\<rparr>)"
    if "meta_id (meta d) = i" for d :: "'a document"
    using create that by (intro manager_ok_insert) (simp_all add: document_id_new_own)
  show ?case
    using create(2,3) ok [of "document_new y now i st"] ok [of "document_with_ttl y now i st (the t)"]
    by (auto simp: manager_create_def Let_def split: if_split_asm option.splits)
next
  case (get_or_create s i now m st d m')
  have ok: "manager_ok (m\<lparr>documents := dm_insert (id_str i) d (documents m)\<rparr>)"
    if "meta_id (meta d) = i" for d :: "'a document"
    using get_or_create that by (intro manager_ok_insert) (simp_all add: document_id_new_own)
  show ?case
    using get_or_create(2,3) ok [of "document_new y now i st"]
    by (auto simp: manager_get_or_create_def Let_def split: option.split_asm)
next
  case (delete m i r' m')
  then show ?case
    by (auto simp: manager_delete_def manager_ok_def distinct_delete split: option.splits if_splits)
next
  case (edit m i d now d')
  then show ?case by (blast intro: manager_ok_edit doc_step_identity)
next
  case (subscribe m)
  then show ?case by (rule manager_ok_cong) (simp_all add: subscribe_def)
next
  case (publish m dl)
  then show ?case by (rule manager_ok_cong) (simp_all add: publish_update_def)
next
  case (expire m i t r' m')
  then show ?case
    by (auto simp: set_expire_def intro: manager_ok_edit split: sum.splits)
next
  case (gc clock m n m')
  then show ?case by (auto simp: gc_def Let_def intro: manager_ok_fold_remove)
next
  case (restore now b m r'' m')
  then show ?case by (auto simp: restore_def intro: manager_ok_restore)
qed (auto intro: invI)

interpretation mgr: invariant_system "manager_step y" manager_ok for y
  by unfold_locales (rule manager_step_ok)

text \<open>
  C26. In every state the manager can reach by any sequence of its operations, each document is
  stored once, under its own valid identifier, and each document's presence list holds every
  client at most once and only entries of that document.
\<close>

theorem manager_reachable_ok:
  assumes "(manager_step y)\<^sup>*\<^sup>* manager_new m"
  shows "distinct (map fst (documents m)) \<and>
    (\<forall>k d. dm_get (documents m) k = Some d \<longrightarrow> document_id_new k = Inr (meta_id (meta d))) \<and>
    (\<forall>i. distinct (map presence_client (get_presence m i)) \<and>
       (\<forall>p\<in>set (get_presence m i). id_str (presence_document p) = id_str i))"
  using mgr.run_inv [OF assms manager_ok_new]
  by (auto simp: manager_ok_def get_presence_def split: option.split)

lemma manager_reachable_ok_witness:
  "\<exists>m. (manager_step string_yrs)\<^sup>*\<^sup>* manager_new m \<and> map fst (documents m) = [''d''] \<and>
     document_id_new ''d'' = Inr (DocumentId ''d'')"
proof -
  let ?i = "DocumentId ''d''"
  have i: "document_id_new ''d'' = Inr ?i" by (simp add: document_id_new_def id_char_def byte_def)
  obtain m r where m: "manager_create string_yrs 5 manager_new ?i Lww None = (r, m)"
      "documents m = [(''d'', document_new string_yrs 5 ?i Lww)]"
    by (simp add: manager_create_def manager_new_def Let_def)
  have "manager_step string_yrs manager_new m" using i m(1) by (rule manager_step.create)
  then have run: "(manager_step string_yrs)\<^sup>*\<^sup>* manager_new m" by blast
  then show ?thesis using manager_reachable_ok [OF run] m(2) i by auto
qed

subsection \<open>Creating and looking up\<close>

text \<open>
  Creating a document succeeds exactly if there is none of that identifier; then a lookup
  returns the new, empty document, and otherwise nothing changes. Every other document is left
  alone, and the document is gone again after it is deleted.
\<close>

theorem create_get_delete:
  "case manager_create y now m i st t of
     (Inl e, m') \<Rightarrow> e = DocumentExists (id_str i) \<and> m' = m \<and> (\<exists>d. manager_get m i = Inr d)
   | (Inr d, m') \<Rightarrow>
       manager_get m i = Inl (DocumentNotFound (id_str i)) \<and> manager_get m' i = Inr d \<and>
       meta_id (meta d) = i \<and> doc_strategy d = st \<and> ttl (meta d) = t \<and> lww_data d = VObject fmempty \<and>
       (\<forall>j. id_str j \<noteq> id_str i \<longrightarrow> manager_get m' j = manager_get m j) \<and>
       fst (manager_delete m' i) = Inr () \<and>
       (\<forall>j. manager_get (snd (manager_delete m' i)) j = manager_get m j)"
  by (auto simp: manager_create_def manager_get_def manager_delete_def Let_def
      split: option.splits prod.splits sum.splits if_splits)

lemma create_get_delete_witness:
  "fst (manager_create string_yrs 5 manager_new (DocumentId ''a'') Lww (Some 10))
     = Inr (document_with_ttl string_yrs 5 (DocumentId ''a'') Lww 10)
   \<and> manager_get (snd (manager_create string_yrs 5 manager_new (DocumentId ''a'') Lww (Some 10))) (DocumentId ''a'')
     = Inr (document_with_ttl string_yrs 5 (DocumentId ''a'') Lww 10)"
proof -
  obtain m where e: "manager_create string_yrs 5 manager_new (DocumentId ''a'') Lww (Some 10) =
      (Inr (document_with_ttl string_yrs 5 (DocumentId ''a'') Lww 10), m)"
    by (simp add: manager_create_def manager_new_def Let_def)
  show ?thesis
    using create_get_delete [where y = string_yrs and now = 5 and m = manager_new and i = "DocumentId ''a''"
      and st = Lww and t = "Some 10"]
    by (simp add: e)
qed

subsection \<open>Patterns\<close>

text \<open>The language of patterns: a star stands for any text, every other character for itself.\<close>

fun glob :: "string \<Rightarrow> string \<Rightarrow> bool" where
  "glob [] k \<longleftrightarrow> k = []"
| "glob (c # p) [] \<longleftrightarrow> c = CHR ''*'' \<and> glob p []"
| "glob (c # p) (x # k) \<longleftrightarrow>
     (if c = CHR ''*'' then glob p (x # k) \<or> glob (c # p) k else c = x \<and> glob p k)"

lemma glob_plain: "CHR ''*'' \<notin> set p \<Longrightarrow> glob p k \<longleftrightarrow> k = p"
  by (induction p k rule: glob.induct) auto

lemma glob_star: "glob (CHR ''*'' # p) k \<longleftrightarrow> (\<exists>s. suffix s k \<and> glob p s)"
proof (induction k)
  case Nil
  then show ?case by simp
next
  case (Cons x k)
  then show ?case by (auto simp: suffix_Cons)
qed

lemma glob_plain_append: "CHR ''*'' \<notin> set p \<Longrightarrow> glob (p @ q) k \<longleftrightarrow> (\<exists>r. k = p @ r \<and> glob q r)"
proof (induction p arbitrary: k)
  case (Cons c p)
  then show ?case by (cases k) auto
qed simp

lemma glob_prefix: "CHR ''*'' \<notin> set p \<Longrightarrow> glob (p @ ''*'') k \<longleftrightarrow> prefix p k"
  by (auto simp: glob_plain_append glob_star prefix_def intro: exI [of _ "[]"])

text \<open>
  For patterns with no star, and for patterns whose only star is the first or the last
  character, the manager's matching is glob matching.
\<close>

theorem matches_pattern_is_glob:
  assumes "CHR ''*'' \<notin> set p"
  shows "matches_pattern k p = glob p k \<and>
    matches_pattern k (p @ ''*'') = glob (p @ ''*'') k \<and>
    matches_pattern k (CHR ''*'' # p) = glob (CHR ''*'' # p) k"
proof (intro conjI)
  have "strip_suffix_char (CHR ''*'') p = None" "strip_prefix_char (CHR ''*'') p = None" "p \<noteq> ''*''"
    using assms by (auto simp: strip_suffix_char_def strip_prefix_char_def dest: last_in_set split: list.split)
  then show "matches_pattern k p = glob p k"
    using assms by (auto simp: matches_pattern_def glob_plain)
  show "matches_pattern k (p @ ''*'') = glob (p @ ''*'') k"
    using assms by (auto simp: matches_pattern_def glob_prefix strip_suffix_char_def)
  show "matches_pattern k (CHR ''*'' # p) = glob (CHR ''*'' # p) k"
  proof (cases "p = []")
    case True
    then show ?thesis by (simp add: matches_pattern_def glob_star)
  next
    case False
    then have "last p \<noteq> CHR ''*''" using assms last_in_set by metis
    with False assms show ?thesis
      by (auto simp: matches_pattern_def glob_star glob_plain strip_suffix_char_def strip_prefix_char_def)
  qed
qed

lemma matches_pattern_is_glob_witness:
  "matches_pattern ''user:1'' ''user:*'' \<and> matches_pattern ''user:1'' ''*:1'' \<and> \<not> matches_pattern ''user:1'' ''user:''"
  using matches_pattern_is_glob [of "''user:''" "''user:1''"] matches_pattern_is_glob [of "'':1''" "''user:1''"]
  by simp

text \<open>
  A star anywhere else is compared as a character, and identifiers never contain one: in a
  reachable state, listing with a pattern that has a star besides one at its end, or besides one at
  its beginning when it does not end in a star, gives no document, although as a glob it may
  describe many.
\<close>

theorem list_inner_star_empty:
  assumes "(manager_step y)\<^sup>*\<^sup>* manager_new m"
    and "CHR ''*'' \<in> set (butlast p)" and "last p = CHR ''*'' \<or> CHR ''*'' \<in> set (tl p)"
  shows "manager_list m (Some p) = []"
proof -
  have "\<not> matches_pattern k p" if "(k, d) \<in> set (documents m)" for k d
  proof -
    have "manager_ok m" by (rule mgr.run_inv [OF assms(1) manager_ok_new])
    with that have "document_id_new k = Inr (meta_id (meta d))"
      by (simp add: manager_ok_def)
    then have k: "CHR ''*'' \<notin> set k" by (rule document_id_no_star)
    have "p \<noteq> ''*''" "p \<noteq> []" using assms(2) by auto
    moreover have "CHR ''*'' \<in> set p" using assms(2) by (rule in_set_butlastD)
    ultimately show ?thesis using k assms(2,3)
      by (cases p) (auto simp: matches_pattern_def strip_suffix_char_def strip_prefix_char_def
          split: if_splits dest!: set_mono_prefix set_mono_suffix)
  qed
  then show ?thesis by (auto simp: manager_list_def filter_empty_conv)
qed

lemma list_inner_star_empty_witness:
  "manager_list (manager_new :: string manager) (Some ''a*b'') = [] \<and> glob ''a*b'' ''axb''"
  using list_inner_star_empty [of string_yrs manager_new "''a*b''"] by simp

subsection \<open>Garbage collection\<close>

lemma gc_eq:
  "gc now m = (expired_count now m,
     m\<lparr>documents := fold dm_remove (map fst (filter (\<lambda>(k, d). is_expired (now k) (meta d)) (documents m))) (documents m),
       presence_of := fold dm_remove (map fst (filter (\<lambda>(k, d). is_expired (now k) (meta d)) (documents m))) (presence_of m)\<rparr>)"
  by (simp add: gc_def expired_count_def Let_def)

lemma manager_ok_docs: "manager_ok m \<Longrightarrow> dm_ok (documents m)"
  by (simp add: manager_ok_def)

lemma expired_keys:
  assumes "dm_ok ds"
  shows "k \<in> set (map fst (filter (\<lambda>(k, d). P k d) ds)) \<longleftrightarrow> (\<exists>d. dm_get ds k = Some d \<and> P k d)"
  using assms by force

lemma gc_lookup:
  assumes "manager_ok m"
  shows "dm_get (documents (snd (gc now m))) k =
      (case dm_get (documents m) k of
         Some d \<Rightarrow> if is_expired (now k) (meta d) then None else Some d | None \<Rightarrow> None)"
    and "dm_get (presence_of (snd (gc now m))) k =
      (case dm_get (documents m) k of
         Some d \<Rightarrow> if is_expired (now k) (meta d) then None else dm_get (presence_of m) k
       | None \<Rightarrow> dm_get (presence_of m) k)"
  using expired_keys [OF manager_ok_docs [OF assms], of k "\<lambda>k d. is_expired (now k) (meta d)"]
  by (auto simp: gc_eq dm.lookup_fold_drop simp del: set_map split: option.split)

lemma expired_count_0:
  "dm_ok (documents m) \<Longrightarrow> expired_count now m = 0 \<longleftrightarrow>
     (\<forall>k d. dm_get (documents m) k = Some d \<longrightarrow> \<not> is_expired (now k) (meta d))"
  by (auto simp: expired_count_def filter_empty_conv)

text \<open>
  C32. Garbage collection removes exactly the documents that are expired, each with its presence
  list; it returns how many it removed, which is what the count of expired documents said before,
  and afterwards none is left.
\<close>

theorem gc_removes_exactly_expired:
  assumes "manager_ok m" and "gc now m = (n, m')"
  shows "n = expired_count now m \<and> expired_count now m' = 0 \<and>
    (\<forall>k. dm_get (documents m') k =
      (case dm_get (documents m) k of
         Some d \<Rightarrow> if is_expired (now k) (meta d) then None else Some d | None \<Rightarrow> None)) \<and>
    (\<forall>i d. manager_get m i = Inr d \<longrightarrow>
       get_presence m' i = (if is_expired (now (id_str i)) (meta d) then [] else get_presence m i))"
proof -
  have m': "m' = snd (gc now m)" and n: "n = expired_count now m"
    using assms(2) by (auto simp: gc_eq)
  have "dm_ok (documents m')"
    using assms(2) fold_remove_ok [OF manager_ok_docs [OF assms(1)]] by (auto simp: gc_eq)
  then have "expired_count now m' = 0"
    using gc_lookup(1) [OF assms(1)] by (auto simp: expired_count_0 m' split: option.splits if_splits)
  with n gc_lookup [OF assms(1)] show ?thesis
    by (auto simp: m' manager_get_Inr get_presence_def)
qed

lemma gc_removes_exactly_expired_witness:
  "\<exists>(m :: string manager) m'. gc (\<lambda>k. 50) m = (1, m') \<and> length (documents m) = 2 \<and>
     dm_get (documents m') ''a'' = None \<and> dm_get (documents m') ''b'' \<noteq> None"
proof -
  let ?a = "document_with_ttl string_yrs 5 (DocumentId ''a'') Lww 10"
    and ?b = "document_new string_yrs 5 (DocumentId ''b'') Lww"
  let ?m = "\<lparr>documents = [(''a'', ?a), (''b'', ?b)], receivers = 0, sent = [], presence_of = []\<rparr>"
  have ok: "manager_ok ?m"
    by (auto simp: manager_ok_def document_id_new_def id_char_def byte_def split: if_splits)
  have "expired_count (\<lambda>k. 50) ?m = 1"
    by (simp add: expired_count_def is_expired_def)
  with gc_removes_exactly_expired [OF ok, of "\<lambda>k. 50", OF surjective_pairing] show ?thesis
    by - (rule exI [of _ ?m], rule exI [of _ "snd (gc (\<lambda>k. 50) ?m)"], auto simp: gc_eq is_expired_def)
qed

subsection \<open>Presence\<close>

text \<open>
  Setting a client's presence in a document returns, replaces what the client had there,
  keeps what the other clients have, and touches no other document; removing the client's presence
  removes it from every document and nothing else.
\<close>

theorem presence_set_and_removed:
  "\<exists>m'. set_presence cid i data m = Some m' \<and> documents m' = documents m \<and>
     get_presence m' i = filter (\<lambda>p. presence_client p \<noteq> cid) (get_presence m i) @
       [\<lparr>presence_client = cid, presence_document = i, presence_data = data\<rparr>] \<and>
     (\<forall>j. id_str j \<noteq> id_str i \<longrightarrow> get_presence m' j = get_presence m j) \<and>
     (\<forall>j. get_presence (remove_presence cid m') j =
        filter (\<lambda>p. presence_client p \<noteq> cid) (get_presence m j))"
proof -
  have rm: "get_presence (remove_presence cid m') j = filter (\<lambda>p. presence_client p \<noteq> cid) (get_presence m' j)"
    for m' :: "'a manager" and j
    by (auto simp: get_presence_def remove_presence_def dm_get_map_vals split: option.split)
  show ?thesis
    by (auto simp: set_presence_eq rm) (auto simp: get_presence_def presence_retain_def Let_def)
qed

lemma presence_set_and_removed_witness:
  "\<exists>m'. set_presence ''c'' (DocumentId ''d'') JNull (manager_new :: string manager) = Some m' \<and>
     map presence_client (get_presence m' (DocumentId ''d'')) = [''c''] \<and>
     get_presence m' (DocumentId ''e'') = []"
proof -
  have e: "get_presence (manager_new :: string manager) j = []" for j
    by (simp add: manager_new_def get_presence_def)
  show ?thesis
    using presence_set_and_removed [of "''c''" "DocumentId ''d''" JNull "manager_new :: string manager"]
    by (auto simp: e)
qed

text \<open>
  The two accesses of setting a presence are not one step: if the garbage collector removes the
  expired document between them, the second access finds no entry and the code panics.
\<close>

theorem presence_gc_race_panics:
  assumes "manager_ok m" and "manager_get m i = Inr d" and "is_expired (now (id_str i)) (meta d)"
    and "id_str (presence_document p) = id_str i"
  shows "presence_push p (snd (gc now (presence_retain cid i m))) = None"
proof -
  have "documents (presence_retain cid i m) = documents m"
    by (simp add: presence_retain_def Let_def)
  with assms gc_lookup(2) [OF manager_ok_retain [OF assms(1)], of now cid i "id_str i"]
  show ?thesis by (simp add: presence_push_def manager_get_Inr)
qed

lemma presence_gc_race_panics_witness:
  "let i = DocumentId ''a''; m = manager_put i (document_with_ttl string_yrs 5 i Lww 10) manager_new
   in presence_push \<lparr>presence_client = ''c'', presence_document = i, presence_data = JNull\<rparr>
        (snd (gc (\<lambda>k. 50) (presence_retain ''c'' i m))) = None \<and>
      set_presence ''c'' i JNull m \<noteq> None"
proof -
  let ?i = "DocumentId ''a''"
  let ?d = "document_with_ttl string_yrs 5 ?i Lww 10"
  have "manager_ok (manager_put ?i ?d manager_new)"
    by (simp add: manager_ok_def manager_put_def manager_new_def document_id_new_def id_char_def byte_def)
  from presence_gc_race_panics [OF this, of ?i ?d "\<lambda>k. 50"]
  show ?thesis
    by (simp add: Let_def set_presence_eq) (simp add: manager_put_def manager_new_def manager_get_Inr is_expired_def document_with_ttl_def meta_with_ttl_def)
qed

subsection \<open>Backup and restore\<close>

definition backup_of :: "'y yrs \<Rightarrow> u64 \<Rightarrow> string \<Rightarrow> 'y document \<Rightarrow> document_backup" where
  "backup_of y now k d = \<lparr>backup_id = k, backup_strategy = strategy_name (doc_strategy d),
     backup_state = encode_state y d, ttl_remaining_ms = ttl_remaining now (meta d)\<rparr>"

definition restored_from :: "'y yrs \<Rightarrow> u64 \<Rightarrow> u64 \<Rightarrow> string \<Rightarrow> 'y document \<Rightarrow> 'y document \<Rightarrow> bool" where
  "restored_from y now now' k d d' \<longleftrightarrow>
     document_id_new k = Inr (meta_id (meta d')) \<and> doc_strategy d' = doc_strategy d \<and>
     y_text y (ydoc d') = y_text y (ydoc d) \<and> lww_data d' = VObject fmempty \<and>
     created_at (meta d') = now' \<and>
     ttl (meta d') = (case ttl_remaining now (meta d) of
        Some t \<Rightarrow> if sint t > 0 then Some t else None | None \<Rightarrow> None)"

lemma restored_backup_of:
  assumes "yrs_state_laws y" and "document_id_new k = Inr i"
  obtains d' where "restored_document y now' (backup_of y now k d) = Inr d'" and "restored_from y now now' k d d'"
proof -
  have ne: "y_encode y yd \<noteq> []" for yd using assms(1) by (simp add: yrs_state_laws_def)
  obtain yd where yd: "y_apply y (y_new y) (y_encode y (ydoc d)) = Inr yd" "y_text y yd = y_text y (ydoc d)"
    using assms(1) unfolding yrs_state_laws_def by blast
  have "\<exists>d'. restored_document y now' (backup_of y now k d) = Inr d'"
    using assms(2) ne yd
    by (simp add: restored_document_def backup_of_def apply_state_def encode_state_def Let_def split: option.split)
  then obtain d' where d': "restored_document y now' (backup_of y now k d) = Inr d'" ..
  from restored_document_Inr [OF this] ne yd have "restored_from y now now' k d d'"
    by (auto simp: restored_from_def backup_of_def encode_state_def)
  with d' show thesis by (rule that)
qed

lemma restore_loop_all:
  assumes "\<And>b. b \<in> set bs \<Longrightarrow> restored_document y now b = Inr (f b)"
  shows "restore_loop y now bs n m = (Inr (n + length bs),
     m\<lparr>documents := fold (\<lambda>(k, d). dm_insert k d) (map (\<lambda>b. (backup_id b, f b)) bs) (documents m)\<rparr>)"
  using assms
proof (induction bs arbitrary: n m)
  case (Cons b bs)
  then show ?case by simp
qed simp

lemma backup_eq:
  "backup_documents (backup y s now m) =
     map (\<lambda>(k, d). backup_of y (now k) k d) (filter (\<lambda>(k, d). \<not> is_expired (now k) (meta d)) (documents m))"
  by (simp add: backup_def backup_of_def)



text \<open>
  What a backup does not bring back: whatever is restored, every document the restore inserts
  has an empty value tree. All values of documents that are not text are lost.
\<close>

theorem restore_loses_values:
  assumes "restore y now b m = (r, m')" and "dm_get (documents m') k = Some d"
  shows "dm_get (documents m) k = Some d \<or> lww_data d = VObject fmempty"
proof -
  have "dm_get (documents m) k = Some d \<or> lww_data d = VObject fmempty"
    if "restore_loop y now bs n m = (r, m')" for bs n
    using that assms(2)
    by (induction bs arbitrary: n m) (fastforce dest: restored_document_Inr split: sum.splits if_splits)+
  then show ?thesis using assms(1) unfolding restore_def by blast
qed

lemma restore_loses_values_witness:
  "let d = (document_new string_yrs 5 (DocumentId ''a'') Lww)\<lparr>lww_data := VObject (fmap_of_list [(''x'', VBool True)])\<rparr>;
       m' = snd (restore string_yrs 90 (backup string_yrs 0 (\<lambda>k. 50) (manager_put (DocumentId ''a'') d manager_new)) manager_new)
   in map_option lww_data (dm_get (documents m') ''a'') = Some (VObject fmempty)"
proof -
  let ?d = "(document_new string_yrs 5 (DocumentId ''a'') Lww)\<lparr>lww_data := VObject (fmap_of_list [(''x'', VBool True)])\<rparr>"
  let ?r = "restore string_yrs 90 (backup string_yrs 0 (\<lambda>k. 50) (manager_put (DocumentId ''a'') ?d manager_new)) manager_new"
  have "document_id_new ''a'' = Inr (DocumentId ''a'')"
    by (simp add: document_id_new_def id_char_def byte_def)
  then obtain d' where "restored_document string_yrs 90 (backup_of string_yrs 50 ''a'' ?d) = Inr d'"
    using restored_backup_of [OF string_yrs_state] by metis
  then have d': "dm_get (documents (snd ?r)) ''a'' = Some d'"
    by (simp add: restore_def backup_eq manager_put_def manager_new_def is_expired_def) (simp add: backup_of_def)
  have "?r = (fst ?r, snd ?r)" by simp
  from restore_loses_values [OF this d'] d' show ?thesis by (simp add: manager_new_def Let_def)
qed

text \<open>
  A backup taken in the very millisecond in which a document expires contains it, with 0 ms
  left, and restores it as a document that never expires.
\<close>

theorem restore_at_expiry_never_expires:
  assumes "ttl (meta d) = Some t" and "created_at (meta d) + t = now"
    and "restored_document y now' (backup_of y now k d) = Inr d'"
  shows "\<not> is_expired now (meta d) \<and> \<not> is_expired later (meta d')"
proof -
  have "ttl_remaining now (meta d) = Some 0"
    using assms(1,2) by (auto simp: ttl_remaining_def Let_def)
  then have "ttl (meta d') = None"
    using restored_document_Inr [OF assms(3)] by (simp add: backup_of_def)
  with assms(1,2) show ?thesis by (simp add: is_expired_def)
qed

lemma restore_at_expiry_never_expires_witness:
  "\<exists>d'. restored_document string_yrs 90 (backup_of string_yrs 15 ''a''
      (document_with_ttl string_yrs 5 (DocumentId ''a'') Lww 10)) = Inr d' \<and> \<not> is_expired 1000000 (meta d')"
proof -
  have i: "document_id_new ''a'' = Inr (DocumentId ''a'')"
    by (simp add: document_id_new_def id_char_def byte_def)
  let ?d = "document_with_ttl string_yrs 5 (DocumentId ''a'') Lww 10"
  obtain d' where d': "restored_document string_yrs 90 (backup_of string_yrs 15 ''a'' ?d) = Inr d'"
    using restored_backup_of [OF string_yrs_state i] by metis
  have "\<not> is_expired 15 (meta ?d) \<and> \<not> is_expired 1000000 (meta d')"
    by (rule restore_at_expiry_never_expires [OF _ _ d']) simp_all
  with d' show ?thesis by blast
qed

text \<open>
  A restore is not atomic: when it fails, it has already inserted every document before the
  one it failed on, overwriting what was there.
\<close>

theorem restore_fails_midway:
  assumes "restore y now b m = (Inl e, m')"
  shows "\<exists>pre bad post. backup_documents b = pre @ bad # post \<and> restored_document y now bad = Inl e \<and>
    restore y now (b\<lparr>backup_documents := pre\<rparr>) m = (Inr (length pre), m')"
proof -
  have "\<exists>pre bad post. bs = pre @ bad # post \<and> restored_document y now bad = Inl e \<and>
      restore_loop y now pre n m = (Inr (n + length pre), m')"
    if "restore_loop y now bs n m = (Inl e, m')" for bs n
    using that
  proof (induction bs arbitrary: n m)
    case (Cons x bs)
    show ?case
    proof (cases "restored_document y now x")
      case (Inl e')
      with Cons.prems show ?thesis by (intro exI [of _ "[]"]) simp
    next
      case (Inr d)
      with Cons.prems obtain pre bad post where "bs = pre @ bad # post" "restored_document y now bad = Inl e"
        "restore_loop y now pre (n + 1) (m\<lparr>documents := dm_insert (backup_id x) d (documents m)\<rparr>)
          = (Inr (n + 1 + length pre), m')"
        using Cons.IH by force
      with Inr show ?thesis by (intro exI [of _ "x # pre"]) simp
    qed
  qed simp
  from this [of "backup_documents b" 0] assms show ?thesis by (simp add: restore_def)
qed

lemma restore_fails_midway_witness:
  "\<exists>m'. restore string_yrs 90 \<lparr>backup_version = 1, timestamp = 0, backup_documents =
      [\<lparr>backup_id = ''a'', backup_strategy = ''lww'', backup_state = [], ttl_remaining_ms = None\<rparr>,
       \<lparr>backup_id = '''', backup_strategy = ''lww'', backup_state = [], ttl_remaining_ms = None\<rparr>]\<rparr> manager_new
     = (Inl (InvalidDocumentId ''Document ID cannot be empty''), m') \<and>
     restore string_yrs 90 \<lparr>backup_version = 1, timestamp = 0, backup_documents =
      [\<lparr>backup_id = ''a'', backup_strategy = ''lww'', backup_state = [], ttl_remaining_ms = None\<rparr>]\<rparr> manager_new
     = (Inr 1, m')"
proof -
  let ?b = "\<lparr>backup_version = 1, timestamp = 0, backup_documents =
      [\<lparr>backup_id = ''a'', backup_strategy = ''lww'', backup_state = [], ttl_remaining_ms = None\<rparr>,
       \<lparr>backup_id = '''', backup_strategy = ''lww'', backup_state = [], ttl_remaining_ms = None\<rparr>]\<rparr>"
  have i: "document_id_new ''a'' = Inr (DocumentId ''a'')" "document_id_new '''' = Inl (InvalidDocumentId ''Document ID cannot be empty'')"
    by (simp_all add: document_id_new_def id_char_def byte_def)
  have st: "strategy_from_str ''lww'' = Inr Lww" using strategy_from_str_name [of Lww] by simp
  obtain m' where m': "restore string_yrs 90 ?b manager_new = (Inl (InvalidDocumentId ''Document ID cannot be empty''), m')"
    by (simp add: restore_def restored_document_def i st apply_state_def manager_new_def)
  from restore_fails_midway [OF m'(1)] m' show ?thesis
    by (auto simp: Cons_eq_append_conv restored_document_def i st apply_state_def)
qed

end
