(* ===== verification/Command.thy ===== *)
theory Command imports Crdt Json begin

section \<open>Commands and protocol errors (ussl-protocol: command.rs, error.rs)\<close>

text \<open>
  A parsed command is its kind and the identifier of the document it addresses, if any. The
  constructor functions of the code fill both; a subscription carries its pattern in both.
\<close>

datatype protocol_error =
    InvalidCommand string
  | MissingArgument string
  | InvalidArgument string
  | ParseError string
  | Incomplete
  | MessageTooLarge nat nat
  | InvalidJson string
  | Core error

fun protocol_error_msg :: "protocol_error \<Rightarrow> string" where
  "protocol_error_msg (InvalidCommand s) = ''Invalid command: '' @ s"
| "protocol_error_msg (MissingArgument s) = ''Missing argument: '' @ s"
| "protocol_error_msg (InvalidArgument s) = ''Invalid argument: '' @ s"
| "protocol_error_msg (ParseError s) = ''Parse error: '' @ s"
| "protocol_error_msg Incomplete = ''Incomplete message''"
| "protocol_error_msg (MessageTooLarge n l) =
     ''Message too large: '' @ show_nat n @ '' > '' @ show_nat l"
| "protocol_error_msg (InvalidJson s) = ''Invalid JSON: '' @ s"
| "protocol_error_msg (Core e) = ''Core error: '' @ error_msg e"

datatype command_kind =
    Auth string
  | Create strategy "u64 option"
  | Get "string option"
  | Set string val
  | Delete "string option"
  | Subscribe string "string option"
  | Unsubscribe string
  | Push string val
  | Increment string i64
  | Presence "json option"
  | Ping
  | Quit
  | Info
  | Keys "string option"
  | Compact
  | Expire u64
  | Ttl
  | Backup
  | Restore string

record command =
  cmd_kind :: command_kind
  cmd_document_id :: "string option"

definition cmd_create :: "string \<Rightarrow> strategy \<Rightarrow> u64 option \<Rightarrow> command" where
  "cmd_create i st t = \<lparr>cmd_kind = Create st t, cmd_document_id = Some i\<rparr>"

definition cmd_get :: "string \<Rightarrow> string option \<Rightarrow> command" where
  "cmd_get i path = \<lparr>cmd_kind = Get path, cmd_document_id = Some i\<rparr>"

definition cmd_set :: "string \<Rightarrow> string \<Rightarrow> val \<Rightarrow> command" where
  "cmd_set i path x = \<lparr>cmd_kind = Set path x, cmd_document_id = Some i\<rparr>"

definition cmd_delete :: "string \<Rightarrow> string option \<Rightarrow> command" where
  "cmd_delete i path = \<lparr>cmd_kind = Delete path, cmd_document_id = Some i\<rparr>"

definition cmd_subscribe :: "string \<Rightarrow> string option \<Rightarrow> command" where
  "cmd_subscribe pattern path = \<lparr>cmd_kind = Subscribe pattern path, cmd_document_id = Some pattern\<rparr>"

definition cmd_unsubscribe :: "string \<Rightarrow> command" where
  "cmd_unsubscribe pattern = \<lparr>cmd_kind = Unsubscribe pattern, cmd_document_id = Some pattern\<rparr>"

definition cmd_push :: "string \<Rightarrow> string \<Rightarrow> val \<Rightarrow> command" where
  "cmd_push i path x = \<lparr>cmd_kind = Push path x, cmd_document_id = Some i\<rparr>"

definition cmd_increment :: "string \<Rightarrow> string \<Rightarrow> i64 \<Rightarrow> command" where
  "cmd_increment i path delta = \<lparr>cmd_kind = Increment path delta, cmd_document_id = Some i\<rparr>"

definition cmd_presence :: "string \<Rightarrow> json option \<Rightarrow> command" where
  "cmd_presence i data = \<lparr>cmd_kind = Presence data, cmd_document_id = Some i\<rparr>"

definition cmd_ping :: command where
  "cmd_ping = \<lparr>cmd_kind = Ping, cmd_document_id = None\<rparr>"

definition cmd_quit :: command where
  "cmd_quit = \<lparr>cmd_kind = Quit, cmd_document_id = None\<rparr>"

definition cmd_info :: command where
  "cmd_info = \<lparr>cmd_kind = Info, cmd_document_id = None\<rparr>"

definition cmd_keys :: "string option \<Rightarrow> command" where
  "cmd_keys pattern = \<lparr>cmd_kind = Keys pattern, cmd_document_id = None\<rparr>"

definition cmd_auth :: "string \<Rightarrow> command" where
  "cmd_auth password = \<lparr>cmd_kind = Auth password, cmd_document_id = None\<rparr>"

definition cmd_compact :: "string \<Rightarrow> command" where
  "cmd_compact i = \<lparr>cmd_kind = Compact, cmd_document_id = Some i\<rparr>"

definition cmd_expire :: "string \<Rightarrow> u64 \<Rightarrow> command" where
  "cmd_expire i ttl_ms = \<lparr>cmd_kind = Expire ttl_ms, cmd_document_id = Some i\<rparr>"

definition cmd_ttl :: "string \<Rightarrow> command" where
  "cmd_ttl i = \<lparr>cmd_kind = Ttl, cmd_document_id = Some i\<rparr>"

definition cmd_backup :: command where
  "cmd_backup = \<lparr>cmd_kind = Backup, cmd_document_id = None\<rparr>"

definition cmd_restore :: "string \<Rightarrow> command" where
  "cmd_restore data = \<lparr>cmd_kind = Restore data, cmd_document_id = None\<rparr>"

lemmas cmd_defs = cmd_create_def cmd_get_def cmd_set_def cmd_delete_def cmd_subscribe_def
  cmd_unsubscribe_def cmd_push_def cmd_increment_def cmd_presence_def cmd_ping_def cmd_quit_def
  cmd_info_def cmd_keys_def cmd_auth_def cmd_compact_def cmd_expire_def cmd_ttl_def cmd_backup_def
  cmd_restore_def

end
