(* ===== verification/Parser.thy ===== *)
theory Parser imports Command begin

section \<open>The command parser (ussl-protocol: parser.rs)\<close>

text \<open>
  The parser keeps the bytes received and not yet parsed. A line is decoded, trimmed, split into
  tokens and turned into a command. The tokenizer's state is the input not yet consumed, the text
  from its position on; when it finds no further token it has consumed everything.

  Parsing JSON text is the parameter \<open>from_str\<close>, which returns the message of the error or the
  parsed value.
\<close>

definition MAX_MESSAGE_SIZE :: nat where
  "MAX_MESSAGE_SIZE = 1024 * 1024"

record parser =
  buffer :: bytes

definition parser_new :: parser where
  "parser_new = \<lparr>buffer = []\<rparr>"

definition feed :: "bytes \<Rightarrow> parser \<Rightarrow> (protocol_error + unit) \<times> parser" where
  "feed data p =
     (if length (buffer p) + length data > MAX_MESSAGE_SIZE
      then (Inl (MessageTooLarge (length (buffer p) + length data) MAX_MESSAGE_SIZE), p)
      else (Inr (), p\<lparr>buffer := buffer p @ data\<rparr>))"

subsection \<open>Tokens\<close>

definition skip_blanks :: "string \<Rightarrow> string" where
  "skip_blanks s = dropWhile (\<lambda>c. c = CHR '' '') s"

definition regular_token :: "string \<Rightarrow> string \<times> string" where
  "regular_token remaining =
     (let e = (case find_char (\<lambda>c. c = CHR '' '') remaining of Some e \<Rightarrow> e | None \<Rightarrow> length remaining)
      in (take e remaining, drop e remaining))"

definition next_token :: "string \<Rightarrow> (string \<times> string) option" where
  "next_token s =
     (case skip_blanks s of
        [] \<Rightarrow> None
      | c # r \<Rightarrow>
          if c = CHR ''\"''
          then (case find_char (\<lambda>c. c = CHR ''\"'') r of
              Some e \<Rightarrow> Some (take e r, drop (e + 1) r)
            | None \<Rightarrow> Some (regular_token (c # r)))
          else Some (regular_token (c # r)))"

definition rest :: "string \<Rightarrow> string option" where
  "rest s = (case skip_blanks s of [] \<Rightarrow> None | c # r \<Rightarrow> Some (c # r))"

lemma length_skip_blanks [shrink]: "length (skip_blanks s) \<le> length s"
  by (simp add: skip_blanks_def length_dropWhile_le)

lemma regular_token_shrinks:
  "c \<noteq> CHR '' '' \<Longrightarrow> regular_token (c # r) = (t, s) \<Longrightarrow> length s \<le> length r"
  by (auto simp: regular_token_def find_char_def Let_def split: option.splits if_splits)

lemma next_token_shrinks: "next_token s = Some (t, r) \<Longrightarrow> length r < length s"
proof -
  assume a: "next_token s = Some (t, r)"
  then obtain c u where cu: "skip_blanks s = c # u" by (auto simp: next_token_def split: list.splits)
  then have c: "c \<noteq> CHR '' ''" by (auto simp: skip_blanks_def dropWhile_eq_Cons_conv)
  have "length r \<le> length u"
    using a cu regular_token_shrinks [OF c]
    by (auto simp: next_token_def split: option.splits if_splits)
  also have "length u < length s" using length_skip_blanks [of s] cu by simp
  finally show "length r < length s" .
qed

interpretation tokens: scanner next_token
  by unfold_locales (rule next_token_shrinks)

subsection \<open>Values\<close>

fun json_to_value :: "json \<Rightarrow> protocol_error + val"
  and json_to_values :: "json list \<Rightarrow> protocol_error + val list"
  and json_to_entries :: "(string \<times> json) list \<Rightarrow> (string, val) fmap \<Rightarrow> protocol_error + (string, val) fmap" where
  "json_to_value JNull = Inr VNull"
| "json_to_value (JBool b) = Inr (VBool b)"
| "json_to_value (JNumber n) =
     (case num_as_i64 n of
        Some i \<Rightarrow> Inr (VNumber (NInteger i))
      | None \<Rightarrow>
          (case num_as_f64 n of
             Some f \<Rightarrow> Inr (VNumber (NFloat f))
           | None \<Rightarrow> Inl (InvalidArgument ''Invalid number'')))"
| "json_to_value (JString s) = Inr (VString s)"
| "json_to_value (JArray arr) = (case json_to_values arr of Inl e \<Rightarrow> Inl e | Inr vs \<Rightarrow> Inr (VArray vs))"
| "json_to_value (JObject obj) = (case json_to_entries obj fmempty of Inl e \<Rightarrow> Inl e | Inr m \<Rightarrow> Inr (VObject m))"
| "json_to_values [] = Inr []"
| "json_to_values (j # js) =
     (case json_to_value j of
        Inl e \<Rightarrow> Inl e
      | Inr v \<Rightarrow> (case json_to_values js of Inl e \<Rightarrow> Inl e | Inr vs \<Rightarrow> Inr (v # vs)))"
| "json_to_entries [] m = Inr m"
| "json_to_entries ((k, j) # es) m =
     (case json_to_value j of Inl e \<Rightarrow> Inl e | Inr v \<Rightarrow> json_to_entries es (fmupd k v m))"

type_synonym from_str = "string \<Rightarrow> string + json"

definition parse_value :: "from_str \<Rightarrow> string \<Rightarrow> protocol_error + val" where
  "parse_value from_str s =
     (case from_str (trim s) of Inr j \<Rightarrow> json_to_value j | Inl _ \<Rightarrow> Inr (VString (trim s)))"

subsection \<open>Arguments of the commands\<close>

text \<open>
  A missing token is the error \<open>MissingArgument\<close>; the rest of a function gets the token and the
  input after it.
\<close>

definition require :: "string \<Rightarrow> string \<Rightarrow> protocol_error + string \<times> string" where
  "require name s = (case next_token s of None \<Rightarrow> Inl (MissingArgument name) | Some (t, s') \<Rightarrow> Inr (t, s'))"

definition require_rest :: "string \<Rightarrow> string \<Rightarrow> protocol_error + string" where
  "require_rest name s = (case rest s of None \<Rightarrow> Inl (MissingArgument name) | Some t \<Rightarrow> Inr t)"

definition parse_auth :: "string \<Rightarrow> protocol_error + command" where
  "parse_auth s = (case require ''password'' s of Inl e \<Rightarrow> Inl e | Inr (password, s) \<Rightarrow> Inr (cmd_auth password))"

function create_options :: "string \<Rightarrow> strategy \<Rightarrow> u64 option \<Rightarrow> protocol_error + strategy \<times> u64 option" where
  "create_options s st t =
     (case next_token s of
        None \<Rightarrow> Inr (st, t)
      | Some (opt, s1) \<Rightarrow>
          if to_uppercase opt = ''STRATEGY'' then
            (case next_token s1 of
               None \<Rightarrow> Inl (MissingArgument ''strategy value'')
             | Some (v, s2) \<Rightarrow>
                 (case strategy_from_str v of
                    Inl _ \<Rightarrow> Inl (InvalidArgument (''Invalid strategy: '' @ v))
                  | Inr st' \<Rightarrow> create_options s2 st' t))
          else if to_uppercase opt = ''TTL'' then
            (case next_token s1 of
               None \<Rightarrow> Inl (MissingArgument ''ttl value'')
             | Some (v, s2) \<Rightarrow>
                 (case parse_u64 v of
                    None \<Rightarrow> Inl (InvalidArgument (''Invalid TTL: '' @ v))
                  | Some n \<Rightarrow> create_options s2 st (Some n)))
          else Inl (InvalidArgument (''Unknown option: '' @ opt)))"
  by pat_completeness auto
termination
  by (relation "measure (\<lambda>(s, st, t). length s)") (fastforce dest: next_token_shrinks intro: less_trans)+

declare create_options.simps [simp del]

definition parse_create :: "string \<Rightarrow> protocol_error + command" where
  "parse_create s =
     (case require ''document_id'' s of
        Inl e \<Rightarrow> Inl e
      | Inr (i, s) \<Rightarrow>
          (case create_options s strategy_default None of
             Inl e \<Rightarrow> Inl e
           | Inr (st, t) \<Rightarrow> Inr (cmd_create i st t)))"

function get_options :: "string \<Rightarrow> string option \<Rightarrow> protocol_error + string option" where
  "get_options s path =
     (case next_token s of
        None \<Rightarrow> Inr path
      | Some (opt, s1) \<Rightarrow>
          if to_uppercase opt = ''PATH'' then
            (case next_token s1 of
               None \<Rightarrow> Inl (MissingArgument ''path value'')
             | Some (v, s2) \<Rightarrow> get_options s2 (Some v))
          else get_options s1 (Some opt))"
  by pat_completeness auto
termination
  by (relation "measure (\<lambda>(s, path). length s)") (fastforce dest: next_token_shrinks intro: less_trans)+

declare get_options.simps [simp del]

definition parse_get :: "string \<Rightarrow> protocol_error + command" where
  "parse_get s =
     (case require ''document_id'' s of
        Inl e \<Rightarrow> Inl e
      | Inr (i, s) \<Rightarrow> (case get_options s None of Inl e \<Rightarrow> Inl e | Inr path \<Rightarrow> Inr (cmd_get i path)))"

definition parse_set :: "from_str \<Rightarrow> string \<Rightarrow> protocol_error + command" where
  "parse_set from_str s =
     (case require ''document_id'' s of
        Inl e \<Rightarrow> Inl e
      | Inr (i, s) \<Rightarrow>
          (case require ''path'' s of
             Inl e \<Rightarrow> Inl e
           | Inr (path, s) \<Rightarrow>
               (case require_rest ''value'' s of
                  Inl e \<Rightarrow> Inl e
                | Inr value_str \<Rightarrow>
                    (case parse_value from_str value_str of
                       Inl e \<Rightarrow> Inl e
                     | Inr x \<Rightarrow> Inr (cmd_set i path x)))))"

definition parse_delete :: "string \<Rightarrow> protocol_error + command" where
  "parse_delete s =
     (case require ''document_id'' s of
        Inl e \<Rightarrow> Inl e
      | Inr (i, s) \<Rightarrow>
          (case next_token s of
             None \<Rightarrow> Inr (cmd_delete i None)
           | Some (opt, s) \<Rightarrow>
               if to_uppercase opt = ''PATH''
               then (case require ''path value'' s of
                   Inl e \<Rightarrow> Inl e
                 | Inr (path, s) \<Rightarrow> Inr (cmd_delete i (Some path)))
               else Inr (cmd_delete i (Some opt))))"

function subscribe_options :: "string \<Rightarrow> string option \<Rightarrow> protocol_error + string option" where
  "subscribe_options s path =
     (case next_token s of
        None \<Rightarrow> Inr path
      | Some (opt, s1) \<Rightarrow>
          if to_uppercase opt = ''PATH'' then
            (case next_token s1 of
               None \<Rightarrow> Inl (MissingArgument ''path value'')
             | Some (v, s2) \<Rightarrow> subscribe_options s2 (Some v))
          else Inl (InvalidArgument (''Unknown option: '' @ opt)))"
  by pat_completeness auto
termination
  by (relation "measure (\<lambda>(s, path). length s)") (fastforce dest: next_token_shrinks intro: less_trans)+

declare subscribe_options.simps [simp del]

definition parse_subscribe :: "string \<Rightarrow> protocol_error + command" where
  "parse_subscribe s =
     (case require ''pattern'' s of
        Inl e \<Rightarrow> Inl e
      | Inr (pattern, s) \<Rightarrow>
          (case subscribe_options s None of Inl e \<Rightarrow> Inl e | Inr path \<Rightarrow> Inr (cmd_subscribe pattern path)))"

definition parse_unsubscribe :: "string \<Rightarrow> protocol_error + command" where
  "parse_unsubscribe s =
     (case require ''pattern'' s of Inl e \<Rightarrow> Inl e | Inr (pattern, s) \<Rightarrow> Inr (cmd_unsubscribe pattern))"

definition parse_push :: "from_str \<Rightarrow> string \<Rightarrow> protocol_error + command" where
  "parse_push from_str s =
     (case require ''document_id'' s of
        Inl e \<Rightarrow> Inl e
      | Inr (i, s) \<Rightarrow>
          (case require ''path'' s of
             Inl e \<Rightarrow> Inl e
           | Inr (path, s) \<Rightarrow>
               (case require_rest ''value'' s of
                  Inl e \<Rightarrow> Inl e
                | Inr value_str \<Rightarrow>
                    (case parse_value from_str value_str of
                       Inl e \<Rightarrow> Inl e
                     | Inr x \<Rightarrow> Inr (cmd_push i path x)))))"

definition parse_increment :: "string \<Rightarrow> protocol_error + command" where
  "parse_increment s =
     (case require ''document_id'' s of
        Inl e \<Rightarrow> Inl e
      | Inr (i, s) \<Rightarrow>
          (case require ''path'' s of
             Inl e \<Rightarrow> Inl e
           | Inr (path, s) \<Rightarrow>
               let delta_str = (case next_token s of Some (t, s) \<Rightarrow> t | None \<Rightarrow> ''1'')
               in (case parse_i64 delta_str of
                     None \<Rightarrow> Inl (InvalidArgument (''Invalid delta: '' @ delta_str))
                   | Some delta \<Rightarrow> Inr (cmd_increment i path delta))))"

text \<open>
  The loop over the options of PRESENCE: DATA takes the whole rest of the line, so the loop ends
  after it; any other word ends the loop at once.
\<close>

definition parse_presence :: "from_str \<Rightarrow> string \<Rightarrow> protocol_error + command" where
  "parse_presence from_str s =
     (case require ''document_id'' s of
        Inl e \<Rightarrow> Inl e
      | Inr (i, s) \<Rightarrow>
          (case next_token s of
             None \<Rightarrow> Inr (cmd_presence i None)
           | Some (opt, s) \<Rightarrow>
               if to_uppercase opt = ''DATA''
               then (case require_rest ''data value'' s of
                   Inl e \<Rightarrow> Inl e
                 | Inr json_str \<Rightarrow>
                     (case from_str json_str of
                        Inl e \<Rightarrow> Inl (InvalidJson e)
                      | Inr j \<Rightarrow> Inr (cmd_presence i (Some j))))
               else
                 let json_str = opt @ '' '' @ (case rest s of Some r \<Rightarrow> r | None \<Rightarrow> [])
                 in (case from_str (trim json_str) of
                       Inl e \<Rightarrow> Inl (InvalidJson e)
                     | Inr j \<Rightarrow> Inr (cmd_presence i (Some j)))))"

definition parse_keys :: "string \<Rightarrow> protocol_error + command" where
  "parse_keys s = Inr (cmd_keys (map_option fst (next_token s)))"

definition parse_compact :: "string \<Rightarrow> protocol_error + command" where
  "parse_compact s = (case require ''document_id'' s of Inl e \<Rightarrow> Inl e | Inr (i, s) \<Rightarrow> Inr (cmd_compact i))"

definition parse_expire :: "string \<Rightarrow> protocol_error + command" where
  "parse_expire s =
     (case require ''document_id'' s of
        Inl e \<Rightarrow> Inl e
      | Inr (i, s) \<Rightarrow>
          (case require ''ttl_ms'' s of
             Inl e \<Rightarrow> Inl e
           | Inr (ttl_str, s) \<Rightarrow>
               (case parse_u64 ttl_str of
                  None \<Rightarrow> Inl (InvalidArgument (''Invalid TTL: '' @ ttl_str))
                | Some ttl_ms \<Rightarrow> Inr (cmd_expire i ttl_ms))))"

definition parse_ttl :: "string \<Rightarrow> protocol_error + command" where
  "parse_ttl s = (case require ''document_id'' s of Inl e \<Rightarrow> Inl e | Inr (i, s) \<Rightarrow> Inr (cmd_ttl i))"

definition parse_restore :: "from_str \<Rightarrow> string \<Rightarrow> protocol_error + command" where
  "parse_restore from_str s =
     (case require_rest ''json_data'' s of
        Inl e \<Rightarrow> Inl e
      | Inr r \<Rightarrow>
          (case from_str (trim r) of
             Inl e \<Rightarrow> Inl (InvalidJson e)
           | Inr _ \<Rightarrow> Inr (cmd_restore (trim r))))"

subsection \<open>A line and the buffer\<close>

definition parse_command :: "from_str \<Rightarrow> string \<Rightarrow> string \<Rightarrow> protocol_error + command" where
  "parse_command from_str cmd s =
     (if cmd = ''AUTH'' then parse_auth s
      else if cmd = ''CREATE'' then parse_create s
      else if cmd = ''GET'' then parse_get s
      else if cmd = ''SET'' then parse_set from_str s
      else if cmd \<in> {''DEL'', ''DELETE''} then parse_delete s
      else if cmd \<in> {''SUB'', ''SUBSCRIBE''} then parse_subscribe s
      else if cmd \<in> {''UNSUB'', ''UNSUBSCRIBE''} then parse_unsubscribe s
      else if cmd = ''PUSH'' then parse_push from_str s
      else if cmd \<in> {''INC'', ''INCR'', ''INCREMENT''} then parse_increment s
      else if cmd = ''PRESENCE'' then parse_presence from_str s
      else if cmd = ''PING'' then Inr cmd_ping
      else if cmd = ''QUIT'' then Inr cmd_quit
      else if cmd = ''INFO'' then Inr cmd_info
      else if cmd = ''KEYS'' then parse_keys s
      else if cmd = ''COMPACT'' then parse_compact s
      else if cmd = ''EXPIRE'' then parse_expire s
      else if cmd = ''TTL'' then parse_ttl s
      else if cmd = ''BACKUP'' then Inr cmd_backup
      else if cmd = ''RESTORE'' then parse_restore from_str s
      else Inl (InvalidCommand (''Unknown command: '' @ cmd)))"

definition parse_line :: "from_str \<Rightarrow> string \<Rightarrow> protocol_error + command" where
  "parse_line from_str ln =
     (let l = trim ln in
      if l = [] then Inl (InvalidCommand ''Empty command'')
      else (case next_token l of
          None \<Rightarrow> Inl (InvalidCommand ''Empty command'')
        | Some (t, s) \<Rightarrow> parse_command from_str (to_uppercase t) s))"

definition parse :: "from_str \<Rightarrow> parser \<Rightarrow> (protocol_error + command option) \<times> parser" where
  "parse from_str p =
     (case find_char (\<lambda>c. c = CHR 0x0A) (buffer p) of
        None \<Rightarrow> (Inr None, p)
      | Some line_end \<Rightarrow>
          let line_len = (if line_end > 0 \<and> buffer p ! (line_end - 1) = CHR 0x0D then line_end - 1 else line_end);
              ln = from_utf8_lossy (take line_len (buffer p));
              p' = p\<lparr>buffer := drop (line_end + 1) (buffer p)\<rparr>
          in (case parse_line from_str ln of
                Inl e \<Rightarrow> (Inl e, p')
              | Inr c \<Rightarrow> (Inr (Some c), p')))"

end
