(* ===== verification/ParserLaws.thy ===== *)
theory ParserLaws imports Parser begin

section \<open>What the command parser guarantees\<close>

text \<open>
  The buffer is bounded and a command does not depend on how its bytes were cut into pieces; a
  rendered command parses back; an error message fits on one line.
\<close>

abbreviation CR :: char where "CR \<equiv> CHR 0x0D"

subsection \<open>The buffer\<close>

definition strip_cr :: "bytes \<Rightarrow> bytes" where
  "strip_cr ln = (if ln \<noteq> [] \<and> last ln = CR then butlast ln else ln)"

lemma parse_incomplete: "LF \<notin> set (buffer p) \<Longrightarrow> parse from_str p = (Inr None, p)"
  by (auto simp: parse_def find_char_def list_ex_iff)

lemma parse_complete:
  assumes "buffer p = ln @ LF # later" and "LF \<notin> set ln"
  shows "parse from_str p =
    (case parse_line from_str (from_utf8_lossy (strip_cr ln)) of Inl e \<Rightarrow> Inl e | Inr c \<Rightarrow> Inr (Some c),
     p\<lparr>buffer := later\<rparr>)"
proof -
  have f: "find_char (\<lambda>c. c = LF) (ln @ LF # later) = Some (length ln)"
    using assms(2) by (intro find_char_append) auto
  have t: "take (if length ln > 0 \<and> (ln @ LF # later) ! (length ln - 1) = CR then length ln - 1 else length ln)
      (ln @ LF # later) = strip_cr ln"
    by (cases ln rule: rev_cases) (auto simp: strip_cr_def nth_append)
  show ?thesis
    unfolding parse_def assms(1) f option.case Let_def t by (simp split: sum.split)
qed

inductive parser_step :: "from_str \<Rightarrow> parser \<Rightarrow> parser \<Rightarrow> bool" for from_str where
  feed: "feed data p = (r, p') \<Longrightarrow> parser_step from_str p p'"
| parse: "parse from_str p = (r', p') \<Longrightarrow> parser_step from_str p p'"

definition parser_ok :: "parser \<Rightarrow> bool" where
  "parser_ok p \<longleftrightarrow> length (buffer p) \<le> MAX_MESSAGE_SIZE"

lemma parse_shrinks: "parse from_str p = (r, p') \<Longrightarrow> length (buffer p') \<le> length (buffer p)"
  by (auto simp: parse_def Let_def split: option.splits sum.splits)

interpretation parser: invariant_system "parser_step from_str" parser_ok for from_str
  by unfold_locales
    (auto simp: parser_ok_def feed_def dest!: parse_shrinks elim!: parser_step.cases split: if_splits)

text \<open>
  The parser never holds later than \<open>MAX_MESSAGE_SIZE\<close> bytes: from an empty buffer, whatever is
  fed and parsed, the buffer stays within the limit; data that would exceed it is refused as a
  whole and leaves the buffer as it was.
\<close>

theorem parser_buffer_bounded:
  assumes "(parser_step from_str)\<^sup>*\<^sup>* parser_new p"
  shows "length (buffer p) \<le> MAX_MESSAGE_SIZE \<and>
    (case feed data p of
       (Inr _, p') \<Rightarrow> buffer p' = buffer p @ data
     | (Inl e, p') \<Rightarrow> p' = p \<and> e = MessageTooLarge (length (buffer p) + length data) MAX_MESSAGE_SIZE \<and>
         length (buffer p) + length data > MAX_MESSAGE_SIZE)"
proof -
  have "parser_ok parser_new" by (simp add: parser_ok_def parser_new_def)
  from parser.run_inv [OF assms this] show ?thesis by (auto simp: parser_ok_def feed_def)
qed

lemma parser_buffer_bounded_witness:
  "feed ''ab'' \<lparr>buffer = ''PI''\<rparr> = (Inr (), \<lparr>buffer = ''PIab''\<rparr>) \<and> length (buffer \<lparr>buffer = ''PI''\<rparr>) \<le> MAX_MESSAGE_SIZE"
proof -
  have f: "feed ''PI'' parser_new = (Inr (), \<lparr>buffer = ''PI''\<rparr>)" "feed ''ab'' \<lparr>buffer = ''PI''\<rparr> = (Inr (), \<lparr>buffer = ''PIab''\<rparr>)"
    by (simp_all add: feed_def parser_new_def MAX_MESSAGE_SIZE_def)
  then have "(parser_step (\<lambda>s. Inl []))\<^sup>*\<^sup>* parser_new \<lparr>buffer = ''PI''\<rparr>" by (auto intro: parser_step.feed)
  from parser_buffer_bounded [OF this, of "''ab''"] f show ?thesis by simp
qed

subsection \<open>Cutting the stream\<close>

lemma parse_result_shrinks:
  "parse from_str p = (r, p') \<Longrightarrow> r \<noteq> Inr None \<Longrightarrow> length (buffer p') < length (buffer p)"
  by (auto simp: parse_def Let_def dest: find_char_Some(1) split: option.splits sum.splits)

text \<open>
  A reader that polls the parser until it reports an incomplete command: the results of all the
  commands in the buffer, and the parser left.
\<close>

function drain :: "from_str \<Rightarrow> parser \<Rightarrow> (protocol_error + command) list \<times> parser" where
  "drain from_str p =
     (case parse from_str p of
        (Inr None, p') \<Rightarrow> ([], p')
      | (Inr (Some c), p') \<Rightarrow> (case drain from_str p' of (rs, q) \<Rightarrow> (Inr c # rs, q))
      | (Inl e, p') \<Rightarrow> (case drain from_str p' of (rs, q) \<Rightarrow> (Inl e # rs, q)))"
  by pat_completeness auto

termination
  by (relation "measure (\<lambda>(from_str, p). length (buffer p))") (auto dest!: parse_result_shrinks [OF sym])

declare drain.simps [simp del]

lemma drain_incomplete: "LF \<notin> set (buffer p) \<Longrightarrow> drain from_str p = ([], p)"
  by (simp add: drain.simps [of from_str p] parse_incomplete)

lemma drain_complete:
  assumes "LF \<notin> set ln"
  shows "drain from_str (p\<lparr>buffer := ln @ LF # later\<rparr>) =
    (parse_line from_str (from_utf8_lossy (strip_cr ln)) # fst (drain from_str (p\<lparr>buffer := later\<rparr>)),
     snd (drain from_str (p\<lparr>buffer := later\<rparr>)))"
  using parse_complete [of "p\<lparr>buffer := ln @ LF # later\<rparr>" ln later from_str] assms
  by (subst drain.simps) (simp add: case_prod_beta split: sum.split)

lemma lines_induct [case_names incomplete complete]:
  assumes "\<And>s. LF \<notin> set s \<Longrightarrow> P s"
    and "\<And>ln later. LF \<notin> set ln \<Longrightarrow> P later \<Longrightarrow> P (ln @ LF # later)"
  shows "P s"
proof (induction s rule: length_induct)
  case (1 s)
  show ?case
  proof (cases "LF \<in> set s")
    case True
    then obtain ln later where "s = ln @ LF # later" "LF \<notin> set ln" by (metis split_list_first)
    with 1 show ?thesis by (auto intro!: assms(2))
  qed (rule assms(1))
qed

lemma drain_append:
  "drain from_str (p\<lparr>buffer := s @ t\<rparr>) =
    (let (rs, q) = drain from_str (p\<lparr>buffer := s\<rparr>);
         (rs', q') = drain from_str (q\<lparr>buffer := buffer q @ t\<rparr>)
     in (rs @ rs', q'))"
proof (induction s rule: lines_induct)
  case (incomplete s)
  then show ?case by (simp add: drain_incomplete case_prod_beta)
next
  case (complete ln later)
  then show ?case by (simp add: drain_complete Let_def case_prod_beta)
qed

text \<open>
  C22. What a client sends means the same however the network cuts it: the results of parsing
  after each of two pieces are together those of parsing both pieces at once, and the parser is
  left the same.
\<close>

theorem commands_survive_chunking:
  assumes "feed s p = (Inr (), p1)" and "drain from_str p1 = (rs, p2)"
    and "feed t p2 = (Inr (), p3)" and "drain from_str p3 = (rs', p4)"
    and "feed (s @ t) p = (Inr (), q)"
  shows "drain from_str q = (rs @ rs', p4)"
proof -
  have "p1 = p\<lparr>buffer := buffer p @ s\<rparr>" "p3 = p2\<lparr>buffer := buffer p2 @ t\<rparr>" "q = p\<lparr>buffer := (buffer p @ s) @ t\<rparr>"
    using assms(1,3,5) by (auto simp: feed_def split: if_splits)
  with assms(2,4) drain_append [of from_str "buffer p @ s" t p] show ?thesis by simp
qed

lemma commands_survive_chunking_witness:
  "drain (\<lambda>s. Inl []) \<lparr>buffer = ''PI'' @ ''NG'' @ [LF]\<rparr> = ([Inr cmd_ping], \<lparr>buffer = []\<rparr>)"
proof -
  let ?f = "\<lambda>s. Inl [] :: string + json"
  have ping: "parse_line ?f ''PING'' = Inr cmd_ping"
    by (simp add: parse_line_def trim_idle byte_def next_token_def skip_blanks_def regular_token_def find_char_def
        to_uppercase_ascii upper_char_def parse_command_def)
  have "drain ?f (\<lparr>buffer = []\<rparr>\<lparr>buffer := ''PING'' @ [LF]\<rparr>) = ([Inr cmd_ping], \<lparr>buffer = []\<rparr>)"
    by (subst drain_complete) (simp_all add: drain_incomplete strip_cr_def ping byte_def utf8_chunk_ascii)
  then have d: "drain ?f \<lparr>buffer = ''PING'' @ [LF]\<rparr> = ([Inr cmd_ping], \<lparr>buffer = []\<rparr>)" by simp
  have "drain ?f \<lparr>buffer = ''PI'' @ (''NG'' @ [LF])\<rparr> = ([] @ [Inr cmd_ping], \<lparr>buffer = []\<rparr>)"
  proof (rule commands_survive_chunking [of "''PI''" "\<lparr>buffer = []\<rparr>" "\<lparr>buffer = ''PI''\<rparr>" _ _ _ "''NG'' @ [LF]"])
    show "drain ?f \<lparr>buffer = ''PI''\<rparr> = ([], \<lparr>buffer = ''PI''\<rparr>)" by (rule drain_incomplete) simp
    show "drain ?f \<lparr>buffer = ''PI'' @ ''NG'' @ [LF]\<rparr> = ([Inr cmd_ping], \<lparr>buffer = []\<rparr>)" using d by simp
  qed (simp_all add: feed_def MAX_MESSAGE_SIZE_def)
  then show ?thesis by simp
qed

subsection \<open>Rendered commands\<close>

text \<open>
  A client writes a command as a keyword and arguments, each after a blank; identifiers, paths,
  patterns and passwords in quotes, numbers, strategies and JSON text as they are. \<open>jtxt\<close> prints
  a JSON value and \<open>vtxt\<close> a document value.
\<close>

definition arg :: "string \<Rightarrow> string \<Rightarrow> string" where
  "arg w s = CHR '' '' # w @ s"

definition quoted :: "string \<Rightarrow> string" where
  "quoted t = CHR ''\"'' # t @ ''\"''"

definition path_arg :: "string option \<Rightarrow> string" where
  "path_arg path = (case path of None \<Rightarrow> [] | Some p \<Rightarrow> arg ''PATH'' (arg (quoted p) []))"

fun render_args :: "(json \<Rightarrow> string) \<Rightarrow> (val \<Rightarrow> string) \<Rightarrow> command_kind \<Rightarrow> string option \<Rightarrow> string \<times> string" where
  "render_args jtxt vtxt (Auth p) i = (''AUTH'', arg (quoted p) [])"
| "render_args jtxt vtxt (Create st t) i = (''CREATE'', arg (quoted (the i)) (arg ''STRATEGY'' (arg (strategy_name st)
     (case t of None \<Rightarrow> [] | Some n \<Rightarrow> arg ''TTL'' (arg (show_u64 n) [])))))"
| "render_args jtxt vtxt (Get path) i = (''GET'', arg (quoted (the i)) (path_arg path))"
| "render_args jtxt vtxt (Set path x) i = (''SET'', arg (quoted (the i)) (arg (quoted path) (arg (vtxt x) [])))"
| "render_args jtxt vtxt (Delete path) i = (''DEL'', arg (quoted (the i)) (path_arg path))"
| "render_args jtxt vtxt (Subscribe pattern path) i = (''SUB'', arg (quoted pattern) (path_arg path))"
| "render_args jtxt vtxt (Unsubscribe pattern) i = (''UNSUB'', arg (quoted pattern) [])"
| "render_args jtxt vtxt (Push path x) i = (''PUSH'', arg (quoted (the i)) (arg (quoted path) (arg (vtxt x) [])))"
| "render_args jtxt vtxt (Increment path n) i = (''INC'', arg (quoted (the i)) (arg (quoted path) (arg (show_i64 n) [])))"
| "render_args jtxt vtxt (Presence data) i = (''PRESENCE'', arg (quoted (the i))
     (case data of None \<Rightarrow> [] | Some j \<Rightarrow> arg ''DATA'' (arg (jtxt j) [])))"
| "render_args jtxt vtxt Ping i = (''PING'', [])"
| "render_args jtxt vtxt Quit i = (''QUIT'', [])"
| "render_args jtxt vtxt Info i = (''INFO'', [])"
| "render_args jtxt vtxt (Keys pattern) i = (''KEYS'', case pattern of None \<Rightarrow> [] | Some p \<Rightarrow> arg (quoted p) [])"
| "render_args jtxt vtxt Compact i = (''COMPACT'', arg (quoted (the i)) [])"
| "render_args jtxt vtxt (Expire n) i = (''EXPIRE'', arg (quoted (the i)) (arg (show_u64 n) []))"
| "render_args jtxt vtxt Ttl i = (''TTL'', arg (quoted (the i)) [])"
| "render_args jtxt vtxt Backup i = (''BACKUP'', [])"
| "render_args jtxt vtxt (Restore data) i = (''RESTORE'', arg data [])"

definition render_command :: "(json \<Rightarrow> string) \<Rightarrow> (val \<Rightarrow> string) \<Rightarrow> command \<Rightarrow> string" where
  "render_command jtxt vtxt c = (let (w, s) = render_args jtxt vtxt (cmd_kind c) (cmd_document_id c) in w @ s)"

text \<open>
  What can be written: a quoted argument has no quote and no line break; a text argument starts and
  ends with a visible ASCII character and has no line break; both are UTF-8. The identifier of the
  command is there exactly if the kind takes one.
\<close>

definition token_ok :: "string \<Rightarrow> bool" where
  "token_ok t \<longleftrightarrow> CHR ''\"'' \<notin> set t \<and> LF \<notin> set t \<and> valid_utf8 t"

definition visible :: "char \<Rightarrow> bool" where
  "visible c \<longleftrightarrow> 32 < byte c \<and> byte c < 128"

definition text_ok :: "string \<Rightarrow> bool" where
  "text_ok t \<longleftrightarrow> t \<noteq> [] \<and> visible (hd t) \<and> visible (last t) \<and> LF \<notin> set t \<and> valid_utf8 t"

definition value_ok :: "from_str \<Rightarrow> (val \<Rightarrow> string) \<Rightarrow> val \<Rightarrow> bool" where
  "value_ok from_str vtxt x \<longleftrightarrow> text_ok (vtxt x) \<and> parse_value from_str (vtxt x) = Inr x"

definition json_ok :: "from_str \<Rightarrow> (json \<Rightarrow> string) \<Rightarrow> json \<Rightarrow> bool" where
  "json_ok from_str jtxt j \<longleftrightarrow> text_ok (jtxt j) \<and> from_str (jtxt j) = Inr j"

fun kind_ok :: "from_str \<Rightarrow> (json \<Rightarrow> string) \<Rightarrow> (val \<Rightarrow> string) \<Rightarrow> command_kind \<Rightarrow> bool" where
  "kind_ok from_str jtxt vtxt (Auth p) = token_ok p"
| "kind_ok from_str jtxt vtxt (Get path) = pred_option token_ok path"
| "kind_ok from_str jtxt vtxt (Set path x) = (token_ok path \<and> value_ok from_str vtxt x)"
| "kind_ok from_str jtxt vtxt (Delete path) = pred_option token_ok path"
| "kind_ok from_str jtxt vtxt (Subscribe pattern path) = (token_ok pattern \<and> pred_option token_ok path)"
| "kind_ok from_str jtxt vtxt (Unsubscribe pattern) = token_ok pattern"
| "kind_ok from_str jtxt vtxt (Push path x) = (token_ok path \<and> value_ok from_str vtxt x)"
| "kind_ok from_str jtxt vtxt (Increment path n) = token_ok path"
| "kind_ok from_str jtxt vtxt (Presence data) = pred_option (json_ok from_str jtxt) data"
| "kind_ok from_str jtxt vtxt (Keys pattern) = pred_option token_ok pattern"
| "kind_ok from_str jtxt vtxt (Restore data) = (text_ok data \<and> (\<exists>j. from_str data = Inr j))"
| "kind_ok from_str jtxt vtxt k = True"

fun id_ok :: "command_kind \<Rightarrow> string option \<Rightarrow> bool" where
  "id_ok (Subscribe pattern path) i = (i = Some pattern)"
| "id_ok (Unsubscribe pattern) i = (i = Some pattern)"
| "id_ok (Auth p) i = (i = None)"
| "id_ok Ping i = (i = None)"
| "id_ok Quit i = (i = None)"
| "id_ok Info i = (i = None)"
| "id_ok (Keys pattern) i = (i = None)"
| "id_ok Backup i = (i = None)"
| "id_ok (Restore data) i = (i = None)"
| "id_ok k i = (case i of None \<Rightarrow> False | Some s \<Rightarrow> token_ok s)"

definition command_ok :: "from_str \<Rightarrow> (json \<Rightarrow> string) \<Rightarrow> (val \<Rightarrow> string) \<Rightarrow> command \<Rightarrow> bool" where
  "command_ok from_str jtxt vtxt c \<longleftrightarrow>
     kind_ok from_str jtxt vtxt (cmd_kind c) \<and> id_ok (cmd_kind c) (cmd_document_id c)"

definition plain :: "string \<Rightarrow> bool" where
  "plain w \<longleftrightarrow> w \<noteq> [] \<and> list_all visible w \<and> hd w \<noteq> CHR ''\"''"

definition at_blank :: "string \<Rightarrow> bool" where
  "at_blank s \<longleftrightarrow> s = [] \<or> hd s = CHR '' ''"

lemma at_blank_simps [simp]: "at_blank []" "at_blank (arg w s)"
  by (simp_all add: at_blank_def arg_def)

lemma visible_not_blank: "visible c \<Longrightarrow> c \<noteq> CHR '' '' \<and> c \<noteq> LF"
  by (auto simp: visible_def byte_def)

lemma next_token_Nil [simp]: "next_token [] = None"
  by (simp add: next_token_def skip_blanks_def)

lemma next_token_plain:
  assumes "plain w" and "at_blank s"
  shows "next_token (w @ s) = Some (w, s)"
proof -
  obtain c u where w: "w = c # u" using assms(1) by (cases w) (auto simp: plain_def)
  have v: "\<forall>x\<in>set w. x \<noteq> CHR '' ''" using assms(1) visible_not_blank by (auto simp: plain_def list_all_iff)
  have "regular_token (w @ s) = (w, s)"
  proof (cases s)
    case Nil
    then show ?thesis using v by (simp add: regular_token_def find_char_def list_ex_iff)
  next
    case (Cons b r)
    then have "find_char (\<lambda>c. c = CHR '' '') (w @ s) = Some (length w)"
      using v assms(2) by (auto simp: at_blank_def intro!: find_char_append)
    then show ?thesis by (simp add: regular_token_def)
  qed
  with w v assms(1) show ?thesis by (simp add: next_token_def skip_blanks_def plain_def)
qed

lemma next_token_arg [simp]: "plain w \<Longrightarrow> at_blank s \<Longrightarrow> next_token (arg w s) = Some (w, s)"
  using next_token_plain [of w s] by (simp add: arg_def next_token_def skip_blanks_def)

lemma next_token_quoted [simp]: "token_ok t \<Longrightarrow> next_token (arg (quoted t) s) = Some (t, s)"
proof -
  assume "token_ok t"
  then have "find_char (\<lambda>c. c = CHR ''\"'') (t @ CHR ''\"'' # s) = Some (length t)"
    by (intro find_char_append) (auto simp: token_ok_def)
  then show ?thesis by (simp add: arg_def next_token_def skip_blanks_def quoted_def)
qed

lemma rest_text [simp]: "text_ok t \<Longrightarrow> rest (arg t []) = Some t"
  by (cases t) (auto simp: rest_def arg_def skip_blanks_def text_ok_def visible_def byte_def)

lemma trim_text [simp]: "text_ok t \<Longrightarrow> trim t = t"
  by (auto simp: text_ok_def visible_def intro: trim_idle)

lemma parse_value_text [simp]: "value_ok from_str vtxt x \<Longrightarrow> parse_value from_str (vtxt x) = Inr x"
  by (simp add: value_ok_def)

lemma require_arg [simp]:
  "plain w \<Longrightarrow> at_blank s \<Longrightarrow> require name (arg w s) = Inr (w, s)"
  "token_ok t \<Longrightarrow> require name (arg (quoted t) s) = Inr (t, s)"
  by (simp_all add: require_def)

lemma require_rest_text [simp]: "text_ok t \<Longrightarrow> require_rest name (arg t []) = Inr t"
  by (simp add: require_rest_def)

lemma plain_keywords [simp]:
  "plain ''AUTH''" "plain ''CREATE''" "plain ''GET''" "plain ''SET''" "plain ''DEL''" "plain ''SUB''"
  "plain ''UNSUB''" "plain ''PUSH''" "plain ''INC''" "plain ''PRESENCE''" "plain ''PING''" "plain ''QUIT''"
  "plain ''INFO''" "plain ''KEYS''" "plain ''COMPACT''" "plain ''EXPIRE''" "plain ''TTL''" "plain ''BACKUP''"
  "plain ''RESTORE''" "plain ''STRATEGY''" "plain ''PATH''" "plain ''DATA''"
  by (simp_all add: plain_def visible_def byte_def)

lemma plain_digits: "w \<noteq> [] \<Longrightarrow> list_all is_digit w \<Longrightarrow> plain w"
  by (cases w) (auto simp: plain_def visible_def is_digit_def list_all_iff byte_def)

lemma plain_show_nat [simp]: "plain (show_nat n)"
  using show_nat_digits [of n] by (intro plain_digits) auto

lemma plain_show_u64 [simp]: "plain (show_u64 n)"
  by (simp add: show_u64_def)

lemma plain_show_i64 [simp]: "plain (show_i64 n)"
  using plain_show_nat by (auto simp: show_i64_def plain_def visible_def byte_def)

lemma plain_strategy_name [simp]: "plain (strategy_name st)"
  by (cases st) (simp_all add: plain_def visible_def byte_def)

lemma upper_keywords [simp]:
  "to_uppercase ''AUTH'' = ''AUTH''"
  "to_uppercase ''CREATE'' = ''CREATE''"
  "to_uppercase ''GET'' = ''GET''"
  "to_uppercase ''SET'' = ''SET''"
  "to_uppercase ''DEL'' = ''DEL''"
  "to_uppercase ''SUB'' = ''SUB''"
  "to_uppercase ''UNSUB'' = ''UNSUB''"
  "to_uppercase ''PUSH'' = ''PUSH''"
  "to_uppercase ''INC'' = ''INC''"
  "to_uppercase ''PRESENCE'' = ''PRESENCE''"
  "to_uppercase ''PING'' = ''PING''"
  "to_uppercase ''QUIT'' = ''QUIT''"
  "to_uppercase ''INFO'' = ''INFO''"
  "to_uppercase ''KEYS'' = ''KEYS''"
  "to_uppercase ''COMPACT'' = ''COMPACT''"
  "to_uppercase ''EXPIRE'' = ''EXPIRE''"
  "to_uppercase ''TTL'' = ''TTL''"
  "to_uppercase ''BACKUP'' = ''BACKUP''"
  "to_uppercase ''RESTORE'' = ''RESTORE''"
  "to_uppercase ''STRATEGY'' = ''STRATEGY''"
  "to_uppercase ''PATH'' = ''PATH''"
  "to_uppercase ''DATA'' = ''DATA''"
  by (simp_all add: to_uppercase_ascii upper_char_def byte_def)

lemma parse_command_simps [simp]:
  "parse_command from_str ''AUTH'' s = parse_auth s"
  "parse_command from_str ''CREATE'' s = parse_create s"
  "parse_command from_str ''GET'' s = parse_get s"
  "parse_command from_str ''SET'' s = parse_set from_str s"
  "parse_command from_str ''DEL'' s = parse_delete s"
  "parse_command from_str ''SUB'' s = parse_subscribe s"
  "parse_command from_str ''UNSUB'' s = parse_unsubscribe s"
  "parse_command from_str ''PUSH'' s = parse_push from_str s"
  "parse_command from_str ''INC'' s = parse_increment s"
  "parse_command from_str ''PRESENCE'' s = parse_presence from_str s"
  "parse_command from_str ''PING'' s = Inr cmd_ping"
  "parse_command from_str ''QUIT'' s = Inr cmd_quit"
  "parse_command from_str ''INFO'' s = Inr cmd_info"
  "parse_command from_str ''KEYS'' s = parse_keys s"
  "parse_command from_str ''COMPACT'' s = parse_compact s"
  "parse_command from_str ''EXPIRE'' s = parse_expire s"
  "parse_command from_str ''TTL'' s = parse_ttl s"
  "parse_command from_str ''BACKUP'' s = Inr cmd_backup"
  "parse_command from_str ''RESTORE'' s = parse_restore from_str s"
  by (simp_all add: parse_command_def)

definition line_ok :: "string \<Rightarrow> bool" where
  "line_ok s \<longleftrightarrow> LF \<notin> set s \<and> valid_utf8 s"

lemma line_ok_Nil [simp]: "line_ok []"
  by (simp add: line_ok_def)

lemma line_ok_append [simp]: "line_ok s \<Longrightarrow> line_ok (s @ t) = line_ok t"
  by (simp add: line_ok_def valid_utf8_append)

lemma line_ok_arg [simp]: "line_ok w \<Longrightarrow> line_ok (arg w s) = line_ok s"
proof -
  have "line_ok ('' '' :: string)" by (simp add: line_ok_def utf8_chunk_ascii byte_def)
  moreover assume "line_ok w"
  ultimately show ?thesis using line_ok_append [of "'' ''" "w @ s"] by (simp add: arg_def)
qed

lemma line_ok_plain [simp]: "plain w \<Longrightarrow> line_ok w"
proof -
  assume "plain w"
  then have "ascii w" by (auto simp: plain_def visible_def list_all_iff)
  moreover have "LF \<notin> set w" using \<open>plain w\<close> visible_not_blank by (auto simp: plain_def list_all_iff)
  ultimately show ?thesis by (simp add: line_ok_def ascii_valid_utf8)
qed

lemma line_ok_quoted [simp]: "token_ok t \<Longrightarrow> line_ok (quoted t)"
proof -
  have q: "line_ok ''\"''" by (simp add: line_ok_def utf8_chunk_ascii byte_def)
  assume "token_ok t"
  then have "line_ok t" by (simp add: line_ok_def token_ok_def)
  with q show ?thesis using line_ok_append [OF q, of "t @ ''\"''"] by (simp add: quoted_def)
qed

lemma line_ok_text [simp]: "text_ok t \<Longrightarrow> line_ok t"
  by (simp add: line_ok_def text_ok_def)

definition ends_ok :: "string \<Rightarrow> bool" where
  "ends_ok s \<longleftrightarrow> s \<noteq> [] \<and> visible (last s)"

lemma ends_ok_arg [simp]:
  "ends_ok w \<Longrightarrow> ends_ok (arg w [])" "ends_ok (arg w (arg w' s)) = ends_ok (arg w' s)"
  by (simp_all add: ends_ok_def arg_def)

lemma ends_ok_simps [simp]: "plain w \<Longrightarrow> ends_ok w" "ends_ok (quoted t)" "text_ok t \<Longrightarrow> ends_ok t"
  by (auto simp: ends_ok_def plain_def list_all_iff quoted_def text_ok_def visible_def byte_def)

lemma get_options_simps [simp]:
  "get_options [] path = Inr path"
  "token_ok p \<Longrightarrow> get_options (arg ''PATH'' (arg (quoted p) [])) path = Inr (Some p)"
  by (simp_all add: get_options.simps)

lemma subscribe_options_simps [simp]:
  "subscribe_options [] path = Inr path"
  "token_ok p \<Longrightarrow> subscribe_options (arg ''PATH'' (arg (quoted p) [])) path = Inr (Some p)"
  by (simp_all add: subscribe_options.simps)

lemma create_options_simps [simp]:
  "create_options [] st t = Inr (st, t)"
  "at_blank s \<Longrightarrow> create_options (arg ''STRATEGY'' (arg (strategy_name st') s)) st t = create_options s st' t"
  "create_options (arg ''TTL'' (arg (show_u64 n) [])) st t = Inr (st, Some n)"
  by (simp_all add: create_options.simps parse_show_u64)

lemmas parse_defs = parse_auth_def parse_create_def parse_get_def parse_set_def parse_delete_def
  parse_subscribe_def parse_unsubscribe_def parse_push_def parse_increment_def parse_presence_def
  parse_keys_def parse_compact_def parse_expire_def parse_ttl_def parse_restore_def

lemma render_args_ok:
  assumes "kind_ok from_str jtxt vtxt k" and "id_ok k i" and "render_args jtxt vtxt k i = (w, s)"
  shows "plain w \<and> at_blank s \<and> line_ok s \<and> (s = [] \<or> ends_ok s) \<and>
    parse_command from_str w s = Inr \<lparr>cmd_kind = k, cmd_document_id = i\<rparr> \<and> to_uppercase w = w"
  using assms
  by (cases k; cases i)
     (auto simp: parse_defs cmd_defs path_arg_def json_ok_def value_ok_def parse_show_u64 parse_show_i64
       split: option.splits)

lemma parse_line_render:
  assumes "command_ok from_str jtxt vtxt c"
  shows "parse_line from_str (render_command jtxt vtxt c) = Inr c \<and> line_ok (render_command jtxt vtxt c) \<and>
    last (render_command jtxt vtxt c) \<noteq> CR"
proof -
  obtain w s where ws: "render_args jtxt vtxt (cmd_kind c) (cmd_document_id c) = (w, s)"
    by (cases "render_args jtxt vtxt (cmd_kind c) (cmd_document_id c)") auto
  then have r: "render_command jtxt vtxt c = w @ s" by (simp add: render_command_def)
  have ok: "plain w" "at_blank s" "line_ok s" "s = [] \<or> ends_ok s"
      "parse_command from_str w s = Inr c" "to_uppercase w = w"
    using render_args_ok [OF _ _ ws] assms by (auto simp: command_ok_def)
  have v: "visible (hd (w @ s))" "visible (last (w @ s))" "w @ s \<noteq> []"
    using ok(1,4) by (cases w; force simp: plain_def ends_ok_def list_all_iff)+
  then have "trim (w @ s) = w @ s" by (intro trim_idle) (auto simp: visible_def)
  with v(3) have "parse_line from_str (w @ s) = Inr c"
    using next_token_plain [OF ok(1,2)] ok(5,6) by (simp add: parse_line_def)
  moreover have "line_ok (w @ s)" using ok(1,3) by simp
  moreover have "last (w @ s) \<noteq> CR" using v(2) by (auto simp: visible_def byte_def)
  ultimately show ?thesis by (simp add: r)
qed

lemma parse_render_command:
  assumes "command_ok from_str jtxt vtxt c"
  shows "parse from_str \<lparr>buffer = render_command jtxt vtxt c @ LF # s\<rparr> = (Inr (Some c), \<lparr>buffer = s\<rparr>)"
    and "parse from_str \<lparr>buffer = render_command jtxt vtxt c @ CR # LF # s\<rparr> = (Inr (Some c), \<lparr>buffer = s\<rparr>)"
proof -
  let ?r = "render_command jtxt vtxt c"
  have r: "parse_line from_str ?r = Inr c" "LF \<notin> set ?r" "from_utf8_lossy ?r = ?r" "last ?r \<noteq> CR"
    using parse_line_render [OF assms] by (auto simp: line_ok_def from_utf8_lossy_valid)
  then have "strip_cr ?r = ?r" "strip_cr (?r @ [CR]) = ?r" by (auto simp: strip_cr_def)
  with r parse_complete [of "\<lparr>buffer = ?r @ LF # s\<rparr>" ?r s from_str]
    parse_complete [of "\<lparr>buffer = ?r @ CR # LF # s\<rparr>" "?r @ [CR]" s from_str]
  show "parse from_str \<lparr>buffer = ?r @ LF # s\<rparr> = (Inr (Some c), \<lparr>buffer = s\<rparr>)"
    and "parse from_str \<lparr>buffer = ?r @ CR # LF # s\<rparr> = (Inr (Some c), \<lparr>buffer = s\<rparr>)" by simp_all
qed

text \<open>
  C23. Every command that can be written down parses back: the line of a command, ended by a line
  feed or by carriage return and line feed, gives exactly that command, and what follows it stays
  in the buffer.
\<close>

theorem command_roundtrip:
  assumes "command_ok from_str jtxt vtxt c"
  shows "parse from_str \<lparr>buffer = render_command jtxt vtxt c @ LF # s\<rparr> = (Inr (Some c), \<lparr>buffer = s\<rparr>) \<and>
    parse from_str \<lparr>buffer = render_command jtxt vtxt c @ CR # LF # s\<rparr> = (Inr (Some c), \<lparr>buffer = s\<rparr>)"
  using parse_render_command [OF assms] by blast

lemma command_roundtrip_witness:
  "parse (\<lambda>s. if s = ''true'' then Inr (JBool True) else Inl ''?'')
     \<lparr>buffer = ''SET \"a:1\" \"x y\" true'' @ [CR, LF]\<rparr> = (Inr (Some (cmd_set ''a:1'' ''x y'' (VBool True))), \<lparr>buffer = []\<rparr>)"
proof -
  let ?f = "\<lambda>s. if s = ''true'' then Inr (JBool True) else Inl ''?'' :: string + json"
  let ?v = "\<lambda>v. ''true''" and ?j = "\<lambda>j. ''''"
  have t: "text_ok ''true''" by (simp add: text_ok_def visible_def byte_def utf8_chunk_ascii)
  have ok: "command_ok ?f ?j ?v (cmd_set ''a:1'' ''x y'' (VBool True))"
    using t by (simp add: command_ok_def cmd_set_def token_ok_def value_ok_def parse_value_def utf8_chunk_ascii byte_def)
  have "render_command ?j ?v (cmd_set ''a:1'' ''x y'' (VBool True)) = ''SET \"a:1\" \"x y\" true''"
    by (simp add: render_command_def cmd_set_def arg_def quoted_def)
  with command_roundtrip [OF ok, of "[]"] show ?thesis by simp
qed

subsection \<open>Error messages\<close>

lemma skip_blanks_set: "set (skip_blanks s) \<subseteq> set s"
  by (auto simp: skip_blanks_def dest: set_dropWhileD)

lemma regular_token_set: "regular_token s = (t, r) \<Longrightarrow> set t \<subseteq> set s \<and> set r \<subseteq> set s"
  using set_take_subset [of _ s] set_drop_subset [of _ s] by (auto simp: regular_token_def Let_def)

lemma next_token_set: "next_token s = Some (t, r) \<Longrightarrow> set t \<subseteq> set s \<and> set r \<subseteq> set s"
proof -
  assume t: "next_token s = Some (t, r)"
  then obtain c u where cu: "skip_blanks s = c # u" by (auto simp: next_token_def split: list.splits)
  have "set t \<subseteq> set (c # u) \<and> set r \<subseteq> set (c # u)"
    using t cu set_take_subset [of _ u] set_drop_subset [of _ u]
    by (auto simp: next_token_def dest!: regular_token_set split: option.splits if_splits)
  then show ?thesis using skip_blanks_set [of s] cu by auto
qed

lemma rest_set: "rest s = Some r \<Longrightarrow> set r \<subseteq> set s"
proof -
  assume "rest s = Some r"
  then have "r = skip_blanks s" by (auto simp: rest_def split: list.splits)
  then show ?thesis using skip_blanks_set [of s] by simp
qed

text \<open>The tokens of a line without line feed have none.\<close>

lemma next_token_LF: "next_token s = Some (t, r) \<Longrightarrow> LF \<notin> set s \<Longrightarrow> LF \<notin> set t \<and> LF \<notin> set r"
  using next_token_set by blast

lemma require_LF: "require name s = Inr (t, r) \<Longrightarrow> LF \<notin> set s \<Longrightarrow> LF \<notin> set t \<and> LF \<notin> set r"
  by (auto simp: require_def dest: next_token_LF split: option.splits)

definition one_line :: "protocol_error \<Rightarrow> bool" where
  "one_line e \<longleftrightarrow> (\<exists>m. e = InvalidJson m) \<or> LF \<notin> set (protocol_error_msg e)"

lemma one_line_simps [simp]:
  "one_line (InvalidJson m)" "one_line (MissingArgument m) \<longleftrightarrow> LF \<notin> set m"
  "one_line (InvalidArgument m) \<longleftrightarrow> LF \<notin> set m" "one_line (InvalidCommand m) \<longleftrightarrow> LF \<notin> set m"
  by (auto simp: one_line_def)

lemma require_error: "require name s = Inl e \<Longrightarrow> e = MissingArgument name"
  by (auto simp: require_def split: option.splits)

lemma require_rest_error: "require_rest name s = Inl e \<Longrightarrow> e = MissingArgument name"
  by (auto simp: require_rest_def split: option.splits)

lemma json_to_value_error:
  "json_to_value j = Inl e \<Longrightarrow> e = InvalidArgument ''Invalid number''"
  "json_to_values js = Inl e \<Longrightarrow> e = InvalidArgument ''Invalid number''"
  "json_to_entries es m = Inl e \<Longrightarrow> e = InvalidArgument ''Invalid number''"
  by (induction j and js and es m rule: json_to_value_json_to_values_json_to_entries.induct)
     (auto split: option.splits sum.splits)

lemma parse_value_error: "parse_value from_str s = Inl e \<Longrightarrow> e = InvalidArgument ''Invalid number''"
  by (auto simp: parse_value_def dest: json_to_value_error split: sum.splits)

lemma create_options_error: "create_options s st t = Inl e \<Longrightarrow> LF \<notin> set s \<Longrightarrow> one_line e"
proof (induction s arbitrary: st t rule: measure_induct_rule [where f = length])
  case (less s)
  show ?case
  proof (cases "next_token s")
    case None
    with less.prems show ?thesis by (simp add: create_options.simps [of s st t])
  next
    case (Some opt_s1)
    then obtain opt s1 where s1: "next_token s = Some (opt, s1)" by (cases opt_s1) auto
    with less.prems have lf: "LF \<notin> set opt" "LF \<notin> set s1" using next_token_LF by blast+
    show ?thesis
    proof (cases "next_token s1")
      case None
      with less.prems s1 lf show ?thesis by (auto simp: create_options.simps [of s st t] split: if_splits)
    next
      case (Some v_s2)
      then obtain v s2 where s2: "next_token s1 = Some (v, s2)" by (cases v_s2) auto
      with lf have "LF \<notin> set v" "LF \<notin> set s2" using next_token_LF by blast+
      moreover have "length s2 < length s" using s1 s2 by (auto dest!: next_token_shrinks)
      ultimately show ?thesis using less s1 s2 lf
        by (auto simp: create_options.simps [of s st t] split: if_splits sum.splits option.splits)
    qed
  qed
qed

lemma get_options_error: "get_options s path = Inl e \<Longrightarrow> e = MissingArgument ''path value''"
proof (induction s arbitrary: path rule: measure_induct_rule [where f = length])
  case (less s)
  then show ?case
    unfolding get_options.simps [of s path]
    by (auto dest!: next_token_shrinks split: option.splits if_splits) (meson less.IH less_trans)+
qed

lemma subscribe_options_error: "subscribe_options s path = Inl e \<Longrightarrow> LF \<notin> set s \<Longrightarrow> one_line e"
proof (induction s arbitrary: path rule: measure_induct_rule [where f = length])
  case (less s)
  show ?case
  proof (cases "next_token s")
    case None
    with less.prems show ?thesis by (simp add: subscribe_options.simps [of s path])
  next
    case (Some opt_s1)
    then obtain opt s1 where s1: "next_token s = Some (opt, s1)" by (cases opt_s1) auto
    with less.prems have lf: "LF \<notin> set opt" "LF \<notin> set s1" using next_token_LF by blast+
    then have "LF \<notin> set v \<and> LF \<notin> set s2 \<and> length s2 < length s" if "next_token s1 = Some (v, s2)" for v s2
      using that s1 next_token_LF less_trans [OF next_token_shrinks next_token_shrinks] by blast
    with less s1 lf show ?thesis
      by (auto simp: subscribe_options.simps [of s path] split: if_splits option.splits)
  qed
qed

lemma upper_char_LF: "upper_char c = LF \<longleftrightarrow> c = LF"
proof
  assume u: "upper_char c = LF"
  show "c = LF"
  proof (rule ccontr)
    assume "c \<noteq> LF"
    with u have "97 \<le> byte c" "byte c \<le> 122" "char_of (byte c - 32) = LF" by (auto simp: upper_char_def split: if_splits)
    then have "byte LF = byte c - 32" using byte_char_of [of "byte c - 32"] by simp
    then have "byte c - 32 = 10" by (simp add: byte_def)
    with \<open>97 \<le> byte c\<close> show False by simp
  qed
qed (simp add: upper_char_def byte_def)

lemma upper2_LF: "upper2 c d = Some u \<Longrightarrow> LF \<notin> set u"
  by (auto simp: upper2_def split: if_splits)

lemma upper3_LF:
  assumes "upper3 c d e = Some u"
  shows "LF \<notin> set u"
proof -
  let ?us = "[''FF'', ''FI'', ''FL'', ''FFI'', ''FFL'', ''ST'', ''ST'']"
  from assms have "u = ?us ! (byte e - 0x80)" "byte e - 0x80 < length ?us"
    by (auto simp: upper3_def split: if_splits)
  then have "u \<in> set ?us" using nth_mem [of "byte e - 0x80" ?us] by simp
  then show ?thesis by auto
qed

lemma to_uppercase_set: "LF \<notin> set s \<Longrightarrow> LF \<notin> set (to_uppercase s)"
proof (induction s rule: to_uppercase.induct)
  case (2 c s)
  have c: "upper_char c \<noteq> LF" using 2(5) by (auto simp: upper_char_LF)
  show ?case
  proof (cases s)
    case Nil
    then show ?thesis unfolding to_uppercase.simps(2) [of c s] using c by simp
  next
    case (Cons d s1)
    show ?thesis
    proof (cases "upper2 c d")
      case (Some u)
      with 2 Cons show ?thesis
        unfolding to_uppercase.simps(2) [of c s] using upper2_LF [OF Some] by simp
    next
      case None
      show ?thesis
      proof (cases s1)
        case Nil
        with 2 Cons None c show ?thesis unfolding to_uppercase.simps(2) [of c s] by auto
      next
        case (Cons e s2)
        then show ?thesis
          using 2 \<open>s = d # s1\<close> None c upper3_LF [of c d e]
          unfolding to_uppercase.simps(2) [of c s] by (auto split: option.split)
      qed
    qed
  qed
qed simp

lemmas argument_errors = require_error require_rest_error parse_value_error get_options_error

lemma parse_create_error: "parse_create s = Inl e \<Longrightarrow> LF \<notin> set s \<Longrightarrow> one_line e"
  by (auto simp: parse_create_def dest!: argument_errors require_LF
      intro: create_options_error split: sum.splits)

lemma parse_subscribe_error: "parse_subscribe s = Inl e \<Longrightarrow> LF \<notin> set s \<Longrightarrow> one_line e"
  by (auto simp: parse_subscribe_def dest!: argument_errors require_LF
      intro: subscribe_options_error split: sum.splits)

lemma parse_simple_errors:
  "parse_auth s = Inl e \<Longrightarrow> one_line e" "parse_get s = Inl e \<Longrightarrow> one_line e"
  "parse_set from_str s = Inl e \<Longrightarrow> one_line e" "parse_push from_str s = Inl e \<Longrightarrow> one_line e"
  "parse_delete s = Inl e \<Longrightarrow> one_line e" "parse_unsubscribe s = Inl e \<Longrightarrow> one_line e"
  "parse_presence from_str s = Inl e \<Longrightarrow> one_line e" "parse_keys s = Inl e \<Longrightarrow> one_line e"
  "parse_compact s = Inl e \<Longrightarrow> one_line e" "parse_ttl s = Inl e \<Longrightarrow> one_line e"
  "parse_restore from_str s = Inl e \<Longrightarrow> one_line e"
  by (auto simp: parse_defs Let_def dest!: argument_errors split: sum.splits option.splits if_splits)

lemma parse_increment_error: "parse_increment s = Inl e \<Longrightarrow> LF \<notin> set s \<Longrightarrow> one_line e"
  by (auto simp: parse_increment_def Let_def dest!: argument_errors require_LF next_token_LF
      split: sum.splits option.splits)

lemma parse_expire_error: "parse_expire s = Inl e \<Longrightarrow> LF \<notin> set s \<Longrightarrow> one_line e"
  by (auto simp: parse_expire_def dest!: argument_errors require_LF split: sum.splits option.splits)

lemma if_errorE: "(if b then x else y) = Inl e \<Longrightarrow> (x = Inl e \<Longrightarrow> P) \<Longrightarrow> (y = Inl e \<Longrightarrow> P) \<Longrightarrow> P"
  by (cases b) simp_all

lemma parse_command_error:
  assumes "parse_command from_str w s = Inl e" and "LF \<notin> set w" and "LF \<notin> set s"
  shows "one_line e"
  using assms(1) unfolding parse_command_def
proof (elim if_errorE)
  assume "Inl (InvalidCommand (''Unknown command: '' @ w)) = (Inl e :: protocol_error + command)"
  with assms(2) show ?thesis by auto
qed (auto dest: parse_simple_errors parse_create_error [OF _ assms(3)] parse_subscribe_error [OF _ assms(3)]
      parse_increment_error [OF _ assms(3)] parse_expire_error [OF _ assms(3)])

lemma parse_line_error: "parse_line from_str l = Inl e \<Longrightarrow> LF \<notin> set l \<Longrightarrow> one_line e"
  using set_trim [of l]
  by (auto simp: parse_line_def Let_def dest!: next_token_LF split: if_splits option.splits
      intro: parse_command_error [OF _ to_uppercase_set])

text \<open>
  An error the parser reports fits on one line: except for the message of the JSON library,
  no error message contains a line feed, so it cannot be taken for more than one response.
\<close>

theorem parse_errors_fit_one_line:
  assumes "parse from_str p = (Inl e, p')"
  shows "(\<exists>m. e = InvalidJson m) \<or> LF \<notin> set (protocol_error_msg e)"
proof -
  have "LF \<in> set (buffer p)"
  proof (rule ccontr)
    assume "LF \<notin> set (buffer p)"
    from parse_incomplete [OF this, of from_str] assms show False by simp
  qed
  then obtain ln later where b: "buffer p = ln @ LF # later" "LF \<notin> set ln" by (metis split_list_first)
  let ?l = "from_utf8_lossy (strip_cr ln)"
  from parse_complete [OF b, of from_str] assms have e: "parse_line from_str ?l = Inl e"
    by (auto split: sum.splits)
  have "LF \<notin> set (strip_cr ln)" using b(2) by (auto simp: strip_cr_def dest: in_set_butlastD)
  then have "LF \<notin> set ?l" using set_from_utf8_lossy [of "strip_cr ln"] by (auto simp: replacement_def)
  with e have "one_line e" by (rule parse_line_error)
  then show ?thesis by (simp add: one_line_def)
qed

lemma parse_errors_fit_one_line_witness:
  "\<exists>e p'. parse (\<lambda>s. Inl []) \<lparr>buffer = ''TTL'' @ [LF]\<rparr> = (Inl e, p') \<and> LF \<notin> set (protocol_error_msg e)"
proof -
  let ?f = "\<lambda>s. Inl [] :: string + json" and ?e = "MissingArgument ''document_id''"
  have "parse_line ?f ''TTL'' = Inl ?e"
    by (simp add: parse_line_def trim_idle byte_def next_token_def skip_blanks_def regular_token_def find_char_def
        parse_ttl_def require_def)
  then have p: "parse ?f \<lparr>buffer = ''TTL'' @ [LF]\<rparr> = (Inl ?e, \<lparr>buffer = []\<rparr>)"
    using parse_complete [of "\<lparr>buffer = ''TTL'' @ [LF]\<rparr>" "''TTL''" "[]" ?f]
    by (simp add: strip_cr_def utf8_chunk_ascii byte_def)
  from parse_errors_fit_one_line [OF this] p show ?thesis by auto
qed

subsection \<open>Blanks in presence data\<close>

lemma skip_blanks_replicate: "skip_blanks (replicate n (CHR '' '') @ s) = skip_blanks s"
  by (induction n) (simp_all add: skip_blanks_def)

lemma skip_blanks_blank: "skip_blanks (CHR '' '' # s) = skip_blanks s"
  by (simp add: skip_blanks_def)

text \<open>
  PRESENCE given its JSON without the word DATA cuts the JSON at its first blank and joins the
  pieces with one blank: however many blanks stand there, even inside a JSON string, the command is
  the same as with one.
\<close>

theorem presence_collapses_blanks:
  assumes "plain w" and "to_uppercase w \<noteq> ''DATA''" and "token_ok i"
  shows "parse_presence from_str (arg (quoted i) (arg w (replicate (Suc n) (CHR '' '') @ s))) =
    parse_presence from_str (arg (quoted i) (arg w (CHR '' '' # s)))"
proof -
  have b: "at_blank (replicate (Suc n) (CHR '' '') @ s)" for n by (simp add: at_blank_def)
  have r: "rest (replicate (Suc n) (CHR '' '') @ s) = rest (CHR '' '' # s)"
    unfolding rest_def skip_blanks_replicate skip_blanks_blank ..
  show ?thesis
    using assms b [of 0] b [of n] r by (simp add: parse_presence_def Let_def)
qed

lemma presence_collapses_blanks_witness:
  "parse_presence (\<lambda>t. Inr (JString t)) (arg (quoted ''d'') (arg ''[\"a'' ''   b\"]''))
     = Inr (cmd_presence ''d'' (Some (JString ''[\"a b\"]'')))"
proof -
  have w: "plain ''[\"a''" "to_uppercase ''[\"a'' \<noteq> ''DATA''" "token_ok ''d''"
    by (simp_all add: plain_def visible_def byte_def to_uppercase_ascii upper_char_def token_ok_def utf8_chunk_ascii)
  have "parse_presence (\<lambda>t. Inr (JString t)) (arg (quoted ''d'') (arg ''[\"a'' '' b\"]''))
     = Inr (cmd_presence ''d'' (Some (JString ''[\"a b\"]'')))"
    using w next_token_arg [OF w(1), of "'' b\"]''"]
    by (simp add: parse_presence_def at_blank_def rest_def skip_blanks_def trim_idle byte_def)
  with presence_collapses_blanks [OF w, of "\<lambda>t. Inr (JString t)" 2 "''b\"]''"] show ?thesis
    by (simp add: numeral_2_eq_2)
qed

end
