(* ===== verification/Response.thy ===== *)
theory Response imports Crdt begin

unbundle bit_operations_syntax

section \<open>Responses (ussl-protocol: response.rs)\<close>

text \<open>
  The responses and their encoding. \<open>to_string\<close> is the JSON printer of the library, which may
  fail; the code then sends \<^verbatim>\<open>null\<close>.
\<close>

datatype response =
    Ok "string option"
  | Error string string
  | Bulk bytes
  | Array "response list"
  | Delta u64 bytes
  | Integer i64
  | Value val
  | Null
  | Pong

definition response_ok :: response where
  "response_ok = Ok None"

definition ok_with_message :: "string \<Rightarrow> response" where
  "ok_with_message msg = Ok (Some msg)"

definition response_error :: "string \<Rightarrow> string \<Rightarrow> response" where
  "response_error code message = Error code message"

definition not_found :: "string \<Rightarrow> response" where
  "not_found i = Error ''NOT_FOUND'' (''Document not found: '' @ i)"

definition invalid_command :: "string \<Rightarrow> response" where
  "invalid_command msg = Error ''INVALID_CMD'' msg"

definition response_bulk :: "bytes \<Rightarrow> response" where
  "response_bulk data = Bulk data"

definition response_integer :: "i64 \<Rightarrow> response" where
  "response_integer n = Integer n"

definition response_value :: "val \<Rightarrow> response" where
  "response_value v = Value v"

definition response_delta :: "u64 \<Rightarrow> bytes \<Rightarrow> response" where
  "response_delta v data = Delta v data"

definition response_pong :: response where
  "response_pong = Pong"

definition response_null :: response where
  "response_null = Null"

definition response_array :: "response list \<Rightarrow> response" where
  "response_array items = Array items"

subsection \<open>Base64\<close>

definition ALPHABET :: string where
  "ALPHABET = ''ABCDEFGHIJKLMNOPQRSTUVWXYZabcdefghijklmnopqrstuvwxyz0123456789+/''"

definition u8 :: "char \<Rightarrow> u8" where
  "u8 c = word_of_nat (byte c)"

definition sym64 :: "u8 \<Rightarrow> char" where
  "sym64 n = ALPHABET ! unat n"

function base64_encode :: "bytes \<Rightarrow> string" where
  "base64_encode [] = []"
| "base64_encode (d0 # data) =
     (let b0 = u8 d0;
          b1 = (if length data > 0 then u8 (data ! 0) else 0);
          b2 = (if length data > 1 then u8 (data ! 1) else 0)
      in [sym64 (drop_bit 2 b0),
          sym64 (push_bit 4 (b0 AND 0x03) OR drop_bit 4 b1),
          if length data > 0 then sym64 (push_bit 2 (b1 AND 0x0f) OR drop_bit 6 b2) else CHR ''='',
          if length data > 1 then sym64 (b2 AND 0x3f) else CHR ''='']
         @ base64_encode (drop 2 data))"
  by pat_completeness auto
termination
  by (relation "measure length") auto

declare base64_encode.simps(2) [simp del]

subsection \<open>Encoding\<close>

definition CRLF :: bytes where
  "CRLF = [CHR 0x0D, CHR 0x0A]"

definition bulk_bytes :: "bytes \<Rightarrow> bytes" where
  "bulk_bytes data = ''$'' @ show_nat (length data) @ CRLF @ data @ CRLF"

fun encode_into :: "(val \<Rightarrow> string option) \<Rightarrow> response \<Rightarrow> bytes \<Rightarrow> bytes"
  and encode_items :: "(val \<Rightarrow> string option) \<Rightarrow> response list \<Rightarrow> bytes \<Rightarrow> bytes" where
  "encode_into to_string (Ok None) buf = buf @ ''+OK'' @ CRLF"
| "encode_into to_string (Ok (Some msg)) buf = buf @ ''+OK '' @ msg @ CRLF"
| "encode_into to_string (Error code message) buf = buf @ ''-ERR '' @ code @ '' '' @ message @ CRLF"
| "encode_into to_string (Bulk data) buf = buf @ bulk_bytes data"
| "encode_into to_string (Array items) buf =
     encode_items to_string items (buf @ ''*'' @ show_nat (length items) @ CRLF)"
| "encode_into to_string (Delta v data) buf = buf @ ''#'' @ show_u64 v @ '' '' @ base64_encode data @ CRLF"
| "encode_into to_string (Integer n) buf = buf @ '':'' @ show_i64 n @ CRLF"
| "encode_into to_string (Value v) buf =
     buf @ bulk_bytes (case to_string v of Some j \<Rightarrow> j | None \<Rightarrow> ''null'')"
| "encode_into to_string Null buf = buf @ ''$-1'' @ CRLF"
| "encode_into to_string Pong buf = buf @ ''+PONG'' @ CRLF"
| "encode_items to_string [] buf = buf"
| "encode_items to_string (item # items) buf = encode_items to_string items (encode_into to_string item buf)"

definition encode :: "(val \<Rightarrow> string option) \<Rightarrow> response \<Rightarrow> bytes" where
  "encode to_string r = encode_into to_string r []"

end
