(* ===== verification/ResponseLaws.thy ===== *)
theory ResponseLaws imports ParserLaws Response begin

section \<open>What the response encoding guarantees\<close>

text \<open>
  A reference decoder for base64 and one for the wire format, as a client would write them, and
  the proofs that they read back what the server encodes.
\<close>

subsection \<open>Base64\<close>

definition val64 :: "char \<Rightarrow> u8" where
  "val64 c = word_of_nat (length (takeWhile (\<lambda>x. x \<noteq> c) ALPHABET))"

definition char_of_u8 :: "u8 \<Rightarrow> char" where
  "char_of_u8 b = char_of (unat b)"

fun base64_decode :: "string \<Rightarrow> bytes option" where
  "base64_decode [] = Some []"
| "base64_decode (c0 # c1 # c2 # c3 # s) =
     (let v0 = val64 c0; v1 = val64 c1; v2 = val64 c2; v3 = val64 c3;
          x0 = char_of_u8 (push_bit 2 v0 OR drop_bit 4 v1);
          x1 = char_of_u8 (push_bit 4 (v1 AND 0x0f) OR drop_bit 2 v2);
          x2 = char_of_u8 (push_bit 6 (v2 AND 0x03) OR v3)
      in if c2 = CHR ''='' then Some [x0]
         else if c3 = CHR ''='' then Some [x0, x1]
         else map_option (\<lambda>r. x0 # x1 # x2 # r) (base64_decode s))"
| "base64_decode s = None"

lemma val64_sym64_all: "list_all (\<lambda>n. length (takeWhile (\<lambda>x. x \<noteq> ALPHABET ! n) ALPHABET) = n \<and> ALPHABET ! n \<noteq> CHR ''='') [0..<64]"
  by code_simp

lemma val64_sym64: "n < 64 \<Longrightarrow> val64 (sym64 n) = n \<and> sym64 n \<noteq> CHR ''=''"
proof -
  assume "n < 64"
  then have "unat n < 64" by (simp add: word_less_nat_alt)
  then have "unat n \<in> set [0..<64]" by simp
  with val64_sym64_all show ?thesis by (simp only: list_all_iff val64_def sym64_def) simp
qed

lemma u8_inv [simp]: "char_of_u8 (u8 c) = c"
proof -
  have "byte c mod 256 = byte c" using byte_less [of c] by simp
  then have "unat (u8 c) = byte c" by (simp add: u8_def unsigned_of_nat take_bit_eq_mod)
  then show ?thesis by (simp add: char_of_u8_def byte_def)
qed

lemma masks: "(0x03 :: u8) = mask 2" "(0x0f :: u8) = mask 4" "(0x3f :: u8) = mask 6"
  by (simp_all add: mask_eq_exp_minus_1)

lemma u8_eqI:
  fixes a b :: u8
  assumes "bit a 0 = bit b 0" "bit a 1 = bit b 1" "bit a 2 = bit b 2" "bit a 3 = bit b 3"
    "bit a 4 = bit b 4" "bit a 5 = bit b 5" "bit a 6 = bit b 6" "bit a 7 = bit b 7"
  shows "a = b"
proof (rule bit_word_eqI)
  fix n assume "n < LENGTH(8)"
  then have "n \<in> {0, 1, 2, 3, 4, 5, 6, 7}" by auto
  with assms show "bit a n = bit b n" by blast
qed

lemma no_high_bits: "8 \<le> n \<Longrightarrow> \<not> bit (b :: u8) n"
  using bit_imp_le_length [of b n] by auto

lemma small_u8:
  assumes "take_bit 6 v = (v :: u8)"
  shows "v < 64"
proof -
  have "unat v = take_bit 6 (unat v)" using assms by (metis unsigned_take_bit_eq)
  then have "unat v < 64" using take_bit_nat_less_exp [of 6 "unat v"] by simp
  then show ?thesis by (simp add: word_less_nat_alt)
qed

lemma six_bits:
  "drop_bit 2 b0 < 64 \<and> push_bit 4 (b0 AND 0x03) OR drop_bit 4 b1 < 64 \<and>
   push_bit 2 (b1 AND 0x0f) OR drop_bit 6 b2 < 64 \<and> b2 AND 0x3f < (64 :: u8)"
  by (intro conjI; rule small_u8; rule u8_eqI; simp add: masks bit_simps no_high_bits del: bit_0)

lemma join_bits:
  "push_bit 2 (drop_bit 2 b0) OR drop_bit 4 (push_bit 4 (b0 AND 0x03) OR drop_bit 4 b1) = (b0 :: u8) \<and>
   push_bit 4 ((push_bit 4 (b0 AND 0x03) OR drop_bit 4 b1) AND 0x0f)
      OR drop_bit 2 (push_bit 2 (b1 AND 0x0f) OR drop_bit 6 b2) = b1 \<and>
   push_bit 6 ((push_bit 2 (b1 AND 0x0f) OR drop_bit 6 b2) AND 0x03) OR (b2 AND 0x3f) = b2"
  by (intro conjI; rule u8_eqI; simp add: masks bit_simps del: bit_0)

lemma base64_step:
  fixes b0 b1 b2 :: u8
  defines "s0 \<equiv> sym64 (drop_bit 2 b0)" and "s1 \<equiv> sym64 (push_bit 4 (b0 AND 0x03) OR drop_bit 4 b1)"
    and "s2 \<equiv> sym64 (push_bit 2 (b1 AND 0x0f) OR drop_bit 6 b2)" and "s3 \<equiv> sym64 (b2 AND 0x3f)"
  shows "base64_decode (s0 # s1 # s2 # s3 # s) =
      map_option (\<lambda>r. char_of_u8 b0 # char_of_u8 b1 # char_of_u8 b2 # r) (base64_decode s)"
    and "base64_decode (s0 # s1 # s2 # CHR ''='' # s) = Some [char_of_u8 b0, char_of_u8 b1]"
    and "base64_decode (s0 # s1 # CHR ''='' # c # s) = Some [char_of_u8 b0]"
  using six_bits [of b0 b1 b2] join_bits [of b0 b1 b2]
  by (simp_all add: s0_def s1_def s2_def s3_def Let_def val64_sym64)

lemma base64_facts:
  "base64_decode (base64_encode data) = Some data \<and>
   length (base64_encode data) = 4 * ((length data + 2) div 3) \<and>
   set (base64_encode data) \<subseteq> insert (CHR ''='') (set ALPHABET)"
proof (induction data rule: base64_encode.induct)
  case 1
  then show ?case by simp
next
  case (2 d0 data)
  have sym: "n < 64 \<Longrightarrow> sym64 n \<in> set ALPHABET" for n
    using nth_mem [of "unat n" ALPHABET] by (simp add: sym64_def word_less_nat_alt ALPHABET_def)
  consider "data = []" | d1 where "data = [d1]" | d1 d2 r where "data = d1 # d2 # r"
    by (cases data rule: remdups_adj.cases) auto
  then show ?case
  proof cases
    case 1
    then show ?thesis
      using base64_step(3) [of "u8 d0" 0] sym six_bits [of "u8 d0" 0 0]
      by (simp add: base64_encode.simps(2) Let_def)
  next
    case (2 d1)
    then show ?thesis
      using base64_step(2) [of "u8 d0" "u8 d1" 0] sym six_bits [of "u8 d0" "u8 d1" 0]
      by (simp add: base64_encode.simps(2) Let_def)
  next
    case (3 d1 d2 r)
    have "(5 + length r) div 3 = Suc (Suc (Suc (length r)) div 3)" by presburger
    with 3 show ?thesis
      using 2 base64_step(1) [of "u8 d0" "u8 d1" "u8 d2"] sym six_bits [of "u8 d0" "u8 d1" "u8 d2"]
      by (simp add: base64_encode.simps(2) Let_def)
  qed
qed

text \<open>
  The base64 text of any byte sequence decodes to that byte sequence, has four characters for
  each group of up to three bytes, and contains only the alphabet and padding: no blank and no line
  end that could break the line of a delta.
\<close>

theorem base64_roundtrip:
  "base64_decode (base64_encode data) = Some data \<and>
   length (base64_encode data) = 4 * ((length data + 2) div 3) \<and>
   set (base64_encode data) \<subseteq> insert (CHR ''='') (set ALPHABET)"
  by (rule base64_facts)

subsection \<open>The wire format\<close>

datatype wire =
    WStatus string
  | WError string
  | WBulk bytes
  | WNull
  | WArray "wire list"
  | WDelta u64 bytes
  | WInteger i64

fun to_wire :: "(val \<Rightarrow> string option) \<Rightarrow> response \<Rightarrow> wire" where
  "to_wire to_string (Ok None) = WStatus ''OK''"
| "to_wire to_string (Ok (Some msg)) = WStatus (''OK '' @ msg)"
| "to_wire to_string (Error code message) = WError (''ERR '' @ code @ '' '' @ message)"
| "to_wire to_string (Bulk data) = WBulk data"
| "to_wire to_string (Array items) = WArray (map (to_wire to_string) items)"
| "to_wire to_string (Delta v data) = WDelta v data"
| "to_wire to_string (Integer n) = WInteger n"
| "to_wire to_string (Value v) = WBulk (case to_string v of Some j \<Rightarrow> j | None \<Rightarrow> ''null'')"
| "to_wire to_string Null = WNull"
| "to_wire to_string Pong = WStatus ''PONG''"

definition take_line :: "bytes \<Rightarrow> (string \<times> bytes) option" where
  "take_line s = (case find_char (\<lambda>c. c = LF) s of
     None \<Rightarrow> None | Some n \<Rightarrow> Some (strip_cr (take n s), drop (n + 1) s))"

definition take_bulk :: "nat \<Rightarrow> bytes \<Rightarrow> (wire \<times> bytes) option" where
  "take_bulk n s = (if n + 2 \<le> length s then Some (WBulk (take n s), drop (n + 2) s) else None)"

definition read_delta :: "string \<Rightarrow> wire option" where
  "read_delta s =
     (case find_char (\<lambda>c. c = CHR '' '') s of
        None \<Rightarrow> None
      | Some n \<Rightarrow>
          (case parse_u64 (take n s) of
             None \<Rightarrow> None
           | Some v \<Rightarrow> map_option (WDelta v) (base64_decode (drop (n + 1) s))))"

fun decode :: "nat \<Rightarrow> bytes \<Rightarrow> (wire \<times> bytes) option"
  and decode_items :: "nat \<Rightarrow> nat \<Rightarrow> bytes \<Rightarrow> (wire list \<times> bytes) option" where
  "decode f s =
     (case take_line s of
        Some (c # t, r) \<Rightarrow>
          if c = CHR ''+'' then Some (WStatus t, r)
          else if c = CHR ''-'' then Some (WError t, r)
          else if c = CHR '':'' then map_option (\<lambda>n. (WInteger n, r)) (parse_i64 t)
          else if c = CHR ''#'' then map_option (\<lambda>w. (w, r)) (read_delta t)
          else if c = CHR ''$'' then
            (if t = ''-1'' then Some (WNull, r)
             else Option.bind (parse_usize t) (\<lambda>n. take_bulk n r))
          else if c = CHR ''*'' then
            (case f of
               0 \<Rightarrow> None
             | Suc f' \<Rightarrow> Option.bind (parse_usize t) (\<lambda>n. map_option (\<lambda>(ws, r). (WArray ws, r)) (decode_items f' n r)))
          else None
      | _ \<Rightarrow> None)"
| "decode_items f 0 s = Some ([], s)"
| "decode_items f (Suc n) s =
     Option.bind (decode f s) (\<lambda>(w, r). map_option (\<lambda>(ws, r). (w # ws, r)) (decode_items f n r))"

declare decode.simps [simp del]

fun nesting :: "response \<Rightarrow> nat" where
  "nesting (Array items) = Suc (foldr max (map nesting items) 0)"
| "nesting r = 0"

text \<open>
  What may be sent: a message without line feed (the code does not check it), sizes that fit
  \<^verbatim>\<open>usize\<close> (as every length does).
\<close>

fun sendable :: "(val \<Rightarrow> string option) \<Rightarrow> response \<Rightarrow> bool" where
  "sendable to_string (Ok (Some msg)) \<longleftrightarrow> LF \<notin> set msg"
| "sendable to_string (Error code message) \<longleftrightarrow> LF \<notin> set code \<and> LF \<notin> set message"
| "sendable to_string (Bulk data) \<longleftrightarrow> length data < 2 ^ 64"
| "sendable to_string (Value v) \<longleftrightarrow> length (case to_string v of Some j \<Rightarrow> j | None \<Rightarrow> ''null'') < 2 ^ 64"
| "sendable to_string (Array items) \<longleftrightarrow> length items < 2 ^ 64 \<and> list_all (sendable to_string) items"
| "sendable to_string r \<longleftrightarrow> True"

lemma encode_items_append:
  assumes "\<And>r buf. r \<in> set rs \<Longrightarrow> encode_into to_string r buf = buf @ encode to_string r"
  shows "encode_items to_string rs buf = buf @ concat (map (encode to_string) rs)"
  using assms
proof (induction rs arbitrary: buf)
  case (Cons r rs)
  have "encode_items to_string rs (encode_into to_string r buf)
      = encode_into to_string r buf @ concat (map (encode to_string) rs)"
    by (rule Cons.IH) (simp add: Cons.prems)
  then show ?case using Cons.prems [of r buf] by simp
qed simp

lemma encode_into_append: "encode_into to_string r buf = buf @ encode to_string r"
proof (induction r arbitrary: buf)
  case (Array items)
  have "encode_items to_string items buf' = buf' @ concat (map (encode to_string) items)" for buf'
    by (rule encode_items_append) (rule Array.IH)
  then show ?case by (simp add: encode_def)
next
  case (Ok msg)
  then show ?case by (cases msg) (simp_all add: encode_def)
qed (simp_all add: encode_def)

lemma encode_array: "encode to_string (Array items) = ''*'' @ show_nat (length items) @ CRLF @ concat (map (encode to_string) items)"
  using encode_items_append [where rs = items and to_string = to_string, OF encode_into_append] by (simp add: encode_def)

lemma take_line_CRLF: "LF \<notin> set ln \<Longrightarrow> take_line (ln @ CRLF @ r) = Some (ln, r)"
proof -
  assume "LF \<notin> set ln"
  then have "find_char (\<lambda>c. c = LF) ((ln @ [CR]) @ LF # r) = Some (length (ln @ [CR]))"
    by (intro find_char_append) auto
  then show ?thesis by (simp add: take_line_def CRLF_def strip_cr_def)
qed

lemma take_line_simps [simp]:
  "LF \<notin> set ln \<Longrightarrow> c \<noteq> LF \<Longrightarrow> take_line (c # ln @ CRLF @ r) = Some (c # ln, r)"
  "c \<noteq> LF \<Longrightarrow> take_line (c # CRLF @ r) = Some ([c], r)"
  using take_line_CRLF [of "c # ln" r] take_line_CRLF [of "[c]" r] by simp_all

lemma digits_LF: "list_all is_digit s \<Longrightarrow> LF \<notin> set s \<and> CHR '' '' \<notin> set s \<and> CHR ''-'' \<notin> set s"
  by (auto simp: list_all_iff is_digit_def byte_def)

lemma show_LF [simp]:
  "LF \<notin> set (show_nat n)" "LF \<notin> set (show_u64 v)" "LF \<notin> set (show_i64 i)" "CHR '' '' \<notin> set (show_u64 v)"
  "show_nat n \<noteq> ''-1''"
  using digits_LF [of "show_nat n"] digits_LF [of "show_nat (unat v)"] digits_LF [of "show_nat (nat (sint i))"]
    digits_LF [of "show_nat (nat (- sint i))"] show_nat_digits
  by (auto simp: show_u64_def show_i64_def)

lemmas parse_usize_show_nat [simp] = parse_usize_show

lemma take_bulk_bytes: "take_bulk (length d) (d @ CRLF @ r) = Some (WBulk d, r)"
  by (simp add: take_bulk_def CRLF_def)

lemma decode_bulk: "length d < 2 ^ 64 \<Longrightarrow> decode f (bulk_bytes d @ r) = Some (WBulk d, r)"
  by (simp add: decode.simps bulk_bytes_def take_bulk_bytes)

lemma base64_LF [simp]: "LF \<notin> set (base64_encode d)"
  using conjunct2 [OF conjunct2 [OF base64_facts [of d]]] by (auto simp: ALPHABET_def)

lemma read_delta_show: "read_delta (show_u64 v @ '' '' @ base64_encode d) = Some (WDelta v d)"
proof -
  have "find_char (\<lambda>c. c = CHR '' '') (show_u64 v @ '' '' @ base64_encode d) = Some (length (show_u64 v))"
    using find_char_append [of "show_u64 v" "\<lambda>c. c = CHR '' ''" "CHR '' ''" "base64_encode d"] show_LF(4) [of v]
    by (simp only: append_Cons append_Nil) blast
  then show ?thesis using conjunct1 [OF base64_facts [of d]] by (simp add: read_delta_def parse_show_u64)
qed

lemma decode_items_concat:
  assumes "\<And>r s. r \<in> set rs \<Longrightarrow> decode f (encode to_string r @ s) = Some (to_wire to_string r, s)"
  shows "decode_items f (length rs) (concat (map (encode to_string) rs) @ s) = Some (map (to_wire to_string) rs, s)"
  using assms by (induction rs) simp_all

lemma nesting_item: "r \<in> set rs \<Longrightarrow> nesting r \<le> foldr max (map nesting rs) 0"
  by (induction rs) auto

lemma decode_lines:
  assumes "LF \<notin> set t"
  shows "decode f (''+'' @ t @ CRLF @ s) = Some (WStatus t, s)"
    and "decode f (''-'' @ t @ CRLF @ s) = Some (WError t, s)"
    and "decode f ('':'' @ t @ CRLF @ s) = map_option (\<lambda>n. (WInteger n, s)) (parse_i64 t)"
    and "decode f (''#'' @ t @ CRLF @ s) = map_option (\<lambda>w. (w, s)) (read_delta t)"
  using assms by (simp_all add: decode.simps)

text \<open>
  C24. A client can read what the server sends: any encoded response whose messages have no line
  feed, followed by anything, is read back as exactly that response, and reading goes on right
  after it; nested arrays need as much fuel as they are deep.
\<close>

theorem response_roundtrip:
  assumes "sendable to_string r" and "nesting r \<le> f"
  shows "decode f (encode to_string r @ s) = Some (to_wire to_string r, s)"
  using assms
proof (induction r arbitrary: f s)
  case (Ok msg)
  then show ?case
    using decode_lines(1) [of "''OK''" f s] decode_lines(1) [of "''OK '' @ the msg" f s]
    by (cases msg) (simp_all add: encode_def)
next
  case (Error code message)
  then show ?case
    using decode_lines(2) [of "''ERR '' @ code @ '' '' @ message" f s] by (simp add: encode_def)
next
  case (Array items)
  from Array.prems(2) obtain f' where f: "f = Suc f'" "foldr max (map nesting items) 0 \<le> f'"
    by (cases f) auto
  have "decode f' (encode to_string r @ t) = Some (to_wire to_string r, t)" if "r \<in> set items" for r t
    using Array that f(2) nesting_item [OF that] by (auto simp: list_all_iff)
  then show ?case
    using Array.prems(1) decode_items_concat [of items f' to_string s] f(1)
    by (simp add: encode_array decode.simps [of "Suc f'"])
next
  case (Delta v d)
  show ?case
    using decode_lines(4) [of "show_u64 v @ '' '' @ base64_encode d" f s] read_delta_show [of v d]
    by (simp add: encode_def)
next
  case (Integer n)
  show ?case using decode_lines(3) [of "show_i64 n" f s] by (simp add: encode_def parse_show_i64)
next
  case Null
  show ?case using take_line_simps(1) [of "''-1''" "CHR ''$''" s] by (simp add: encode_def decode.simps)
next
  case Pong
  show ?case using decode_lines(1) [of "''PONG''" f s] by (simp add: encode_def)
qed (simp_all add: encode_def decode_bulk)

lemma response_roundtrip_witness:
  "decode 1 (encode (\<lambda>v. None) (Array [Bulk ''a'', Value VNull, Delta 7 ''xyz'']) @ ''+PONG'')
     = Some (WArray [WBulk ''a'', WBulk ''null'', WDelta 7 ''xyz''], ''+PONG'')"
  using response_roundtrip [of "\<lambda>v. None" "Array [Bulk ''a'', Value VNull, Delta 7 ''xyz'']" 1 "''+PONG''"]
  by simp

end
