(* ===== verification/RateLimit.thy ===== *)
theory RateLimit imports Prelude begin

section \<open>The rate limiter (ussl-transport: rate\_limit.rs)\<close>

text \<open>
  A token bucket. Tokens are counted in thousandths in 64 bits. An \<^verbatim>\<open>Instant\<close> is a number of
  nanoseconds of a monotonic clock, so that the truncation to milliseconds shows; every operation
  gets the reading it makes as \<open>now\<close>. The limiter of a connection is used by that connection
  only, so the compare-and-exchange succeeds and its retry loop is one pass.
\<close>

record rate_limit_config =
  requests_per_second :: u32
  burst_size :: u32

definition rate_limit_new :: "u32 \<Rightarrow> u32 \<Rightarrow> rate_limit_config" where
  "rate_limit_new rps burst = \<lparr>requests_per_second = rps, burst_size = burst\<rparr>"

definition from_rate :: "u32 \<Rightarrow> rate_limit_config" where
  "from_rate rps = \<lparr>requests_per_second = rps, burst_size = rps * 2\<rparr>"

definition config_default :: rate_limit_config where
  "config_default = \<lparr>requests_per_second = 1000, burst_size = 2000\<rparr>"

record rate_limiter =
  tokens :: u64
  last_refill :: nat
  config :: rate_limit_config
  tokens_per_ms :: u64
  max_tokens :: u64

definition limiter_new :: "nat \<Rightarrow> rate_limit_config \<Rightarrow> rate_limiter" where
  "limiter_new now c =
     (let mx = ucast (burst_size c) * 1000;
          per_ms = (ucast (requests_per_second c) * 1000) div 1000
      in \<lparr>tokens = mx, last_refill = now, config = c, tokens_per_ms = per_ms, max_tokens = mx\<rparr>)"

text \<open>\<^verbatim>\<open>duration_since\<close> is zero for an earlier instant, as is the subtraction on \<open>nat\<close>.\<close>

definition elapsed_millis :: "nat \<Rightarrow> nat \<Rightarrow> nat" where
  "elapsed_millis now since = (now - since) div 1000000"

definition refill :: "nat \<Rightarrow> rate_limiter \<Rightarrow> rate_limiter" where
  "refill now l =
     (if elapsed_millis now (last_refill l) > 0
      then let new_tokens = tokens_per_ms l * word_of_nat (elapsed_millis now (last_refill l))
           in if new_tokens > 0
              then l\<lparr>last_refill := now, tokens := min (tokens l + new_tokens) (max_tokens l)\<rparr>
              else l
      else l)"

definition try_acquire :: "nat \<Rightarrow> rate_limiter \<Rightarrow> bool \<times> rate_limiter" where
  "try_acquire now l =
     (let l = refill now l in
      if tokens l < 1000 then (False, l) else (True, l\<lparr>tokens := tokens l - 1000\<rparr>))"

definition would_limit :: "nat \<Rightarrow> rate_limiter \<Rightarrow> bool \<times> rate_limiter" where
  "would_limit now l = (let l = refill now l in (tokens l < 1000, l))"

definition available_tokens :: "nat \<Rightarrow> rate_limiter \<Rightarrow> u32 \<times> rate_limiter" where
  "available_tokens now l = (let l = refill now l in (ucast (tokens l div 1000), l))"

definition limiter_reset :: "nat \<Rightarrow> rate_limiter \<Rightarrow> rate_limiter" where
  "limiter_reset now l = l\<lparr>tokens := max_tokens l, last_refill := now\<rparr>"

end
