(* ===== verification/RateLimitLaws.thy ===== *)
theory RateLimitLaws imports RateLimit begin

section \<open>What the rate limiter guarantees\<close>

text \<open>
  A run of the limiter is the list of the times of the requests; \<open>acquire_all\<close> gives the answers.
  The bound on what is granted holds for every run, also where the 64-bit arithmetic wraps.
\<close>

fun acquire_all :: "nat list \<Rightarrow> rate_limiter \<Rightarrow> bool list \<times> rate_limiter" where
  "acquire_all [] l = ([], l)"
| "acquire_all (t # ts) l =
     (case try_acquire t l of (b, l') \<Rightarrow> (case acquire_all ts l' of (bs, l'') \<Rightarrow> (b # bs, l'')))"

definition granted :: "bool list \<Rightarrow> nat" where
  "granted bs = length (filter id bs)"

lemma unat_add_le: "unat (a + b) \<le> unat a + unat (b :: u64)"
  by (simp add: unat_word_ariths)

lemma unat_mult_le: "unat (a * b) \<le> unat a * unat (b :: u64)"
  by (simp add: unat_word_ariths)

lemma unat_word_of_nat_le: "unat (word_of_nat n :: u64) \<le> n"
  by (simp add: unsigned_of_nat)

lemma unat_new_tokens: "unat (rate * word_of_nat e) \<le> unat (rate :: u64) * e"
  using unat_mult_le [of rate "word_of_nat e"] unat_word_of_nat_le [of e] by (meson le_trans mult_le_mono2)

lemma min_word: "unat (min a b) = min (unat a) (unat (b :: u64))"
  by (simp add: min_def word_le_nat_alt)

lemma refill_sel [simp]:
  "config (refill now l) = config l" "tokens_per_ms (refill now l) = tokens_per_ms l"
  "max_tokens (refill now l) = max_tokens l"
  by (simp_all add: refill_def Let_def)

lemma elapsed_add:
  assumes "elapsed_millis now since > 0" and "zero \<le> since"
  shows "elapsed_millis since zero + elapsed_millis now since \<le> elapsed_millis now zero"
proof -
  have "since \<le> now" using assms(1) by (cases "since \<le> now") (simp_all add: elapsed_millis_def)
  with assms(2) have "(since - zero) + (now - since) = now - zero" by simp
  then show ?thesis unfolding elapsed_millis_def by (metis div_add1_eq le_add1)
qed

lemma refill_later: "last_refill l \<le> last_refill (refill now l)"
  by (cases "last_refill l \<le> now") (simp_all add: refill_def elapsed_millis_def Let_def)

lemma refill_bound:
  assumes "zero \<le> last_refill l"
  shows "unat (tokens (refill now l)) + unat (tokens_per_ms l) * elapsed_millis (last_refill l) zero
     \<le> unat (tokens l) + unat (tokens_per_ms l) * elapsed_millis (last_refill (refill now l)) zero"
proof -
  let ?e = "elapsed_millis now (last_refill l)"
  let ?new = "tokens_per_ms l * word_of_nat ?e"
  have "unat ?new \<le> unat (tokens_per_ms l) * ?e"
    by (rule unat_new_tokens)
  then have t: "unat (min (tokens l + ?new) (max_tokens l)) \<le> unat (tokens l) + unat (tokens_per_ms l) * ?e"
    using unat_add_le [of "tokens l" ?new] by (simp add: min_word)
  have "unat (tokens_per_ms l) * (elapsed_millis (last_refill l) zero + ?e)
      \<le> unat (tokens_per_ms l) * elapsed_millis now zero" if "?e > 0"
    using elapsed_add [OF that assms] by (rule mult_le_mono2)
  with t show ?thesis by (auto simp: refill_def Let_def distrib_left)
qed

lemma acquire_bound:
  assumes "acquire_all ts l = (bs, l')" and "zero \<le> last_refill l"
  shows "1000 * granted bs + unat (tokens l') + unat (tokens_per_ms l) * elapsed_millis (last_refill l) zero
     \<le> unat (tokens l) + unat (tokens_per_ms l) * elapsed_millis (last_refill l') zero
    \<and> tokens_per_ms l' = tokens_per_ms l \<and> last_refill l' \<in> insert (last_refill l) (set ts)"
  using assms
proof (induction ts arbitrary: l bs)
  case Nil
  then show ?case by (simp add: granted_def)
next
  case (Cons t ts)
  obtain b l1 where l1: "try_acquire t l = (b, l1)" by (cases "try_acquire t l") auto
  obtain bs' where bs': "acquire_all ts l1 = (bs', l')" "bs = b # bs'"
    using Cons.prems l1 by (auto split: prod.splits)
  have tok: "1000 * (if b then 1 else 0) + unat (tokens l1) = unat (tokens (refill t l))"
    using l1 by (auto simp: try_acquire_def Let_def word_less_nat_alt unat_sub word_le_nat_alt split: if_splits)
  have l1': "tokens_per_ms l1 = tokens_per_ms l" "last_refill l1 = last_refill (refill t l)"
    using l1 by (auto simp: try_acquire_def Let_def split: if_splits)
  have "last_refill (refill t l) \<in> {last_refill l, t}" by (simp add: refill_def Let_def)
  moreover have "zero \<le> last_refill l1" using refill_later [of l t] Cons.prems(2) l1'(2) by simp
  ultimately show ?case
    using Cons.IH [OF bs'(1)] refill_bound [OF Cons.prems(2), of t] tok l1' bs'(2)
    by (auto simp: granted_def)
qed

lemma unat_max_tokens: "unat (max_tokens (limiter_new t c)) = 1000 * unat (burst_size c)"
proof -
  have "unat (burst_size c) < 2 ^ 32" using unsigned_less [of "burst_size c"] by simp
  then show ?thesis by (simp add: limiter_new_def Let_def unat_word_ariths unsigned_ucast_eq take_bit_eq_mod)
qed

lemma unat_tokens_per_ms: "unat (tokens_per_ms (limiter_new t c)) = unat (requests_per_second c)"
proof -
  have "unat (requests_per_second c) < 2 ^ 32" using unsigned_less [of "requests_per_second c"] by simp
  then show ?thesis by (simp add: limiter_new_def Let_def unat_word_ariths unat_div unsigned_ucast_eq take_bit_eq_mod)
qed

lemma limiter_new_sel [simp]:
  "tokens (limiter_new t c) = max_tokens (limiter_new t c)" "last_refill (limiter_new t c) = t"
  by (simp_all add: limiter_new_def Let_def)

text \<open>
  C34. However a client spaces its requests, in any run up to time T the limiter grants at most the
  burst size plus the configured rate times the time since it was made (both sides counted in
  thousandths of a request, the time in milliseconds).
\<close>

theorem rate_is_bounded:
  assumes "acquire_all ts (limiter_new t0 c) = (bs, l')" and "t0 \<le> T" and "\<forall>t\<in>set ts. t \<le> T"
  shows "1000 * granted bs \<le> 1000 * unat (burst_size c) + unat (requests_per_second c) * elapsed_millis T t0"
proof -
  have b: "1000 * granted bs + unat (tokens l') + unat (requests_per_second c) * elapsed_millis t0 t0
      \<le> 1000 * unat (burst_size c) + unat (requests_per_second c) * elapsed_millis (last_refill l') t0"
    and "last_refill l' \<in> insert t0 (set ts)"
    using acquire_bound [OF assms(1), of t0] by (simp_all add: unat_max_tokens unat_tokens_per_ms)
  then have "last_refill l' \<le> T" using assms(2,3) by auto
  then have "elapsed_millis (last_refill l') t0 \<le> elapsed_millis T t0"
    by (simp add: elapsed_millis_def div_le_mono)
  then have "unat (requests_per_second c) * elapsed_millis (last_refill l') t0
      \<le> unat (requests_per_second c) * elapsed_millis T t0" by (rule mult_le_mono2)
  with b show ?thesis by linarith
qed

lemma acquire_burst:
  assumes "unat (tokens l) = 1000 * k" and "last_refill l = t"
  shows "fst (acquire_all (replicate n t) l) = replicate (min n k) True @ replicate (n - k) False"
  using assms
proof (induction n arbitrary: l k)
  case (Suc n)
  have r: "refill t l = l" using Suc.prems by (simp add: refill_def elapsed_millis_def)
  show ?case
  proof (cases k)
    case 0
    then have "try_acquire t l = (False, l)"
      using Suc.prems r by (simp add: try_acquire_def word_less_nat_alt)
    then show ?thesis using Suc.IH [of l 0] Suc.prems 0 by (simp add: case_prod_beta)
  next
    case (Suc k')
    then have "\<not> tokens l < 1000" "unat (tokens l - 1000) = 1000 * k'"
      using Suc.prems \<open>k = Suc k'\<close> by (simp_all add: word_less_nat_alt unat_sub word_le_nat_alt)
    then have "try_acquire t l = (True, l\<lparr>tokens := tokens l - 1000\<rparr>)"
      using r by (simp add: try_acquire_def)
    then show ?thesis
      using Suc.IH [of "l\<lparr>tokens := tokens l - 1000\<rparr>" k'] \<open>unat (tokens l - 1000) = 1000 * k'\<close> Suc.prems Suc
      by (simp add: case_prod_beta)
  qed
qed simp

text \<open>
  A fresh limiter grants a burst of exactly the configured size: of any number of requests in
  the same instant the first \<open>burst_size\<close> are granted and all others refused.
\<close>

theorem burst_then_limit:
  "fst (acquire_all (replicate n t) (limiter_new t c)) =
     replicate (min n (unat (burst_size c))) True @ replicate (n - unat (burst_size c)) False"
  by (rule acquire_burst) (simp_all add: unat_max_tokens)

fun refills :: "nat \<Rightarrow> nat \<Rightarrow> rate_limiter \<Rightarrow> rate_limiter" where
  "refills d 0 l = l"
| "refills d (Suc n) l = refills d n (refill (last_refill l + d) l)"

text \<open>
  Refilling counts whole milliseconds and then starts a new period at the present instant, so the
  fraction is lost: polled at intervals of at least one and less than two milliseconds, the bucket
  gains one millisecond's worth each time, however close to two the interval is. The rate a busy
  connection gets can be nearly half of the configured one.
\<close>

theorem refill_drops_fractions:
  assumes "1000000 \<le> d" and "d < 2000000" and "tokens_per_ms l > 0"
    and "unat (tokens l) + n * unat (tokens_per_ms l) \<le> unat (max_tokens l)"
  shows "unat (tokens (refills d n l)) = unat (tokens l) + n * unat (tokens_per_ms l) \<and>
    last_refill (refills d n l) = last_refill l + n * d"
  using assms(3,4)
proof (induction n arbitrary: l)
  case (Suc n)
  let ?t = "last_refill l + d"
  have e: "elapsed_millis ?t (last_refill l) = 1"
    using assms(1,2) by (simp add: elapsed_millis_def div_nat_eqI)
  have le: "unat (tokens l) + unat (tokens_per_ms l) \<le> unat (max_tokens l)" using Suc.prems by simp
  moreover have "unat (max_tokens l) < 2 ^ 64" using unsigned_less [of "max_tokens l"] by simp
  ultimately have s: "unat (tokens l + tokens_per_ms l) = unat (tokens l) + unat (tokens_per_ms l)"
    by (simp add: unat_word_ariths)
  with le have "min (tokens l + tokens_per_ms l) (max_tokens l) = tokens l + tokens_per_ms l"
    by (simp add: min_def word_le_nat_alt)
  then have "refill ?t l = l\<lparr>last_refill := ?t, tokens := tokens l + tokens_per_ms l\<rparr>"
    using e Suc.prems by (simp add: refill_def)
  with Suc s show ?case by simp
qed simp

lemma refill_drops_fractions_witness:
  "unat (tokens (refills 1999999 50 (limiter_new 0 (from_rate 100) \<lparr>tokens := 0\<rparr>))) = 5000 \<and>
   last_refill (refills 1999999 50 (limiter_new 0 (from_rate 100) \<lparr>tokens := 0\<rparr>)) = 99999950"
proof -
  let ?l = "limiter_new 0 (from_rate 100) \<lparr>tokens := 0\<rparr>"
  have l: "unat (tokens_per_ms ?l) = 100" "unat (max_tokens ?l) = 200000" "tokens_per_ms ?l > 0"
    using unat_max_tokens [of 0 "from_rate 100"] unat_tokens_per_ms [of 0 "from_rate 100"]
    by (simp_all add: from_rate_def word_less_nat_alt)
  with refill_drops_fractions [of 1999999 ?l 50] show ?thesis by simp
qed

lemma rate_is_bounded_witness:
  "1000 * granted (fst (acquire_all [0, 500000000] (limiter_new 0 config_default))) \<le> 2500000"
  using rate_is_bounded [of "[0, 500000000]" 0 config_default _ _ 500000000, OF surjective_pairing]
  by (simp add: config_default_def elapsed_millis_def)

end
