(* ===== verification/Storage.thy ===== *)
theory Storage imports Manager begin

section \<open>Storage (ussl-storage: lib.rs, memory.rs)\<close>

text \<open>
  The trait of the storage backends as a locale, with what a client of it relies on, and the
  in-memory backend as its instance. Metadata are kept as JSON bytes; \<open>to_vec\<close> and \<open>from_slice\<close>
  of the JSON library are a parameter. Sizes are counted in a \<^verbatim>\<open>usize\<close>, whose subtraction wraps.
\<close>

datatype storage_error =
    NotFound string
  | Serialization string
  | Io string
  | Database string
  | Connection string

fun storage_error_msg :: "storage_error \<Rightarrow> string" where
  "storage_error_msg (NotFound s) = ''Document not found: '' @ s"
| "storage_error_msg (Serialization s) = ''Serialization error: '' @ s"
| "storage_error_msg (Io s) = ''IO error: '' @ s"
| "storage_error_msg (Database s) = ''Database error: '' @ s"
| "storage_error_msg (Connection s) = ''Connection error: '' @ s"

record storage_stats =
  stored_count :: nat
  total_size_bytes :: u64

record meta_serde =
  to_vec :: "document_meta \<Rightarrow> string + bytes"
  from_slice :: "bytes \<Rightarrow> string + document_meta"

subsection \<open>The in-memory backend\<close>

record memory_storage =
  mem_data :: "(bytes \<times> bytes) dashmap"
  total_size :: u64

definition memory_new :: memory_storage where
  "memory_new = \<lparr>mem_data = [], total_size = 0\<rparr>"

definition entry_size :: "bytes \<times> bytes \<Rightarrow> nat" where
  "entry_size e = length (fst e) + length (snd e)"

definition memory_store ::
  "meta_serde \<Rightarrow> document_id \<Rightarrow> document_meta \<Rightarrow> bytes \<Rightarrow> memory_storage \<Rightarrow> (storage_error + unit) \<times> memory_storage" where
  "memory_store sd i m data s =
     (case to_vec sd m of
        Inl e \<Rightarrow> (Inl (Serialization e), s)
      | Inr meta_bytes \<Rightarrow>
          let new_size = length meta_bytes + length data;
              t = (case dm_get (mem_data s) (id_str i) of
                     Some existing \<Rightarrow> total_size s - word_of_nat (entry_size existing)
                   | None \<Rightarrow> total_size s)
          in (Inr (), s\<lparr>total_size := t + word_of_nat new_size,
                mem_data := dm_insert (id_str i) (meta_bytes, data) (mem_data s)\<rparr>))"

text \<open>The same in its two parts, the account of the size and the entry, which other tasks may come between.\<close>

definition store_account :: "document_id \<Rightarrow> nat \<Rightarrow> memory_storage \<Rightarrow> memory_storage" where
  "store_account i new_size s =
     s\<lparr>total_size := (case dm_get (mem_data s) (id_str i) of
          Some existing \<Rightarrow> total_size s - word_of_nat (entry_size existing)
        | None \<Rightarrow> total_size s) + word_of_nat new_size\<rparr>"

definition store_entry :: "document_id \<Rightarrow> bytes \<times> bytes \<Rightarrow> memory_storage \<Rightarrow> memory_storage" where
  "store_entry i e s = s\<lparr>mem_data := dm_insert (id_str i) e (mem_data s)\<rparr>"

lemma memory_store_accesses:
  "memory_store sd i m data s =
     (case to_vec sd m of
        Inl e \<Rightarrow> (Inl (Serialization e), s)
      | Inr b \<Rightarrow> (Inr (), store_entry i (b, data) (store_account i (entry_size (b, data)) s)))"
  by (simp add: memory_store_def store_account_def store_entry_def entry_size_def Let_def split: sum.split)

definition memory_load ::
  "meta_serde \<Rightarrow> document_id \<Rightarrow> memory_storage \<Rightarrow> storage_error + (document_meta \<times> bytes) option" where
  "memory_load sd i s =
     (case dm_get (mem_data s) (id_str i) of
        Some (meta_bytes, data) \<Rightarrow>
          (case from_slice sd meta_bytes of
             Inl e \<Rightarrow> Inl (Serialization e)
           | Inr m \<Rightarrow> Inr (Some (m, data)))
      | None \<Rightarrow> Inr None)"

definition memory_delete :: "document_id \<Rightarrow> memory_storage \<Rightarrow> (storage_error + bool) \<times> memory_storage" where
  "memory_delete i s =
     (case dm_get (mem_data s) (id_str i) of
        Some e \<Rightarrow> (Inr True, s\<lparr>mem_data := dm_remove (id_str i) (mem_data s),
                     total_size := total_size s - word_of_nat (entry_size e)\<rparr>)
      | None \<Rightarrow> (Inr False, s))"

definition memory_matches_pattern :: "string \<Rightarrow> string \<Rightarrow> bool" where
  "memory_matches_pattern key pattern =
     (if pattern = ''*'' then True
      else case strip_suffix_char (CHR ''*'') pattern of
        Some p \<Rightarrow> prefix p key
      | None \<Rightarrow>
          (case strip_prefix_char (CHR ''*'') pattern of
             Some s \<Rightarrow> suffix s key
           | None \<Rightarrow> key = pattern))"

definition memory_list :: "string option \<Rightarrow> memory_storage \<Rightarrow> storage_error + document_id list" where
  "memory_list pattern s =
     Inr (concat (map (\<lambda>(k, e).
       if (case pattern of None \<Rightarrow> True | Some p \<Rightarrow> memory_matches_pattern k p)
       then (case document_id_new k of Inr i \<Rightarrow> [i] | Inl _ \<Rightarrow> [])
       else []) (mem_data s)))"

definition memory_exists :: "document_id \<Rightarrow> memory_storage \<Rightarrow> storage_error + bool" where
  "memory_exists i s = Inr (dm_get (mem_data s) (id_str i) \<noteq> None)"

definition memory_stats :: "memory_storage \<Rightarrow> storage_error + storage_stats" where
  "memory_stats s = Inr \<lparr>stored_count = length (mem_data s), total_size_bytes = total_size s\<rparr>"

subsection \<open>The interface\<close>

text \<open>
  What every backend promises: a load after a successful store gives what was stored (as it reads
  back), a failed store changes nothing, a deleted document is gone, and neither touches another
  document; \<open>exists\<close> tells whether a load finds something.
\<close>

locale storage_backend =
  fixes store :: "document_id \<Rightarrow> document_meta \<Rightarrow> bytes \<Rightarrow> 's \<Rightarrow> (storage_error + unit) \<times> 's"
    and load :: "document_id \<Rightarrow> 's \<Rightarrow> storage_error + (document_meta \<times> bytes) option"
    and delete :: "document_id \<Rightarrow> 's \<Rightarrow> (storage_error + bool) \<times> 's"
    and exists_doc :: "document_id \<Rightarrow> 's \<Rightarrow> storage_error + bool"
    and reread :: "document_meta \<Rightarrow> bytes \<Rightarrow> storage_error + (document_meta \<times> bytes) option"
  assumes store_load: "store i m d s = (Inr (), s') \<Longrightarrow> load j s' = (if id_str j = id_str i then reread m d else load j s)"
    and store_fails: "store i m d s = (Inl e, s') \<Longrightarrow> s' = s"
    and delete_load: "delete i s = (r, s') \<Longrightarrow> load j s' = (if id_str j = id_str i then Inr None else load j s)"
    and delete_result: "delete i s = (r, s') \<Longrightarrow> r = exists_doc i s"
    and exists_load: "exists_doc i s = Inr (load i s \<noteq> Inr None)"
begin

definition stored :: "document_id \<Rightarrow> document_meta \<Rightarrow> bytes \<Rightarrow> 's \<Rightarrow> 's" where
  "stored i m d s = snd (store i m d s)"

definition storable :: "document_meta \<Rightarrow> bytes \<Rightarrow> bool" where
  "storable m d \<longleftrightarrow> (\<forall>i s. fst (store i m d s) = Inr ())"

fun store_all :: "(document_id \<times> document_meta \<times> bytes) list \<Rightarrow> 's \<Rightarrow> 's" where
  "store_all [] s = s"
| "store_all ((i, m, d) # ws) s = store_all ws (stored i m d s)"

lemma load_stored:
  "storable m d \<Longrightarrow> load j (stored i m d s) = (if id_str j = id_str i then reread m d else load j s)"
  using store_load [of i m d s "snd (store i m d s)" j]
  by (auto simp: storable_def stored_def prod_eq_iff)

lemma load_store_all:
  assumes "\<forall>(i, m, d)\<in>set ws. storable m d"
  shows "load j (store_all ws s) =
    (case map_of (rev (map (\<lambda>(i, m, d). (id_str i, m, d)) ws)) (id_str j) of
       Some (m, d) \<Rightarrow> reread m d | None \<Rightarrow> load j s)"
  using assms
proof (induction ws arbitrary: s)
  case (Cons w ws)
  obtain i m d where w: "w = (i, m, d)" by (cases w) auto
  with Cons.prems have "storable m d" "\<forall>(i, m, d)\<in>set ws. storable m d" by auto
  with Cons.IH [of "stored i m d s"] w load_stored [of m d j i s] show ?case
    by (auto simp: map_add_def split: option.split)
qed simp

lemma deleted_gone: "delete i s = (r, s') \<Longrightarrow> load i s' = Inr None \<and> exists_doc i s' = Inr False"
  using delete_load [of i s r s' i] exists_load [of i s'] by simp

lemma delete_twice: "delete i s = (r, s') \<Longrightarrow> fst (delete i s') = Inr False"
  using deleted_gone [of i s r s'] delete_result [of i s' "fst (delete i s')" "snd (delete i s')"] by simp

end

definition memory_reread :: "meta_serde \<Rightarrow> document_meta \<Rightarrow> bytes \<Rightarrow> storage_error + (document_meta \<times> bytes) option" where
  "memory_reread sd m data =
     (case to_vec sd m of
        Inl e \<Rightarrow> Inl (Serialization e)
      | Inr b \<Rightarrow> (case from_slice sd b of Inl e \<Rightarrow> Inl (Serialization e) | Inr m' \<Rightarrow> Inr (Some (m', data))))"

lemma memory_store_result:
  "memory_store sd i m d s = (r, s') \<Longrightarrow>
     (case to_vec sd m of
        Inl e \<Rightarrow> r = Inl (Serialization e) \<and> s' = s
      | Inr b \<Rightarrow> r = Inr () \<and> mem_data s' = dm_insert (id_str i) (b, d) (mem_data s))"
  by (auto simp: memory_store_def Let_def split: sum.splits)

lemma memory_delete_result:
  "memory_delete i s = (r, s') \<Longrightarrow>
     r = memory_exists i s \<and> (\<forall>k. dm_get (mem_data s') k = (if k = id_str i then None else dm_get (mem_data s) k))"
  by (cases "dm_get (mem_data s) (id_str i)") (auto simp: memory_delete_def memory_exists_def)

interpretation mem: storage_backend "memory_store sd" "memory_load sd" memory_delete memory_exists "memory_reread sd" for sd
proof (unfold_locales, goal_cases)
  case (1 i m d s s' j)
  from memory_store_result [OF 1] obtain b where b: "to_vec sd m = Inr b"
      "mem_data s' = dm_insert (id_str i) (b, d) (mem_data s)" by (auto split: sum.splits)
  then show ?case
    by (cases "id_str j = id_str i") (simp_all add: memory_load_def memory_reread_def split: sum.split)
next
  case (2 i m d s e s')
  from memory_store_result [OF 2] show ?case by (auto split: sum.splits)
next
  case (3 i s r s' j)
  from memory_delete_result [OF 3] show ?case by (simp add: memory_load_def)
next
  case (4 i s r s')
  from memory_delete_result [OF 4] show ?case by simp
next
  case (5 i s)
  show ?case by (simp add: memory_exists_def memory_load_def split: option.split sum.split prod.split)
qed

end
