(* ===== verification/Sqlite.thy ===== *)
theory Sqlite imports Storage begin

section \<open>The SQLite storage (ussl-storage: sqlite.rs)\<close>

text \<open>
  The SQLite backend writes SQL texts and reads rows. SQLite and its Rust interface are not part of
  the repository: a connection's calls are a record of functions \<open>rusqlite\<close> over a state \<open>'d\<close>. What
  SQLite documents about the statements the code sends is the predicate \<open>sqlite_documented\<close>, over
  the table of documents that a state holds; any call may fail besides. The connection
  is behind a mutex and no panic can happen while it is held, so the calls come one after the other.
\<close>

datatype sql_value = SqlText string | SqlBlob bytes | SqlInteger i64

datatype sqlite_error = QueryReturnedNoRows | SqliteFailure string

record 'd rusqlite =
  r_open :: "string \<Rightarrow> sqlite_error + 'd"
  r_open_in_memory :: "sqlite_error + 'd"
  r_execute_batch :: "string \<Rightarrow> 'd \<Rightarrow> (sqlite_error + unit) \<times> 'd"
  r_execute :: "string \<Rightarrow> sql_value list \<Rightarrow> 'd \<Rightarrow> (sqlite_error + nat) \<times> 'd"
  r_query_row :: "string \<Rightarrow> sql_value list \<Rightarrow> 'd \<Rightarrow> sqlite_error + sql_value list"
  r_prepare :: "string \<Rightarrow> 'd \<Rightarrow> sqlite_error + (sqlite_error + (sqlite_error + sql_value list) list)"
  r_text :: "sql_value list \<Rightarrow> nat \<Rightarrow> sqlite_error + string"
  r_blob :: "sql_value list \<Rightarrow> nat \<Rightarrow> sqlite_error + bytes"
  r_i64 :: "sql_value list \<Rightarrow> nat \<Rightarrow> sqlite_error + i64"
  r_usize :: "sql_value list \<Rightarrow> nat \<Rightarrow> sqlite_error + u64"
  r_message :: "sqlite_error \<Rightarrow> string"

text \<open>\<open>r_prepare\<close> prepares a statement without parameters and gives what running it gives: an error, or its rows,
  each of which may fail to be read.\<close>

subsection \<open>The statements\<close>

fun sql_lines :: "string list \<Rightarrow> string" where
  "sql_lines [] = []"
| "sql_lines [l] = l"
| "sql_lines (l # ls) = l @ CHR 0x0A # sql_lines ls"

definition SQLITE_SCHEMA :: string where
  "SQLITE_SCHEMA = sql_lines [
     '''',
     ''            CREATE TABLE IF NOT EXISTS documents ('',
     ''                id TEXT PRIMARY KEY,'',
     ''                meta BLOB NOT NULL,'',
     ''                data BLOB NOT NULL,'',
     ''                created_at INTEGER NOT NULL DEFAULT (strftime('%s', 'now') * 1000),'',
     ''                updated_at INTEGER NOT NULL DEFAULT (strftime('%s', 'now') * 1000)'',
     ''            );'',
     '''',
     ''            CREATE INDEX IF NOT EXISTS idx_documents_updated_at ON documents(updated_at);'',
     ''            '']"

definition SQLITE_STORE :: string where
  "SQLITE_STORE = sql_lines [
     '''',
     ''            INSERT INTO documents (id, meta, data, updated_at)'',
     ''            VALUES (?1, ?2, ?3, strftime('%s', 'now') * 1000)'',
     ''            ON CONFLICT(id) DO UPDATE SET'',
     ''                meta = excluded.meta,'',
     ''                data = excluded.data,'',
     ''                updated_at = excluded.updated_at'',
     ''            '']"

definition SQLITE_LOAD :: string where
  "SQLITE_LOAD = ''SELECT meta, data FROM documents WHERE id = ?1''"

definition SQLITE_DELETE :: string where
  "SQLITE_DELETE = ''DELETE FROM documents WHERE id = ?1''"

definition SQLITE_EXISTS :: string where
  "SQLITE_EXISTS = ''SELECT COUNT(*) FROM documents WHERE id = ?1''"

definition SQLITE_COUNT :: string where
  "SQLITE_COUNT = ''SELECT COUNT(*) FROM documents''"

definition SQLITE_SIZE :: string where
  "SQLITE_SIZE = ''SELECT COALESCE(SUM(LENGTH(meta) + LENGTH(data)), 0) FROM documents''"

definition SQLITE_ALL :: string where
  "SQLITE_ALL = ''SELECT id FROM documents ORDER BY updated_at DESC''"

definition quote :: char where
  "quote = CHR 0x27"

definition LIKE_HEAD :: string where
  "LIKE_HEAD = ''SELECT id FROM documents WHERE id LIKE '' @ [quote]"

definition EQUAL_HEAD :: string where
  "EQUAL_HEAD = ''SELECT id FROM documents WHERE id = '' @ [quote]"

definition LIST_TAIL :: string where
  "LIST_TAIL = quote # '' ORDER BY updated_at DESC''"

text \<open>\<^verbatim>\<open>replace('\'', "''")\<close> doubles the quotes; \<^verbatim>\<open>trim_end_matches\<close> and \<^verbatim>\<open>trim_start_matches\<close> take all stars off an end.\<close>

definition double_quotes :: "string \<Rightarrow> string" where
  "double_quotes s = concat (map (\<lambda>c. if c = quote then [quote, quote] else [c]) s)"

definition trim_end_stars :: "string \<Rightarrow> string" where
  "trim_end_stars p = rev (dropWhile (\<lambda>c. c = CHR ''*'') (rev p))"

definition trim_start_stars :: "string \<Rightarrow> string" where
  "trim_start_stars p = dropWhile (\<lambda>c. c = CHR ''*'') p"

definition sqlite_list_sql :: "string option \<Rightarrow> string" where
  "sqlite_list_sql pattern =
     (case pattern of
        Some p \<Rightarrow>
          if suffix ''*'' p then LIKE_HEAD @ double_quotes (trim_end_stars p) @ ''%'' @ LIST_TAIL
          else if prefix ''*'' p then LIKE_HEAD @ ''%'' @ double_quotes (trim_start_stars p) @ LIST_TAIL
          else EQUAL_HEAD @ double_quotes p @ LIST_TAIL
      | None \<Rightarrow> SQLITE_ALL)"

subsection \<open>Opening a database\<close>

definition database_error :: "'d rusqlite \<Rightarrow> sqlite_error \<Rightarrow> storage_error" where
  "database_error R e = Database (r_message R e)"

definition sqlite_init_schema :: "'d rusqlite \<Rightarrow> 'd \<Rightarrow> (storage_error + unit) \<times> 'd" where
  "sqlite_init_schema R d =
     (case r_execute_batch R SQLITE_SCHEMA d of
        (Inl e, d') \<Rightarrow> (Inl (database_error R e), d')
      | (Inr _, d') \<Rightarrow> (Inr (), d'))"

definition sqlite_new :: "'d rusqlite \<Rightarrow> string \<Rightarrow> storage_error + 'd" where
  "sqlite_new R path =
     (case r_open R path of
        Inl e \<Rightarrow> Inl (database_error R e)
      | Inr d \<Rightarrow> (case sqlite_init_schema R d of (Inl e, d') \<Rightarrow> Inl e | (Inr _, d') \<Rightarrow> Inr d'))"

definition sqlite_in_memory :: "'d rusqlite \<Rightarrow> storage_error + 'd" where
  "sqlite_in_memory R =
     (case r_open_in_memory R of
        Inl e \<Rightarrow> Inl (database_error R e)
      | Inr d \<Rightarrow> (case sqlite_init_schema R d of (Inl e, d') \<Rightarrow> Inl e | (Inr _, d') \<Rightarrow> Inr d'))"

subsection \<open>The operations\<close>

definition sqlite_store ::
  "'d rusqlite \<Rightarrow> meta_serde \<Rightarrow> document_id \<Rightarrow> document_meta \<Rightarrow> bytes \<Rightarrow> 'd \<Rightarrow> (storage_error + unit) \<times> 'd" where
  "sqlite_store R sd i m data d =
     (case to_vec sd m of
        Inl e \<Rightarrow> (Inl (Serialization e), d)
      | Inr meta_bytes \<Rightarrow>
          (case r_execute R SQLITE_STORE [SqlText (id_str i), SqlBlob meta_bytes, SqlBlob data] d of
             (Inl e, d') \<Rightarrow> (Inl (database_error R e), d')
           | (Inr _, d') \<Rightarrow> (Inr (), d')))"

definition two_blobs :: "'d rusqlite \<Rightarrow> sql_value list \<Rightarrow> sqlite_error + bytes \<times> bytes" where
  "two_blobs R row =
     (case r_blob R row 0 of
        Inl e \<Rightarrow> Inl e
      | Inr a \<Rightarrow> (case r_blob R row 1 of Inl e \<Rightarrow> Inl e | Inr b \<Rightarrow> Inr (a, b)))"

text \<open>\<^verbatim>\<open>query_row\<close> applies the closure to the row; \<^verbatim>\<open>optional\<close> turns the error that there is no row into \<open>None\<close>.\<close>

definition query_row :: "'d rusqlite \<Rightarrow> string \<Rightarrow> sql_value list \<Rightarrow> (sql_value list \<Rightarrow> sqlite_error + 'a) \<Rightarrow> 'd \<Rightarrow> sqlite_error + 'a" where
  "query_row R sql ps f d = (case r_query_row R sql ps d of Inl e \<Rightarrow> Inl e | Inr row \<Rightarrow> f row)"

fun optional :: "sqlite_error + 'a \<Rightarrow> sqlite_error + 'a option" where
  "optional (Inr a) = Inr (Some a)"
| "optional (Inl QueryReturnedNoRows) = Inr None"
| "optional (Inl e) = Inl e"

definition sqlite_load ::
  "'d rusqlite \<Rightarrow> meta_serde \<Rightarrow> document_id \<Rightarrow> 'd \<Rightarrow> storage_error + (document_meta \<times> bytes) option" where
  "sqlite_load R sd i d =
     (case optional (query_row R SQLITE_LOAD [SqlText (id_str i)] (two_blobs R) d) of
        Inl e \<Rightarrow> Inl (database_error R e)
      | Inr (Some (meta_bytes, data)) \<Rightarrow>
          (case from_slice sd meta_bytes of
             Inl e \<Rightarrow> Inl (Serialization e)
           | Inr m \<Rightarrow> Inr (Some (m, data)))
      | Inr None \<Rightarrow> Inr None)"

definition sqlite_delete :: "'d rusqlite \<Rightarrow> document_id \<Rightarrow> 'd \<Rightarrow> (storage_error + bool) \<times> 'd" where
  "sqlite_delete R i d =
     (case r_execute R SQLITE_DELETE [SqlText (id_str i)] d of
        (Inl e, d') \<Rightarrow> (Inl (database_error R e), d')
      | (Inr affected, d') \<Rightarrow> (Inr (affected > 0), d'))"

text \<open>Rows that cannot be read and identifiers that are not valid are left out.\<close>

definition listed_id :: "'d rusqlite \<Rightarrow> sqlite_error + sql_value list \<Rightarrow> document_id list" where
  "listed_id R r =
     (case r of
        Inl e \<Rightarrow> []
      | Inr row \<Rightarrow>
          (case r_text R row 0 of
             Inl e \<Rightarrow> []
           | Inr s \<Rightarrow> (case document_id_new s of Inl e \<Rightarrow> [] | Inr i \<Rightarrow> [i])))"

definition sqlite_list :: "'d rusqlite \<Rightarrow> string option \<Rightarrow> 'd \<Rightarrow> storage_error + document_id list" where
  "sqlite_list R pattern d =
     (case r_prepare R (sqlite_list_sql pattern) d of
        Inl e \<Rightarrow> Inl (database_error R e)
      | Inr (Inl e) \<Rightarrow> Inl (database_error R e)
      | Inr (Inr items) \<Rightarrow> Inr (concat (map (listed_id R) items)))"

definition sqlite_exists :: "'d rusqlite \<Rightarrow> document_id \<Rightarrow> 'd \<Rightarrow> storage_error + bool" where
  "sqlite_exists R i d =
     (case query_row R SQLITE_EXISTS [SqlText (id_str i)] (\<lambda>row. r_i64 R row 0) d of
        Inl e \<Rightarrow> Inl (database_error R e)
      | Inr count \<Rightarrow> Inr (0 <s count))"

definition sqlite_stats :: "'d rusqlite \<Rightarrow> 'd \<Rightarrow> storage_error + storage_stats" where
  "sqlite_stats R d =
     (case query_row R SQLITE_COUNT [] (\<lambda>row. r_usize R row 0) d of
        Inl e \<Rightarrow> Inl (database_error R e)
      | Inr n \<Rightarrow>
          (case query_row R SQLITE_SIZE [] (\<lambda>row. r_usize R row 0) d of
             Inl e \<Rightarrow> Inl (database_error R e)
           | Inr sz \<Rightarrow> Inr \<lparr>stored_count = unat n, total_size_bytes = sz\<rparr>))"

subsection \<open>What SQLite documents\<close>

text \<open>
  LIKE: a percent sign stands for any text, an underscore for any character, and letters are compared
  without their case (ASCII; every identifier is ASCII).
\<close>

datatype like_token = AnyString | AnyChar | Lit char

fun like :: "(char \<Rightarrow> char \<Rightarrow> bool) \<Rightarrow> like_token list \<Rightarrow> string \<Rightarrow> bool" where
  "like eq [] k \<longleftrightarrow> k = []"
| "like eq (AnyString # ts) [] \<longleftrightarrow> like eq ts []"
| "like eq (AnyString # ts) (x # k) \<longleftrightarrow> like eq ts (x # k) \<or> like eq (AnyString # ts) k"
| "like eq (AnyChar # ts) [] \<longleftrightarrow> False"
| "like eq (AnyChar # ts) (x # k) \<longleftrightarrow> like eq ts k"
| "like eq (Lit c # ts) [] \<longleftrightarrow> False"
| "like eq (Lit c # ts) (x # k) \<longleftrightarrow> eq c x \<and> like eq ts k"

definition like_token :: "char \<Rightarrow> like_token" where
  "like_token c = (if c = CHR ''%'' then AnyString else if c = CHR ''_'' then AnyChar else Lit c)"

definition same_letter :: "char \<Rightarrow> char \<Rightarrow> bool" where
  "same_letter a b \<longleftrightarrow> lower_char a = lower_char b"

definition sqlite_like :: "string \<Rightarrow> string \<Rightarrow> bool" where
  "sqlite_like p k = like same_letter (map like_token p) k"

text \<open>The table of documents: the columns that the code reads, by primary key.\<close>

record doc_row =
  row_meta :: bytes
  row_data :: bytes
  row_updated :: int

type_synonym doc_table = "string \<rightharpoonup> doc_row"

definition row_size :: "doc_row \<Rightarrow> nat" where
  "row_size r = length (row_meta r) + length (row_data r)"

definition table_size :: "doc_table \<Rightarrow> nat" where
  "table_size t = (\<Sum>k\<in>dom t. row_size (the (t k)))"

definition newest_first :: "doc_table \<Rightarrow> (string \<Rightarrow> bool) \<Rightarrow> string list \<Rightarrow> bool" where
  "newest_first t sel ks \<longleftrightarrow> distinct ks \<and> set ks = {k \<in> dom t. sel k} \<and>
     sorted_wrt (\<lambda>a b. row_updated (the (t b)) \<le> row_updated (the (t a))) ks"

text \<open>What running a query for one column gives: all its rows in order, or some of them and then an error.\<close>

definition rows_of :: "doc_table \<Rightarrow> (string \<Rightarrow> bool) \<Rightarrow> (sqlite_error + sql_value list) list \<Rightarrow> bool" where
  "rows_of t sel items \<longleftrightarrow> (\<exists>ks. newest_first t sel ks \<and>
     (items = map (\<lambda>k. Inr [SqlText k]) ks \<or> (\<exists>n e. items = map (\<lambda>k. Inr [SqlText k]) (take n ks) @ [Inl e])))"

definition documented_writes :: "'d rusqlite \<Rightarrow> ('d \<Rightarrow> doc_table) \<Rightarrow> bool" where
  "documented_writes R table \<longleftrightarrow>
     (\<forall>i m b d. case r_execute R SQLITE_STORE [SqlText i, SqlBlob m, SqlBlob b] d of
        (Inr n, d') \<Rightarrow> \<exists>t. table d' = (table d)(i \<mapsto> \<lparr>row_meta = m, row_data = b, row_updated = t\<rparr>)
      | (Inl e, d') \<Rightarrow> table d' = table d) \<and>
     (\<forall>i d. case r_execute R SQLITE_DELETE [SqlText i] d of
        (Inr n, d') \<Rightarrow> table d' = (table d)(i := None) \<and> n = (if table d i = None then 0 else 1)
      | (Inl e, d') \<Rightarrow> table d' = table d)"

definition documented_reads :: "'d rusqlite \<Rightarrow> ('d \<Rightarrow> doc_table) \<Rightarrow> bool" where
  "documented_reads R table \<longleftrightarrow>
     (\<forall>i d. case r_query_row R SQLITE_LOAD [SqlText i] d of
        Inr row \<Rightarrow> (\<exists>r. table d i = Some r \<and> row = [SqlBlob (row_meta r), SqlBlob (row_data r)])
      | Inl e \<Rightarrow> e = QueryReturnedNoRows \<longrightarrow> table d i = None) \<and>
     (\<forall>i d row. r_query_row R SQLITE_EXISTS [SqlText i] d = Inr row \<longrightarrow>
        row = [SqlInteger (if table d i = None then 0 else 1)]) \<and>
     (\<forall>d row. r_query_row R SQLITE_COUNT [] d = Inr row \<longrightarrow>
        (\<exists>n. row = [SqlInteger n] \<and> sint n = int (card (dom (table d))))) \<and>
     (\<forall>d row. r_query_row R SQLITE_SIZE [] d = Inr row \<longrightarrow>
        (\<exists>n. row = [SqlInteger n] \<and> sint n = int (table_size (table d))))"

definition documented_lists :: "'d rusqlite \<Rightarrow> ('d \<Rightarrow> doc_table) \<Rightarrow> bool" where
  "documented_lists R table \<longleftrightarrow>
     (\<forall>v d items. CHR 0x00 \<notin> set v \<and> r_prepare R (LIKE_HEAD @ double_quotes v @ LIST_TAIL) d = Inr (Inr items) \<longrightarrow>
        rows_of (table d) (sqlite_like v) items) \<and>
     (\<forall>v d items. CHR 0x00 \<notin> set v \<and> r_prepare R (EQUAL_HEAD @ double_quotes v @ LIST_TAIL) d = Inr (Inr items) \<longrightarrow>
        rows_of (table d) (\<lambda>k. k = v) items) \<and>
     (\<forall>d items. r_prepare R SQLITE_ALL d = Inr (Inr items) \<longrightarrow> rows_of (table d) (\<lambda>k. True) items)"

definition documented_columns :: "'d rusqlite \<Rightarrow> bool" where
  "documented_columns R \<longleftrightarrow>
     (\<forall>s row. r_text R (SqlText s # row) 0 = Inr s) \<and>
     (\<forall>a b. r_blob R [SqlBlob a, SqlBlob b] 0 = Inr a \<and> r_blob R [SqlBlob a, SqlBlob b] 1 = Inr b) \<and>
     (\<forall>n. r_i64 R [SqlInteger n] 0 = Inr n) \<and>
     (\<forall>n. 0 \<le> sint n \<longrightarrow> r_usize R [SqlInteger n] 0 = Inr n)"

definition sqlite_documented :: "'d rusqlite \<Rightarrow> ('d \<Rightarrow> doc_table) \<Rightarrow> bool" where
  "sqlite_documented R table \<longleftrightarrow>
     documented_writes R table \<and> documented_reads R table \<and> documented_lists R table \<and> documented_columns R"

end
