(* ===== verification/SqliteDemo.thy ===== *)
theory SqliteDemo imports Sqlite begin

section \<open>An engine that behaves as documented\<close>

text \<open>
  A table kept as a list, and the statements of the code understood from their texts: what is
  assumed of SQLite can be had.
\<close>

fun undouble :: "string \<Rightarrow> string" where
  "undouble [] = []"
| "undouble [c] = [c]"
| "undouble (c # x # s) = (if c = quote \<and> x = quote then quote # undouble s else c # undouble (x # s))"

lemma double_quotes_Cons: "double_quotes (c # s) = (if c = quote then [quote, quote] else [c]) @ double_quotes s"
  by (simp add: double_quotes_def)

lemma undouble_skip: "c \<noteq> quote \<Longrightarrow> undouble (c # s) = c # undouble s"
  by (cases s) simp_all

lemma undouble_double [simp]: "undouble (double_quotes s) = s"
  by (induction s) (simp_all add: double_quotes_Cons undouble_skip, simp add: double_quotes_def)

definition between :: "string \<Rightarrow> string \<Rightarrow> string \<Rightarrow> string option" where
  "between a b s = (if prefix a s \<and> suffix b s \<and> length a + length b \<le> length s
     then Some (take (length s - length a - length b) (drop (length a) s)) else None)"

lemma between_mid [simp]: "between a b (a @ m @ b) = Some m"
  by (simp add: between_def suffix_def)

type_synonym demo_table = "doc_row dashmap"

definition demo_rows :: "demo_table \<Rightarrow> (string \<Rightarrow> bool) \<Rightarrow> string list" where
  "demo_rows d sel = sort_key (\<lambda>k. - row_updated (the (map_of d k))) (filter sel (remdups (map fst d)))"

lemma demo_rows_newest: "newest_first (map_of d) sel (demo_rows d sel)"
proof -
  have "sorted (map (\<lambda>k. - row_updated (the (map_of d k))) (demo_rows d sel))"
    unfolding demo_rows_def by (rule sorted_sort_key)
  then have "sorted_wrt (\<lambda>a b. row_updated (the (map_of d b)) \<le> row_updated (the (map_of d a))) (demo_rows d sel)"
    by (simp add: sorted_map)
  then show ?thesis by (auto simp: newest_first_def demo_rows_def dom_map_of_conv_image_fst)
qed

definition demo_query :: "demo_table \<Rightarrow> (string \<Rightarrow> bool) \<Rightarrow> sqlite_error + (sqlite_error + (sqlite_error + sql_value list) list)" where
  "demo_query d sel = Inr (Inr (map (\<lambda>k. Inr [SqlText k]) (demo_rows d sel)))"

definition demo_prepare :: "string \<Rightarrow> demo_table \<Rightarrow> sqlite_error + (sqlite_error + (sqlite_error + sql_value list) list)" where
  "demo_prepare sql d =
     (if sql = SQLITE_ALL then demo_query d (\<lambda>k. True)
      else case between LIKE_HEAD LIST_TAIL sql of
        Some v \<Rightarrow> demo_query d (sqlite_like (undouble v))
      | None \<Rightarrow>
          (case between EQUAL_HEAD LIST_TAIL sql of
             Some v \<Rightarrow> demo_query d (\<lambda>k. k = undouble v)
           | None \<Rightarrow> Inl (SqliteFailure ''syntax error'')))"

definition demo_integer :: "nat \<Rightarrow> sqlite_error + sql_value list" where
  "demo_integer n = (if n < 2 ^ 63 then Inr [SqlInteger (word_of_nat n)] else Inl (SqliteFailure ''integer overflow''))"

definition demo_query_row :: "string \<Rightarrow> sql_value list \<Rightarrow> demo_table \<Rightarrow> sqlite_error + sql_value list" where
  "demo_query_row sql ps d =
     (case ps of
        [SqlText i] \<Rightarrow>
          if sql = SQLITE_LOAD
          then (case map_of d i of None \<Rightarrow> Inl QueryReturnedNoRows | Some r \<Rightarrow> Inr [SqlBlob (row_meta r), SqlBlob (row_data r)])
          else if sql = SQLITE_EXISTS then demo_integer (if map_of d i = None then 0 else 1)
          else Inl (SqliteFailure ''syntax error'')
      | [] \<Rightarrow>
          if sql = SQLITE_COUNT then demo_integer (length (remdups (map fst d)))
          else if sql = SQLITE_SIZE then demo_integer (sum_list (map (\<lambda>k. row_size (the (map_of d k))) (remdups (map fst d))))
          else Inl (SqliteFailure ''syntax error'')
      | _ \<Rightarrow> Inl (SqliteFailure ''wrong parameters''))"

definition demo_execute :: "string \<Rightarrow> sql_value list \<Rightarrow> demo_table \<Rightarrow> (sqlite_error + nat) \<times> demo_table" where
  "demo_execute sql ps d =
     (case ps of
        [SqlText i, SqlBlob m, SqlBlob b] \<Rightarrow>
          if sql = SQLITE_STORE
          then (Inr 1, dm_insert i \<lparr>row_meta = m, row_data = b, row_updated = int (length d)\<rparr> d)
          else (Inl (SqliteFailure ''syntax error''), d)
      | [SqlText i] \<Rightarrow>
          if sql = SQLITE_DELETE then (Inr (if map_of d i = None then 0 else 1), dm_remove i d)
          else (Inl (SqliteFailure ''syntax error''), d)
      | _ \<Rightarrow> (Inl (SqliteFailure ''wrong parameters''), d))"

definition demo_sqlite :: "demo_table rusqlite" where
  "demo_sqlite = \<lparr>r_open = (\<lambda>p. Inr []), r_open_in_memory = Inr [], r_execute_batch = (\<lambda>sql d. (Inr (), d)),
     r_execute = demo_execute, r_query_row = demo_query_row, r_prepare = demo_prepare,
     r_text = (\<lambda>row i. if i < length row then (case row ! i of SqlText s \<Rightarrow> Inr s | _ \<Rightarrow> Inl (SqliteFailure ''type'')) else Inl (SqliteFailure ''index'')),
     r_blob = (\<lambda>row i. if i < length row then (case row ! i of SqlBlob s \<Rightarrow> Inr s | _ \<Rightarrow> Inl (SqliteFailure ''type'')) else Inl (SqliteFailure ''index'')),
     r_i64 = (\<lambda>row i. if i < length row then (case row ! i of SqlInteger n \<Rightarrow> Inr n | _ \<Rightarrow> Inl (SqliteFailure ''type'')) else Inl (SqliteFailure ''index'')),
     r_usize = (\<lambda>row i. if i < length row then (case row ! i of SqlInteger n \<Rightarrow> if 0 \<le> sint n then Inr n else Inl (SqliteFailure ''range'') | _ \<Rightarrow> Inl (SqliteFailure ''type'')) else Inl (SqliteFailure ''index'')),
     r_message = (\<lambda>e. case e of QueryReturnedNoRows \<Rightarrow> ''Query returned no rows'' | SqliteFailure s \<Rightarrow> s)\<rparr>"

lemma demo_integer_row: "demo_integer n = Inr row \<Longrightarrow> \<exists>w. row = [SqlInteger w] \<and> sint w = int n"
  using sint_word_of_nat [of n] by (auto simp: demo_integer_def split: if_splits)

lemma demo_sql_distinct [simp]:
  "SQLITE_STORE \<noteq> SQLITE_DELETE" "SQLITE_LOAD \<noteq> SQLITE_EXISTS" "SQLITE_EXISTS \<noteq> SQLITE_LOAD"
  "SQLITE_COUNT \<noteq> SQLITE_SIZE" "SQLITE_SIZE \<noteq> SQLITE_COUNT"
  "LIKE_HEAD @ s \<noteq> SQLITE_ALL" "EQUAL_HEAD @ s \<noteq> SQLITE_ALL"
  by (simp_all add: SQLITE_STORE_def SQLITE_DELETE_def SQLITE_LOAD_def SQLITE_EXISTS_def SQLITE_COUNT_def SQLITE_SIZE_def
      SQLITE_ALL_def LIKE_HEAD_def EQUAL_HEAD_def)

lemma between_other [simp]: "between LIKE_HEAD t (EQUAL_HEAD @ s) = None"
  by (simp add: between_def LIKE_HEAD_def EQUAL_HEAD_def)

lemma demo_query_rows: "demo_query d sel = Inr (Inr items) \<Longrightarrow> rows_of (map_of d) sel items"
  using demo_rows_newest [of d sel] by (auto simp: demo_query_def rows_of_def)

lemma demo_size: "sum_list (map (\<lambda>k. row_size (the (map_of d k))) (remdups (map fst d))) = table_size (map_of d)"
  by (simp add: table_size_def sum_list_distinct_conv_sum_set dom_map_of_conv_image_fst)

lemma demo_card: "length (remdups (map fst d)) = card (dom (map_of d))"
  by (simp add: dom_map_of_conv_image_fst length_remdups_card_conv)

lemma demo_sqlite_documented: "sqlite_documented demo_sqlite map_of"
proof -
  have "documented_writes demo_sqlite map_of"
    by (auto simp: documented_writes_def demo_sqlite_def demo_execute_def fun_eq_iff)
  moreover have "documented_reads demo_sqlite map_of"
    using demo_integer_row
    by (auto simp: documented_reads_def demo_sqlite_def demo_query_row_def demo_card demo_size demo_integer_def split: if_splits option.splits)
  moreover have "documented_lists demo_sqlite map_of"
    using demo_query_rows by (auto simp: documented_lists_def demo_sqlite_def demo_prepare_def)
  moreover have "documented_columns demo_sqlite"
    by (simp add: documented_columns_def demo_sqlite_def)
  ultimately show ?thesis by (simp add: sqlite_documented_def)
qed

end
