(* ===== verification/Postgres.thy ===== *)
theory Postgres imports SqliteDemo begin

section \<open>The PostgreSQL storage (ussl-storage: postgres.rs)\<close>

text \<open>
  The PostgreSQL backend binds every value as a parameter. The pool of connections and the rows it gives
  are those of the library sqlx, a record of functions; \<open>None\<close> as the value of a column is
  the panic of \<^verbatim>\<open>get\<close> on a missing column or another type. \<open>postgres_documented\<close> is what PostgreSQL
  documents about the statements sent, and \<open>prepares_single_commands\<close> what it documents about several
  commands in one prepared statement.
\<close>

type_synonym pg_row = "(string \<times> sql_value) list"

record ('d, 'l) sqlx =
  pg_connect :: "nat \<Rightarrow> string \<Rightarrow> string + 'd"
  pg_execute :: "string \<Rightarrow> sql_value list \<Rightarrow> 'd \<Rightarrow> (string + nat) \<times> 'd"
  pg_fetch_optional :: "string \<Rightarrow> sql_value list \<Rightarrow> 'd \<Rightarrow> string + pg_row option"
  pg_fetch_all :: "string \<Rightarrow> sql_value list \<Rightarrow> 'd \<Rightarrow> string + pg_row list"
  pg_fetch_one :: "string \<Rightarrow> sql_value list \<Rightarrow> 'd \<Rightarrow> string + pg_row"
  pg_bytes :: "pg_row \<Rightarrow> string \<Rightarrow> bytes option"
  pg_text :: "pg_row \<Rightarrow> string \<Rightarrow> string option"
  pg_i64 :: "pg_row \<Rightarrow> string \<Rightarrow> i64 option"
  pg_listener :: "'d \<Rightarrow> string + 'l"
  pg_listen :: "string \<Rightarrow> 'l \<Rightarrow> string + 'l"

subsection \<open>The statements\<close>

definition PG_SCHEMA :: string where
  "PG_SCHEMA = sql_lines [
     '''',
     ''            CREATE TABLE IF NOT EXISTS documents ('',
     ''                id TEXT PRIMARY KEY,'',
     ''                meta BYTEA NOT NULL,'',
     ''                data BYTEA NOT NULL,'',
     ''                created_at TIMESTAMPTZ NOT NULL DEFAULT NOW(),'',
     ''                updated_at TIMESTAMPTZ NOT NULL DEFAULT NOW()'',
     ''            );'',
     '''',
     ''            CREATE INDEX IF NOT EXISTS idx_documents_updated_at ON documents(updated_at DESC);'',
     ''            '']"

definition PG_TRIGGER :: string where
  "PG_TRIGGER = sql_lines [
     '''',
     ''            CREATE OR REPLACE FUNCTION notify_document_change()'',
     ''            RETURNS TRIGGER AS $$'',
     ''            BEGIN'',
     ''                PERFORM pg_notify('document_changes', NEW.id);'',
     ''                RETURN NEW;'',
     ''            END;'',
     ''            $$ LANGUAGE plpgsql;'',
     '''',
     ''            DROP TRIGGER IF EXISTS document_change_trigger ON documents;'',
     ''            CREATE TRIGGER document_change_trigger'',
     ''                AFTER INSERT OR UPDATE ON documents'',
     ''                FOR EACH ROW EXECUTE FUNCTION notify_document_change();'',
     ''            '']"

definition PG_STORE :: string where
  "PG_STORE = sql_lines [
     '''',
     ''            INSERT INTO documents (id, meta, data, updated_at)'',
     ''            VALUES ($1, $2, $3, NOW())'',
     ''            ON CONFLICT (id) DO UPDATE SET'',
     ''                meta = EXCLUDED.meta,'',
     ''                data = EXCLUDED.data,'',
     ''                updated_at = NOW()'',
     ''            '']"

definition PG_LOAD :: string where
  "PG_LOAD = ''SELECT meta, data FROM documents WHERE id = $1''"

definition PG_DELETE :: string where
  "PG_DELETE = ''DELETE FROM documents WHERE id = $1''"

definition PG_LIKE :: string where
  "PG_LIKE = ''SELECT id FROM documents WHERE id LIKE $1 ORDER BY updated_at DESC''"

definition PG_EQUAL :: string where
  "PG_EQUAL = ''SELECT id FROM documents WHERE id = $1''"

definition PG_ALL :: string where
  "PG_ALL = ''SELECT id FROM documents ORDER BY updated_at DESC''"

definition PG_EXISTS :: string where
  "PG_EXISTS = ''SELECT 1 FROM documents WHERE id = $1''"

definition PG_COUNT :: string where
  "PG_COUNT = ''SELECT COUNT(*) as count FROM documents''"

definition PG_SIZE :: string where
  "PG_SIZE = ''SELECT COALESCE(SUM(LENGTH(meta) + LENGTH(data)), 0) as size FROM documents''"

subsection \<open>Opening a database\<close>

definition postgres_init_schema :: "('d, 'l) sqlx \<Rightarrow> 'd \<Rightarrow> (storage_error + unit) \<times> 'd" where
  "postgres_init_schema P d =
     (case pg_execute P PG_SCHEMA [] d of
        (Inl e, d') \<Rightarrow> (Inl (Database e), d')
      | (Inr n, d') \<Rightarrow>
          (case pg_execute P PG_TRIGGER [] d' of
             (Inl e, d'') \<Rightarrow> (Inl (Database e), d'')
           | (Inr n, d'') \<Rightarrow> (Inr (), d'')))"

definition postgres_new :: "('d, 'l) sqlx \<Rightarrow> string \<Rightarrow> storage_error + 'd" where
  "postgres_new P url =
     (case pg_connect P 10 url of
        Inl e \<Rightarrow> Inl (Connection e)
      | Inr d \<Rightarrow> (case postgres_init_schema P d of (Inl e, d') \<Rightarrow> Inl e | (Inr _, d') \<Rightarrow> Inr d'))"

definition postgres_with_pool :: "'d \<Rightarrow> 'd" where
  "postgres_with_pool d = d"

definition subscribe_changes :: "('d, 'l) sqlx \<Rightarrow> 'd \<Rightarrow> storage_error + 'l" where
  "subscribe_changes P d =
     (case pg_listener P d of
        Inl e \<Rightarrow> Inl (Connection e)
      | Inr l \<Rightarrow> (case pg_listen P ''document_changes'' l of Inl e \<Rightarrow> Inl (Database e) | Inr l' \<Rightarrow> Inr l'))"

subsection \<open>The operations\<close>

text \<open>Where a column is read the result is \<open>None\<close> if the read panics.\<close>

definition postgres_store ::
  "('d, 'l) sqlx \<Rightarrow> meta_serde \<Rightarrow> document_id \<Rightarrow> document_meta \<Rightarrow> bytes \<Rightarrow> 'd \<Rightarrow> (storage_error + unit) \<times> 'd" where
  "postgres_store P sd i m data d =
     (case to_vec sd m of
        Inl e \<Rightarrow> (Inl (Serialization e), d)
      | Inr meta_bytes \<Rightarrow>
          (case pg_execute P PG_STORE [SqlText (id_str i), SqlBlob meta_bytes, SqlBlob data] d of
             (Inl e, d') \<Rightarrow> (Inl (Database e), d')
           | (Inr _, d') \<Rightarrow> (Inr (), d')))"

definition postgres_load ::
  "('d, 'l) sqlx \<Rightarrow> meta_serde \<Rightarrow> document_id \<Rightarrow> 'd \<Rightarrow> (storage_error + (document_meta \<times> bytes) option) option" where
  "postgres_load P sd i d =
     (case pg_fetch_optional P PG_LOAD [SqlText (id_str i)] d of
        Inl e \<Rightarrow> Some (Inl (Database e))
      | Inr (Some row) \<Rightarrow> do {
          meta_bytes \<leftarrow> pg_bytes P row ''meta'';
          data \<leftarrow> pg_bytes P row ''data'';
          Some (case from_slice sd meta_bytes of
             Inl e \<Rightarrow> Inl (Serialization e)
           | Inr m \<Rightarrow> Inr (Some (m, data)))
        }
      | Inr None \<Rightarrow> Some (Inr None))"

definition postgres_delete :: "('d, 'l) sqlx \<Rightarrow> document_id \<Rightarrow> 'd \<Rightarrow> (storage_error + bool) \<times> 'd" where
  "postgres_delete P i d =
     (case pg_execute P PG_DELETE [SqlText (id_str i)] d of
        (Inl e, d') \<Rightarrow> (Inl (Database e), d')
      | (Inr affected, d') \<Rightarrow> (Inr (affected > 0), d'))"

definition postgres_list_query :: "string option \<Rightarrow> string \<times> sql_value list" where
  "postgres_list_query pattern =
     (case pattern of
        Some p \<Rightarrow>
          if suffix ''*'' p then (PG_LIKE, [SqlText (trim_end_stars p @ ''%'')])
          else if prefix ''*'' p then (PG_LIKE, [SqlText (''%'' @ trim_start_stars p)])
          else (PG_EQUAL, [SqlText p])
      | None \<Rightarrow> (PG_ALL, []))"

fun valid_ids :: "string list \<Rightarrow> document_id list" where
  "valid_ids [] = []"
| "valid_ids (s # ss) = (case document_id_new s of Inl e \<Rightarrow> valid_ids ss | Inr i \<Rightarrow> i # valid_ids ss)"

definition postgres_list :: "('d, 'l) sqlx \<Rightarrow> string option \<Rightarrow> 'd \<Rightarrow> (storage_error + document_id list) option" where
  "postgres_list P pattern d =
     (case postgres_list_query pattern of
        (sql, ps) \<Rightarrow>
          (case pg_fetch_all P sql ps d of
             Inl e \<Rightarrow> Some (Inl (Database e))
           | Inr rows \<Rightarrow> map_option (\<lambda>ids. Inr (valid_ids ids)) (those (map (\<lambda>row. pg_text P row ''id'') rows))))"

definition postgres_exists :: "('d, 'l) sqlx \<Rightarrow> document_id \<Rightarrow> 'd \<Rightarrow> storage_error + bool" where
  "postgres_exists P i d =
     (case pg_fetch_optional P PG_EXISTS [SqlText (id_str i)] d of
        Inl e \<Rightarrow> Inl (Database e)
      | Inr row \<Rightarrow> Inr (row \<noteq> None))"

definition postgres_stats :: "('d, 'l) sqlx \<Rightarrow> 'd \<Rightarrow> (storage_error + storage_stats) option" where
  "postgres_stats P d =
     (case pg_fetch_one P PG_COUNT [] d of
        Inl e \<Rightarrow> Some (Inl (Database e))
      | Inr count_row \<Rightarrow> do {
          n \<leftarrow> pg_i64 P count_row ''count'';
          (case pg_fetch_one P PG_SIZE [] d of
             Inl e \<Rightarrow> Some (Inl (Database e))
           | Inr size_row \<Rightarrow> do {
               sz \<leftarrow> pg_i64 P size_row ''size'';
               Some (Inr \<lparr>stored_count = unat n, total_size_bytes = sz\<rparr>)
             })
        })"

subsection \<open>What PostgreSQL documents\<close>

text \<open>
  LIKE keeps the case of letters; a backslash takes away the meaning of the character behind it, and a
  pattern may not end with one.
\<close>

fun pg_tokens :: "string \<Rightarrow> like_token list option" where
  "pg_tokens [] = Some []"
| "pg_tokens [c] = (if c = CHR 0x5C then None else Some [like_token c])"
| "pg_tokens (c # x # s) =
     (if c = CHR 0x5C then map_option (\<lambda>ts. Lit x # ts) (pg_tokens s)
      else map_option (\<lambda>ts. like_token c # ts) (pg_tokens (x # s)))"

definition pg_like :: "string \<Rightarrow> string \<Rightarrow> bool" where
  "pg_like p k = (case pg_tokens p of Some ts \<Rightarrow> like (=) ts k | None \<Rightarrow> False)"

definition pg_rows :: "doc_table \<Rightarrow> (string \<Rightarrow> bool) \<Rightarrow> pg_row list \<Rightarrow> bool" where
  "pg_rows t sel rows \<longleftrightarrow> (\<exists>ks. newest_first t sel ks \<and> rows = map (\<lambda>k. [(''id'', SqlText k)]) ks)"

definition pg_writes :: "('d, 'l) sqlx \<Rightarrow> ('d \<Rightarrow> doc_table) \<Rightarrow> bool" where
  "pg_writes P table \<longleftrightarrow>
     (\<forall>i m b d. case pg_execute P PG_STORE [SqlText i, SqlBlob m, SqlBlob b] d of
        (Inr n, d') \<Rightarrow> \<exists>t. table d' = (table d)(i \<mapsto> \<lparr>row_meta = m, row_data = b, row_updated = t\<rparr>)
      | (Inl e, d') \<Rightarrow> table d' = table d) \<and>
     (\<forall>i d. case pg_execute P PG_DELETE [SqlText i] d of
        (Inr n, d') \<Rightarrow> table d' = (table d)(i := None) \<and> n = (if table d i = None then 0 else 1)
      | (Inl e, d') \<Rightarrow> table d' = table d)"

definition pg_reads :: "('d, 'l) sqlx \<Rightarrow> ('d \<Rightarrow> doc_table) \<Rightarrow> bool" where
  "pg_reads P table \<longleftrightarrow>
     (\<forall>i d r. pg_fetch_optional P PG_LOAD [SqlText i] d = Inr r \<longrightarrow>
        r = map_option (\<lambda>r. [(''meta'', SqlBlob (row_meta r)), (''data'', SqlBlob (row_data r))]) (table d i)) \<and>
     (\<forall>i d r. pg_fetch_optional P PG_EXISTS [SqlText i] d = Inr r \<longrightarrow> r = None \<longleftrightarrow> table d i = None) \<and>
     (\<forall>d r. pg_fetch_one P PG_COUNT [] d = Inr r \<longrightarrow>
        (\<exists>n. r = [(''count'', SqlInteger n)] \<and> sint n = int (card (dom (table d))))) \<and>
     (\<forall>d r. pg_fetch_one P PG_SIZE [] d = Inr r \<longrightarrow>
        (\<exists>n. r = [(''size'', SqlInteger n)] \<and> sint n = int (table_size (table d))))"

definition pg_lists :: "('d, 'l) sqlx \<Rightarrow> ('d \<Rightarrow> doc_table) \<Rightarrow> bool" where
  "pg_lists P table \<longleftrightarrow>
     (\<forall>v d rows. pg_fetch_all P PG_LIKE [SqlText v] d = Inr rows \<longrightarrow> pg_rows (table d) (pg_like v) rows) \<and>
     (\<forall>v d rows. pg_fetch_all P PG_EQUAL [SqlText v] d = Inr rows \<longrightarrow> pg_rows (table d) (\<lambda>k. k = v) rows) \<and>
     (\<forall>d rows. pg_fetch_all P PG_ALL [] d = Inr rows \<longrightarrow> pg_rows (table d) (\<lambda>k. True) rows)"

definition pg_columns :: "('d, 'l) sqlx \<Rightarrow> bool" where
  "pg_columns P \<longleftrightarrow>
     (\<forall>s. pg_text P [(''id'', SqlText s)] ''id'' = Some s) \<and>
     (\<forall>a b. pg_bytes P [(''meta'', SqlBlob a), (''data'', SqlBlob b)] ''meta'' = Some a \<and>
        pg_bytes P [(''meta'', SqlBlob a), (''data'', SqlBlob b)] ''data'' = Some b) \<and>
     (\<forall>c n. pg_i64 P [(c, SqlInteger n)] c = Some n)"

definition postgres_documented :: "('d, 'l) sqlx \<Rightarrow> ('d \<Rightarrow> doc_table) \<Rightarrow> bool" where
  "postgres_documented P table \<longleftrightarrow> pg_writes P table \<and> pg_reads P table \<and> pg_lists P table \<and> pg_columns P"

text \<open>
  A prepared statement holds one command. A text with a semicolon outside of any quoting or comment, a
  command before it and the beginning of another behind it, is refused.
\<close>

definition blank :: "char \<Rightarrow> bool" where
  "blank c \<longleftrightarrow> c = CHR '' '' \<or> c = CHR 0x0A"

definition letter :: "char \<Rightarrow> bool" where
  "letter c \<longleftrightarrow> 97 \<le> byte (lower_char c) \<and> byte (lower_char c) \<le> 122"

definition several_commands :: "string \<Rightarrow> bool" where
  "several_commands sql \<longleftrightarrow>
     (let a = takeWhile (\<lambda>c. c \<noteq> CHR '';'') sql;
          b = dropWhile blank (drop (Suc (length a)) sql)
      in list_all (\<lambda>c. c \<notin> {quote, CHR 0x22, CHR ''$'', CHR ''-'', CHR ''/''}) a \<and> list_ex letter a \<and>
         b \<noteq> [] \<and> letter (hd b))"

definition prepares_single_commands :: "('d, 'l) sqlx \<Rightarrow> bool" where
  "prepares_single_commands P \<longleftrightarrow> (\<forall>sql ps d. several_commands sql \<longrightarrow> (\<exists>e. fst (pg_execute P sql ps d) = Inl e))"

subsection \<open>An engine that behaves as documented\<close>

definition demo_pg_count :: "string \<Rightarrow> nat \<Rightarrow> string + pg_row" where
  "demo_pg_count c n = (if n < 2 ^ 63 then Inr [(c, SqlInteger (word_of_nat n))] else Inl ''bigint out of range'')"

definition demo_pg_query :: "demo_table \<Rightarrow> (string \<Rightarrow> bool) \<Rightarrow> string + pg_row list" where
  "demo_pg_query d sel = Inr (map (\<lambda>k. [(''id'', SqlText k)]) (demo_rows d sel))"

definition demo_pg_execute :: "string \<Rightarrow> sql_value list \<Rightarrow> demo_table \<Rightarrow> (string + nat) \<times> demo_table" where
  "demo_pg_execute sql ps d =
     (if several_commands sql then (Inl ''cannot insert multiple commands into a prepared statement'', d)
      else case ps of
        [SqlText i, SqlBlob m, SqlBlob b] \<Rightarrow>
          if sql = PG_STORE
          then (Inr 1, dm_insert i \<lparr>row_meta = m, row_data = b, row_updated = int (length d)\<rparr> d)
          else (Inl ''syntax error'', d)
      | [SqlText i] \<Rightarrow>
          if sql = PG_DELETE then (Inr (if map_of d i = None then 0 else 1), dm_remove i d)
          else (Inl ''syntax error'', d)
      | _ \<Rightarrow> (Inl ''syntax error'', d))"

definition demo_sqlx :: "(demo_table, unit) sqlx" where
  "demo_sqlx = \<lparr>pg_connect = (\<lambda>n url. Inr []), pg_execute = demo_pg_execute,
     pg_fetch_optional = (\<lambda>sql ps d. case ps of
         [SqlText i] \<Rightarrow>
           if sql = PG_LOAD then Inr (map_option (\<lambda>r. [(''meta'', SqlBlob (row_meta r)), (''data'', SqlBlob (row_data r))]) (map_of d i))
           else if sql = PG_EXISTS then Inr (map_option (\<lambda>r. [(''?column?'', SqlInteger 1)]) (map_of d i))
           else Inl ''syntax error''
       | _ \<Rightarrow> Inl ''syntax error''),
     pg_fetch_all = (\<lambda>sql ps d. case ps of
         [SqlText v] \<Rightarrow>
           if sql = PG_LIKE then demo_pg_query d (pg_like v)
           else if sql = PG_EQUAL then demo_pg_query d (\<lambda>k. k = v) else Inl ''syntax error''
       | _ \<Rightarrow> if sql = PG_ALL then demo_pg_query d (\<lambda>k. True) else Inl ''syntax error''),
     pg_fetch_one = (\<lambda>sql ps d.
       if sql = PG_COUNT then demo_pg_count ''count'' (length (remdups (map fst d)))
       else if sql = PG_SIZE then demo_pg_count ''size'' (sum_list (map (\<lambda>k. row_size (the (map_of d k))) (remdups (map fst d))))
       else Inl ''syntax error''),
     pg_bytes = (\<lambda>row c. case map_of row c of Some (SqlBlob b) \<Rightarrow> Some b | _ \<Rightarrow> None),
     pg_text = (\<lambda>row c. case map_of row c of Some (SqlText b) \<Rightarrow> Some b | _ \<Rightarrow> None),
     pg_i64 = (\<lambda>row c. case map_of row c of Some (SqlInteger b) \<Rightarrow> Some b | _ \<Rightarrow> None),
     pg_listener = (\<lambda>d. Inr ()), pg_listen = (\<lambda>c l. Inr l)\<rparr>"

lemma demo_pg_distinct [simp]:
  "PG_STORE \<noteq> PG_DELETE" "PG_DELETE \<noteq> PG_STORE" "PG_LOAD \<noteq> PG_EXISTS" "PG_EXISTS \<noteq> PG_LOAD" "PG_LIKE \<noteq> PG_EQUAL" "PG_EQUAL \<noteq> PG_LIKE"
  "PG_COUNT \<noteq> PG_SIZE" "PG_SIZE \<noteq> PG_COUNT"
  by (simp_all add: PG_STORE_def PG_DELETE_def PG_LOAD_def PG_EXISTS_def PG_LIKE_def PG_EQUAL_def PG_COUNT_def PG_SIZE_def)

lemma demo_pg_single [simp]: "\<not> several_commands PG_STORE" "\<not> several_commands PG_DELETE"
  by (simp_all add: several_commands_def PG_STORE_def PG_DELETE_def Let_def)

lemma demo_pg_count_row: "demo_pg_count c n = Inr row \<Longrightarrow> \<exists>w. row = [(c, SqlInteger w)] \<and> sint w = int n"
  using sint_word_of_nat [of n] by (auto simp: demo_pg_count_def split: if_splits)

lemma demo_pg_query_rows: "demo_pg_query d sel = Inr rows \<Longrightarrow> pg_rows (map_of d) sel rows"
  using demo_rows_newest [of d sel] by (auto simp: demo_pg_query_def pg_rows_def)

lemma demo_sqlx_documented: "postgres_documented demo_sqlx map_of"
proof -
  have "pg_writes demo_sqlx map_of"
    by (auto simp: pg_writes_def demo_sqlx_def demo_pg_execute_def fun_eq_iff)
  moreover have "pg_reads demo_sqlx map_of"
    using demo_pg_count_row by (auto simp: pg_reads_def demo_sqlx_def demo_card demo_size)
  moreover have "pg_lists demo_sqlx map_of"
    using demo_pg_query_rows by (auto simp: pg_lists_def demo_sqlx_def)
  moreover have "pg_columns demo_sqlx"
    by (simp add: pg_columns_def demo_sqlx_def)
  ultimately show ?thesis by (simp add: postgres_documented_def)
qed

end
