(* ===== verification/StorageLaws.thy ===== *)
theory StorageLaws imports ManagerLaws Storage begin

section \<open>What the in-memory storage guarantees\<close>

text \<open>
  The statistics are those of the entries, and documents read back as they were last stored. The
  second rests on the interface \<open>storage_backend\<close>.
\<close>

definition entries_size :: "(bytes \<times> bytes) dashmap \<Rightarrow> nat" where
  "entries_size m = sum_list (map (\<lambda>(k, e). entry_size e) m)"

definition memory_ok :: "memory_storage \<Rightarrow> bool" where
  "memory_ok s \<longleftrightarrow> dm_ok (mem_data s) \<and> total_size s = word_of_nat (entries_size (mem_data s))"

definition size_at :: "(bytes \<times> bytes) dashmap \<Rightarrow> string \<Rightarrow> nat" where
  "size_at m k = (case dm_get m k of Some e \<Rightarrow> entry_size e | None \<Rightarrow> 0)"

lemma entries_size_insert:
  "dm_ok m \<Longrightarrow> entries_size (dm_insert k e m) + size_at m k = entries_size m + entry_size e"
  by (induction m) (auto simp: entries_size_def size_at_def)

lemma entries_size_remove_absent: "k \<notin> fst ` set m \<Longrightarrow> dm_remove k m = m"
  by (induction m) auto

lemma entries_size_remove: "dm_ok m \<Longrightarrow> entries_size (dm_remove k m) + size_at m k = entries_size m"
proof (induction m)
  case (Cons e m)
  show ?case
  proof (cases "fst e = k")
    case True
    with Cons.prems have "dm_remove k m = m" by (intro entries_size_remove_absent) auto
    with True show ?thesis by (cases e) (simp add: entries_size_def size_at_def)
  next
    case False
    with Cons show ?thesis by (cases e) (simp add: entries_size_def size_at_def)
  qed
qed (simp add: entries_size_def size_at_def)

lemma word_of_nat_insert:
  assumes "a + b = c + d"
  shows "(word_of_nat a :: u64) = (word_of_nat c - word_of_nat b) + word_of_nat d"
proof -
  have "(word_of_nat a :: u64) + word_of_nat b = word_of_nat c + word_of_nat d" using assms by (metis of_nat_add)
  then have "(word_of_nat a :: u64) = word_of_nat c + word_of_nat d - word_of_nat b" by (simp only: eq_diff_eq)
  then show ?thesis by simp
qed

inductive memory_step :: "meta_serde \<Rightarrow> memory_storage \<Rightarrow> memory_storage \<Rightarrow> bool" for sd where
  store: "memory_store sd i m d s = (r, s') \<Longrightarrow> memory_step sd s s'"
| delete: "memory_delete i s = (r', s') \<Longrightarrow> memory_step sd s s'"

lemma memory_ok_new [invI]: "memory_ok memory_new"
  by (simp add: memory_ok_def memory_new_def entries_size_def)

lemma memory_ok_store [invI]:
  assumes "memory_ok s" and "memory_store sd i m d s = (r, s')"
  shows "memory_ok s'"
proof (cases "to_vec sd m")
  case (Inr b)
  let ?k = "id_str i"
  have s': "mem_data s' = dm_insert ?k (b, d) (mem_data s)"
    "total_size s' = (total_size s - word_of_nat (size_at (mem_data s) ?k)) + word_of_nat (entry_size (b, d))"
    using assms(2) Inr by (auto simp: memory_store_def Let_def size_at_def entry_size_def split: option.splits)
  have "dm_ok (mem_data s)" using assms(1) by (simp add: memory_ok_def)
  from word_of_nat_insert [OF entries_size_insert [OF this, of ?k "(b, d)"]]
  have "word_of_nat (entries_size (dm_insert ?k (b, d) (mem_data s))) = total_size s'"
    using assms(1) s'(2) by (simp add: memory_ok_def)
  with s'(1) assms(1) show ?thesis by (simp add: memory_ok_def distinct_update)
qed (use assms in \<open>auto simp: memory_store_def\<close>)

lemma memory_ok_delete [invI]:
  assumes "memory_ok s" and "memory_delete i s = (r, s')"
  shows "memory_ok s'"
proof (cases "dm_get (mem_data s) (id_str i)")
  case (Some e)
  let ?k = "id_str i"
  have s': "mem_data s' = dm_remove ?k (mem_data s)"
    "total_size s' = total_size s - word_of_nat (size_at (mem_data s) ?k)"
    using assms(2) Some by (auto simp: memory_delete_def size_at_def)
  have "dm_ok (mem_data s)" using assms(1) by (simp add: memory_ok_def)
  then have "entries_size (dm_remove ?k (mem_data s)) + size_at (mem_data s) ?k = entries_size (mem_data s) + 0"
    by (simp add: entries_size_remove)
  from word_of_nat_insert [OF this]
  have "word_of_nat (entries_size (dm_remove ?k (mem_data s))) = total_size s'"
    using assms(1) s'(2) by (simp add: memory_ok_def)
  with s'(1) assms(1) show ?thesis by (simp add: memory_ok_def distinct_delete)
qed (use assms in \<open>auto simp: memory_delete_def\<close>)

interpretation memory: invariant_system "memory_step sd" memory_ok for sd
  by unfold_locales (auto elim!: memory_step.cases intro: invI)

lemma memory_ok_stats:
  assumes "memory_ok s"
  shows "\<exists>st. memory_stats s = Inr st \<and> stored_count st = card (dom (dm_get (mem_data s))) \<and>
    total_size_bytes st = word_of_nat (\<Sum>k\<in>dom (dm_get (mem_data s)). entry_size (the (dm_get (mem_data s) k)))"
proof -
  have d: "dm_ok (mem_data s)" using assms by (simp add: memory_ok_def)
  have dom: "dom (dm_get (mem_data s)) = fst ` set (mem_data s)" by (rule dom_map_of_conv_image_fst)
  have inj: "inj_on fst (set (mem_data s))" using d by (simp add: distinct_map)
  have "entries_size (mem_data s) = (\<Sum>(k, e)\<in>set (mem_data s). entry_size e)"
    using d by (simp add: entries_size_def sum_list_distinct_conv_sum_set distinct_map)
  also have "\<dots> = (\<Sum>x\<in>set (mem_data s). entry_size (the (dm_get (mem_data s) (fst x))))"
    using d by (intro sum.cong) (auto simp: case_prod_beta)
  also have "\<dots> = (\<Sum>k\<in>dom (dm_get (mem_data s)). entry_size (the (dm_get (mem_data s) k)))"
    unfolding dom using inj by (simp add: sum.reindex)
  finally have "entries_size (mem_data s) = \<dots>" .
  moreover have "length (mem_data s) = card (dom (dm_get (mem_data s)))"
    unfolding dom using d by (metis distinct_card length_map list.set_map)
  ultimately show ?thesis using assms by (simp add: memory_stats_def memory_ok_def)
qed

text \<open>
  C35. In every state the in-memory storage reaches by operations that do not overlap, its statistics are exact: the count is the
  number of stored documents, each counted once, and the size is the sum of the sizes of their
  metadata and data (modulo 2 to the 64), whatever was overwritten or deleted on the way.
\<close>

theorem memory_stats_exact:
  assumes "(memory_step sd)\<^sup>*\<^sup>* memory_new s"
  shows "\<exists>st. memory_stats s = Inr st \<and> stored_count st = card (dom (dm_get (mem_data s))) \<and>
    total_size_bytes st = word_of_nat (\<Sum>k\<in>dom (dm_get (mem_data s)). entry_size (the (dm_get (mem_data s) k)))"
  by (rule memory_ok_stats [OF memory.run_inv [OF assms memory_ok_new]])

lemma memory_stats_exact_witness:
  "\<exists>s. (memory_step \<lparr>to_vec = (\<lambda>m. Inr ''mm''), from_slice = (\<lambda>b. Inl [])\<rparr>)\<^sup>*\<^sup>* memory_new s \<and>
     memory_stats s = Inr \<lparr>stored_count = 1, total_size_bytes = 5\<rparr>"
proof -
  let ?sd = "\<lparr>to_vec = (\<lambda>m. Inr ''mm''), from_slice = (\<lambda>b. Inl [])\<rparr> :: meta_serde"
  obtain r s where st: "memory_store ?sd (DocumentId ''a'') (meta_new 0 (DocumentId ''a'') Lww) ''abc'' memory_new = (r, s)"
    and s: "mem_data s = [(''a'', ''mm'', ''abc'')]"
    by (simp add: memory_store_def memory_new_def Let_def)
  have run: "(memory_step ?sd)\<^sup>*\<^sup>* memory_new s"
    using memory_step.store [OF st] by (rule r_into_rtranclp)
  have "dom (dm_get (mem_data s)) = {''a''}" "dm_get (mem_data s) ''a'' = Some (''mm'', ''abc'')"
    unfolding s by (auto split: if_splits)
  with memory_stats_exact [OF run] obtain t where t: "memory_stats s = Inr t" "stored_count t = 1" "total_size_bytes t = 5"
    by (auto simp: entry_size_def)
  then have "t = \<lparr>stored_count = 1, total_size_bytes = 5\<rparr>" by (cases t) simp
  with t(1) run show ?thesis by blast
qed

lemma memory_matches_eq: "memory_matches_pattern = matches_pattern"
  by (intro ext) (simp add: memory_matches_pattern_def matches_pattern_def)

lemma memory_list_keys:
  "memory_list p s = Inr (concat (map (\<lambda>k. if (case p of None \<Rightarrow> True | Some q \<Rightarrow> memory_matches_pattern k q)
     then (case document_id_new k of Inr i \<Rightarrow> [i] | Inl e \<Rightarrow> []) else []) (map fst (mem_data s))))"
  unfolding memory_list_def by (simp add: comp_def case_prod_unfold)

text \<open>
  Documents read back from the in-memory storage as they were last stored: after any sequence of
  stores, a load of an identifier gives the metadata and data of the last store under it, and what
  was there before if there is none.
\<close>

theorem memory_reads_last_store:
  assumes "\<forall>(i, m, d)\<in>set ws. \<exists>b. to_vec sd m = Inr b \<and> from_slice sd b = Inr m"
  shows "memory_load sd j (fold (\<lambda>(i, m, d) s. snd (memory_store sd i m d s)) ws s) =
    (case map_of (rev (map (\<lambda>(i, m, d). (id_str i, m, d)) ws)) (id_str j) of
       Some (m, d) \<Rightarrow> Inr (Some (m, d)) | None \<Rightarrow> memory_load sd j s)"
proof -
  have st: "\<forall>(i, m, d)\<in>set ws. mem.storable sd m d"
    using assms by (auto simp: mem.storable_def memory_store_def Let_def)
  have "mem.store_all sd ws s = fold (\<lambda>(i, m, d) s. snd (memory_store sd i m d s)) ws s"
    by (induction ws arbitrary: s) (auto simp: mem.stored_def)
  moreover have "memory_reread sd m d = Inr (Some (m, d))" if "(i, m, d) \<in> set ws" for i m d
    using assms that by (force simp: memory_reread_def)
  ultimately show ?thesis
    using mem.load_store_all [OF st, of j s]
    by (auto split: option.splits dest!: map_of_SomeD)
qed

lemma memory_reads_last_store_witness:
  "let m = meta_new 0 (DocumentId ''a'') Lww;
       sd = \<lparr>to_vec = (\<lambda>m. Inr ''mm''), from_slice = (\<lambda>b. Inr m)\<rparr>
   in memory_load sd (DocumentId ''a'')
        (fold (\<lambda>(i, m, d) s. snd (memory_store sd i m d s)) [(DocumentId ''a'', m, ''x''), (DocumentId ''a'', m, ''y'')] memory_new) =
      Inr (Some (m, ''y''))"
  unfolding Let_def by (subst memory_reads_last_store) simp_all

end
