(* ===== verification/SqliteLaws.thy ===== *)
theory SqliteLaws imports SqliteDemo StorageLaws begin

section \<open>What the SQLite storage guarantees\<close>

text \<open>
  Under what SQLite documents, the SQLite backend does what the in-memory backend does whenever no
  database error is reported; what \<open>list\<close> selects differs, and the laws say how.
\<close>

subsection \<open>Running operations on a backend\<close>

datatype storage_op = StoreOp document_id document_meta bytes | DeleteOp document_id

fun store_result :: "(storage_error + unit) \<times> 's \<Rightarrow> (storage_error + bool) \<times> 's" where
  "store_result (Inl e, s) = (Inl e, s)"
| "store_result (Inr u, s) = (Inr True, s)"

fun memory_op :: "meta_serde \<Rightarrow> storage_op \<Rightarrow> memory_storage \<Rightarrow> (storage_error + bool) \<times> memory_storage" where
  "memory_op sd (StoreOp i m b) s = store_result (memory_store sd i m b s)"
| "memory_op sd (DeleteOp i) s = memory_delete i s"

fun sqlite_op :: "'d rusqlite \<Rightarrow> meta_serde \<Rightarrow> storage_op \<Rightarrow> 'd \<Rightarrow> (storage_error + bool) \<times> 'd" where
  "sqlite_op R sd (StoreOp i m b) d = store_result (sqlite_store R sd i m b d)"
| "sqlite_op R sd (DeleteOp i) d = sqlite_delete R i d"

fun run_ops :: "('o \<Rightarrow> 's \<Rightarrow> 'r \<times> 's) \<Rightarrow> 'o list \<Rightarrow> 's \<Rightarrow> 'r list \<times> 's" where
  "run_ops f [] s = ([], s)"
| "run_ops f (x # xs) s = (case f x s of (r, s') \<Rightarrow> (case run_ops f xs s' of (rs, s'') \<Rightarrow> (r # rs, s'')))"

definition db_failed :: "storage_error + 'a \<Rightarrow> bool" where
  "db_failed r \<longleftrightarrow> (\<exists>e. r = Inl (Database e))"

lemma db_failed_simps [simp]:
  "db_failed (Inl (database_error R e))" "db_failed (Inl (Database x))"
  "\<not> db_failed (Inr a)" "\<not> db_failed (Inl (Serialization x))"
  by (simp_all add: db_failed_def database_error_def)

text \<open>A backend whose single operations follow another's, failures apart, follows it in any run without failures.\<close>

locale follower =
  fixes op :: "'o \<Rightarrow> 'd \<Rightarrow> 'r \<times> 'd"
    and leader :: "'o \<Rightarrow> 's \<Rightarrow> 'r \<times> 's"
    and failed :: "'r \<Rightarrow> bool"
    and rel :: "'s \<Rightarrow> 'd \<Rightarrow> bool"
  assumes op_follows: "rel s d \<Longrightarrow> op x d = (r, d') \<Longrightarrow> \<not> failed r \<Longrightarrow> fst (leader x s) = r \<and> rel (snd (leader x s)) d'"
begin

lemma run_follows: "run_ops op xs d = (rs, d') \<Longrightarrow> rel s d \<Longrightarrow> \<forall>r\<in>set rs. \<not> failed r \<Longrightarrow>
    fst (run_ops leader xs s) = rs \<and> rel (snd (run_ops leader xs s)) d'"
proof (induction xs arbitrary: d rs s)
  case (Cons x xs)
  obtain r d1 where x: "op x d = (r, d1)" by (cases "op x d")
  obtain rs1 where rs: "run_ops op xs d1 = (rs1, d')" "rs = r # rs1"
    using Cons.prems(1) x by (auto split: prod.splits)
  have g: "fst (leader x s) = r" "rel (snd (leader x s)) d1" using op_follows [OF Cons.prems(2) x] Cons.prems(3) rs(2) by auto
  from Cons.IH [OF rs(1) g(2)] Cons.prems(3) rs(2) g(1) show ?case by (auto split: prod.split)
qed simp

end

subsection \<open>The table and the in-memory map\<close>

definition same_documents :: "memory_storage \<Rightarrow> doc_table \<Rightarrow> bool" where
  "same_documents s t \<longleftrightarrow> memory_ok s \<and> dm_get (mem_data s) = (\<lambda>k. map_option (\<lambda>r. (row_meta r, row_data r)) (t k))"

lemma same_documents_new: "same_documents memory_new Map.empty"
  by (simp add: same_documents_def memory_ok_new) (simp add: memory_new_def)

lemma same_documents_dom: "same_documents s t \<Longrightarrow> dom t = dom (dm_get (mem_data s))"
  by (auto simp: same_documents_def dom_def)

lemma same_documents_size:
  assumes "same_documents s t"
  shows "(\<Sum>k\<in>dom (dm_get (mem_data s)). entry_size (the (dm_get (mem_data s) k))) = table_size t"
  unfolding table_size_def same_documents_dom [OF assms, symmetric]
  using assms by (intro sum.cong) (auto simp: same_documents_def entry_size_def row_size_def)

lemma same_documents_store:
  assumes "same_documents s t" and "to_vec sd m = Inr b"
  shows "same_documents (snd (memory_store sd i m data s)) (t(id_str i \<mapsto> \<lparr>row_meta = b, row_data = data, row_updated = u\<rparr>))"
proof -
  obtain r s' where s: "memory_store sd i m data s = (r, s')" by (cases "memory_store sd i m data s")
  then have "mem_data s' = dm_insert (id_str i) (b, data) (mem_data s)" using memory_store_result [OF s] assms(2) by simp
  with assms(1) memory_ok_store [OF _ s] show ?thesis by (auto simp: same_documents_def s)
qed

lemma same_documents_delete: "same_documents s t \<Longrightarrow> same_documents (snd (memory_delete i s)) (t(id_str i := None))"
  using memory_ok_delete [of s i "fst (memory_delete i s)" "snd (memory_delete i s)"]
    memory_delete_result [of i s "fst (memory_delete i s)" "snd (memory_delete i s)"]
  by (auto simp: same_documents_def)

lemma sint_of_nat:
  assumes "sint (n :: i64) = int k"
  shows "n = word_of_nat k \<and> unat n = k"
proof -
  have "n = word_of_int (sint n)" by simp
  then have n: "n = word_of_nat k" unfolding assms by simp
  have "sint n < 2 ^ 63" using sint_lt [of n] by simp
  then have "int k < 9223372036854775808" unfolding assms by simp
  then have "k < 18446744073709551616" by linarith
  then show ?thesis using n by (simp add: unat_of_nat)
qed

text \<open>
  A database backend that follows the in-memory backend, with the documents of the one in the table of
  the other; started empty it has after any run the same results and documents.
\<close>

locale memory_follower = follower op "memory_op sd" db_failed rel
  for op :: "storage_op \<Rightarrow> 'd \<Rightarrow> (storage_error + bool) \<times> 'd" and sd and rel +
  fixes table :: "'d \<Rightarrow> doc_table"
  assumes rel_same: "rel s d \<Longrightarrow> same_documents s (table d)"
begin

lemma from_empty:
  assumes "rel memory_new d" and "run_ops op ops d = (rs, d')" and "\<forall>r\<in>set rs. \<not> db_failed r"
  obtains s where "run_ops (memory_op sd) ops memory_new = (rs, s)" and "same_documents s (table d')"
  using run_follows [OF assms(2,1,3)] rel_same that by (metis prod.collapse)

end

text \<open>What the in-memory backend reads, in terms of the table.\<close>

lemma same_documents_reads:
  assumes "same_documents s t"
  shows "memory_load sd i s =
      (case t (id_str i) of
         None \<Rightarrow> Inr None
       | Some r \<Rightarrow> (case from_slice sd (row_meta r) of Inl e \<Rightarrow> Inl (Serialization e) | Inr m \<Rightarrow> Inr (Some (m, row_data r))))"
    and "memory_exists i s = Inr (t (id_str i) \<noteq> None)"
    and "memory_stats s = Inr \<lparr>stored_count = card (dom t), total_size_bytes = word_of_nat (table_size t)\<rparr>"
proof -
  have get: "dm_get (mem_data s) k = map_option (\<lambda>r. (row_meta r, row_data r)) (t k)" for k
    using assms by (simp add: same_documents_def)
  show "memory_load sd i s =
      (case t (id_str i) of
         None \<Rightarrow> Inr None
       | Some r \<Rightarrow> (case from_slice sd (row_meta r) of Inl e \<Rightarrow> Inl (Serialization e) | Inr m \<Rightarrow> Inr (Some (m, row_data r))))"
    by (simp add: memory_load_def get split: option.split)
  show "memory_exists i s = Inr (t (id_str i) \<noteq> None)" by (simp add: memory_exists_def get)
  obtain st where st: "memory_stats s = Inr st" "stored_count st = card (dom (dm_get (mem_data s)))"
      "total_size_bytes st = word_of_nat (table_size t)"
    using memory_ok_stats [of s] assms same_documents_size [OF assms] by (auto simp: same_documents_def)
  then have "st = \<lparr>stored_count = card (dom t), total_size_bytes = word_of_nat (table_size t)\<rparr>"
    using same_documents_dom [OF assms] by (cases st) simp
  with st(1) show "memory_stats s = Inr \<lparr>stored_count = card (dom t), total_size_bytes = word_of_nat (table_size t)\<rparr>" by simp
qed

subsection \<open>Every operation on the table\<close>

lemma documented_write:
  fixes i m b :: string and d :: 'd
  assumes "documented_writes (R :: 'd rusqlite) table"
  shows "case r_execute R SQLITE_STORE [SqlText i, SqlBlob m, SqlBlob b] d of
      (Inr n, d') \<Rightarrow> \<exists>t. table d' = (table d)(i \<mapsto> \<lparr>row_meta = m, row_data = b, row_updated = t\<rparr>)
    | (Inl e, d') \<Rightarrow> table d' = table d"
  by (rule assms [unfolded documented_writes_def, THEN conjunct1, THEN spec, THEN spec, THEN spec, THEN spec])

lemma documented_remove:
  fixes i :: string and d :: 'd
  assumes "documented_writes (R :: 'd rusqlite) table"
  shows "case r_execute R SQLITE_DELETE [SqlText i] d of
      (Inr n, d') \<Rightarrow> table d' = (table d)(i := None) \<and> n = (if table d i = None then 0 else 1)
    | (Inl e, d') \<Rightarrow> table d' = table d"
  by (rule assms [unfolded documented_writes_def, THEN conjunct2, THEN spec, THEN spec])

lemma documented_store:
  assumes "documented_writes R table" and "sqlite_store R sd i m b d = (r, d')"
  shows "(case r of
      Inl e \<Rightarrow> table d' = table d \<and> (db_failed r \<or> (\<exists>x. to_vec sd m = Inl x \<and> e = Serialization x))
    | Inr u \<Rightarrow> \<exists>mb t. to_vec sd m = Inr mb \<and> table d' = (table d)(id_str i \<mapsto> \<lparr>row_meta = mb, row_data = b, row_updated = t\<rparr>))"
proof (cases "to_vec sd m")
  case (Inr mb)
  obtain q d1 where q: "r_execute R SQLITE_STORE [SqlText (id_str i), SqlBlob mb, SqlBlob b] d = (q, d1)"
    by (cases "r_execute R SQLITE_STORE [SqlText (id_str i), SqlBlob mb, SqlBlob b] d")
  have "case q of Inr n \<Rightarrow> \<exists>t. table d1 = (table d)(id_str i \<mapsto> \<lparr>row_meta = mb, row_data = b, row_updated = t\<rparr>)
      | Inl e \<Rightarrow> table d1 = table d"
    using documented_write [OF assms(1), where i = "id_str i" and m = mb and b = b and d = d] q by (simp split: sum.splits)
  with assms(2) Inr q show ?thesis by (auto simp: sqlite_store_def split: sum.splits)
qed (use assms in \<open>auto simp: sqlite_store_def\<close>)

lemma documented_delete:
  assumes "documented_writes R table" and "sqlite_delete R i d = (r, d')"
  shows "(case r of
      Inl e \<Rightarrow> table d' = table d \<and> db_failed r
    | Inr x \<Rightarrow> table d' = (table d)(id_str i := None) \<and> x = (table d (id_str i) \<noteq> None))"
  using documented_remove [OF assms(1), where i = "id_str i" and d = d] assms(2)
  by (auto simp: sqlite_delete_def split: sum.splits prod.splits if_splits)

lemma documented_load:
  assumes "documented_reads R table" and "documented_columns R" and "\<not> db_failed (sqlite_load R sd i d)"
  shows "sqlite_load R sd i d =
    (case table d (id_str i) of
       None \<Rightarrow> Inr None
     | Some r \<Rightarrow> (case from_slice sd (row_meta r) of Inl e \<Rightarrow> Inl (Serialization e) | Inr m \<Rightarrow> Inr (Some (m, row_data r))))"
proof -
  have q: "case r_query_row R SQLITE_LOAD [SqlText (id_str i)] d of
      Inr row \<Rightarrow> (\<exists>r. table d (id_str i) = Some r \<and> row = [SqlBlob (row_meta r), SqlBlob (row_data r)])
    | Inl e \<Rightarrow> e = QueryReturnedNoRows \<longrightarrow> table d (id_str i) = None"
    using assms(1) unfolding documented_reads_def by blast
  have b: "two_blobs R [SqlBlob x, SqlBlob y] = Inr (x, y)" for x y
    using assms(2) by (simp add: documented_columns_def two_blobs_def)
  show ?thesis
  proof (cases "r_query_row R SQLITE_LOAD [SqlText (id_str i)] d")
    case (Inl e)
    with q assms(3) show ?thesis by (cases e) (auto simp: sqlite_load_def query_row_def)
  next
    case (Inr row)
    with q b show ?thesis by (auto simp: sqlite_load_def query_row_def split: sum.split)
  qed
qed

lemma documented_exists:
  assumes "documented_reads R table" and "documented_columns R" and "\<not> db_failed (sqlite_exists R i d)"
  shows "sqlite_exists R i d = Inr (table d (id_str i) \<noteq> None)"
proof (cases "r_query_row R SQLITE_EXISTS [SqlText (id_str i)] d")
  case (Inr row)
  then have "row = [SqlInteger (if table d (id_str i) = None then 0 else 1)]"
    using assms(1) unfolding documented_reads_def by blast
  with Inr assms(2) show ?thesis by (simp add: sqlite_exists_def query_row_def documented_columns_def word_sless_alt)
qed (use assms(3) in \<open>simp add: sqlite_exists_def query_row_def\<close>)

lemma documented_stats:
  assumes "documented_reads R table" and "documented_columns R" and "\<not> db_failed (sqlite_stats R d)"
  shows "sqlite_stats R d = Inr \<lparr>stored_count = card (dom (table d)), total_size_bytes = word_of_nat (table_size (table d))\<rparr>"
proof -
  obtain r1 r2 where q: "r_query_row R SQLITE_COUNT [] d = Inr r1" "r_query_row R SQLITE_SIZE [] d = Inr r2"
    using assms(3) by (auto simp: sqlite_stats_def query_row_def split: sum.splits)
  obtain n where n: "r1 = [SqlInteger n]" "sint n = int (card (dom (table d)))"
    using assms(1) q(1) unfolding documented_reads_def by blast
  obtain z where z: "r2 = [SqlInteger z]" "sint z = int (table_size (table d))"
    using assms(1) q(2) unfolding documented_reads_def by blast
  have u: "r_usize R [SqlInteger n] 0 = Inr n" "r_usize R [SqlInteger z] 0 = Inr z"
    using assms(2) n(2) z(2) by (simp_all add: documented_columns_def)
  from q n(1) z(1) u sint_of_nat [OF n(2), THEN conjunct2] sint_of_nat [OF z(2), THEN conjunct1] show ?thesis
    by (simp add: sqlite_stats_def query_row_def)
qed

lemma sqlite_op_sim:
  assumes "documented_writes R table" and "same_documents s (table d)" and "sqlite_op R sd x d = (r, d')" and "\<not> db_failed r"
  shows "fst (memory_op sd x s) = r \<and> same_documents (snd (memory_op sd x s)) (table d')"
proof (cases x)
  case (StoreOp i m b)
  obtain q where q: "sqlite_store R sd i m b d = (q, d')" and r: "r = (case q of Inl e \<Rightarrow> Inl e | Inr u \<Rightarrow> Inr True)"
    using assms(3) StoreOp by (cases "sqlite_store R sd i m b d"; cases "fst (sqlite_store R sd i m b d)") auto
  note D = documented_store [OF assms(1) q]
  show ?thesis
  proof (cases q)
    case (Inl e)
    with D assms(4) r obtain y where "to_vec sd m = Inl y" "e = Serialization y" "table d' = table d"
      by (auto simp: db_failed_def)
    with Inl assms(2) StoreOp r show ?thesis by (simp add: memory_store_def)
  next
    case (Inr u)
    with D obtain mb t where t: "to_vec sd m = Inr mb" "table d' = (table d)(id_str i \<mapsto> \<lparr>row_meta = mb, row_data = b, row_updated = t\<rparr>)"
      by auto
    have "memory_store sd i m b s = (Inr (), snd (memory_store sd i m b s))" using t(1) by (simp add: memory_store_def Let_def)
    then have "memory_op sd x s = (Inr True, snd (memory_store sd i m b s))" using StoreOp by (metis memory_op.simps(1) store_result.simps(2))
    with same_documents_store [OF assms(2) t(1)] t(2) Inr r show ?thesis by simp
  qed
next
  case (DeleteOp i)
  from documented_delete [OF assms(1), of i d r d'] assms(3,4) DeleteOp
  have "table d' = (table d)(id_str i := None)" "r = Inr (table d (id_str i) \<noteq> None)" by (auto split: sum.splits)
  with same_documents_delete [OF assms(2)] assms(2) memory_delete_result [of i s "fst (memory_delete i s)" "snd (memory_delete i s)"] DeleteOp
  show ?thesis by (auto simp: same_documents_def memory_exists_def)
qed

interpretation sqlite: memory_follower "sqlite_op R sd" sd "\<lambda>s d. documented_writes R table \<and> same_documents s (table d)" table
  for R sd table
proof (unfold_locales, goal_cases)
  case (1 s d x r d')
  then show ?case using sqlite_op_sim [of R table s d sd x r d'] by simp
qed simp

text \<open>
  C15. SQLite keeps what the in-memory backend keeps: after any sequence of stores and deletions on an
  empty database of which none reported a database error, the results are those of the in-memory
  backend, and every load, existence test and statistic that does not itself report a database error
  gives what the in-memory backend gives.
\<close>

theorem sqlite_agrees_with_memory:
  assumes "sqlite_documented R table" and "table d = Map.empty"
    and "run_ops (sqlite_op R sd) ops d = (rs, d')" and "\<forall>r\<in>set rs. \<not> db_failed r"
  shows "\<exists>s. run_ops (memory_op sd) ops memory_new = (rs, s) \<and>
    (\<forall>i. db_failed (sqlite_load R sd i d') \<or> sqlite_load R sd i d' = memory_load sd i s) \<and>
    (\<forall>i. db_failed (sqlite_exists R i d') \<or> sqlite_exists R i d' = memory_exists i s) \<and>
    (db_failed (sqlite_stats R d') \<or> sqlite_stats R d' = memory_stats s)"
proof -
  have doc: "documented_writes R table" "documented_reads R table" "documented_columns R"
    using assms(1) by (simp_all add: sqlite_documented_def)
  have "documented_writes R table \<and> same_documents memory_new (table d)" using doc(1) assms(2) same_documents_new by simp
  then obtain s where s: "run_ops (memory_op sd) ops memory_new = (rs, s)" and sim: "same_documents s (table d')"
    by (rule sqlite.from_empty [OF _ assms(3,4)])
  note mem = same_documents_reads [OF sim]
  have "sqlite_load R sd i d' = memory_load sd i s" if "\<not> db_failed (sqlite_load R sd i d')" for i
    using documented_load [OF doc(2,3) that] unfolding mem(1) .
  moreover have "sqlite_exists R i d' = memory_exists i s" if "\<not> db_failed (sqlite_exists R i d')" for i
    using documented_exists [OF doc(2,3) that] unfolding mem(2) .
  moreover have "sqlite_stats R d' = memory_stats s" if "\<not> db_failed (sqlite_stats R d')"
    using documented_stats [OF doc(2,3) that] unfolding mem(3) .
  ultimately show ?thesis using s by blast
qed

lemma sqlite_agrees_with_memory_witness:
  "let sd = \<lparr>to_vec = (\<lambda>m. Inr ''mm''), from_slice = (\<lambda>b. Inl ''e'')\<rparr>;
       ops = [StoreOp (DocumentId ''a'') (meta_new 0 (DocumentId ''a'') Lww) ''x'', DeleteOp (DocumentId ''b'')]
   in \<exists>s. run_ops (memory_op sd) ops memory_new = ([Inr True, Inr False], s) \<and>
     memory_exists (DocumentId ''a'') s = sqlite_exists demo_sqlite (DocumentId ''a'') (snd (run_ops (sqlite_op demo_sqlite sd) ops []))"
proof -
  let ?sd = "\<lparr>to_vec = (\<lambda>m. Inr ''mm''), from_slice = (\<lambda>b. Inl ''e'')\<rparr>"
  let ?ops = "[StoreOp (DocumentId ''a'') (meta_new 0 (DocumentId ''a'') Lww) ''x'', DeleteOp (DocumentId ''b'')]"
  obtain d' where d: "run_ops (sqlite_op demo_sqlite ?sd) ?ops [] = ([Inr True, Inr False], d')"
      "sqlite_exists demo_sqlite (DocumentId ''a'') d' = Inr True"
    by (simp add: sqlite_store_def sqlite_delete_def sqlite_exists_def query_row_def demo_sqlite_def demo_execute_def
        demo_query_row_def demo_integer_def word_sless_alt)
  have "map_of ([] :: demo_table) = Map.empty" by simp
  from sqlite_agrees_with_memory [OF demo_sqlite_documented this d(1)]
  obtain s where "run_ops (memory_op ?sd) ?ops memory_new = ([Inr True, Inr False], s)"
      "db_failed (sqlite_exists demo_sqlite (DocumentId ''a'') d') \<or>
       sqlite_exists demo_sqlite (DocumentId ''a'') d' = memory_exists (DocumentId ''a'') s"
    by auto
  with d show ?thesis by (simp add: Let_def)
qed

subsection \<open>What list selects\<close>

lemma double_quotes_append [simp]: "double_quotes (a @ b) = double_quotes a @ double_quotes b"
  by (simp add: double_quotes_def)

lemma double_quotes_percent: "double_quotes ''%'' = ''%''"
  by (simp add: double_quotes_def quote_def)

lemma same_letter_refl [simp]: "same_letter c c"
  by (simp add: same_letter_def)

lemma like_token_cases:
  obtains "c = CHR ''%''" and "like_token c = AnyString"
    | "c = CHR ''_''" and "like_token c = AnyChar"
    | "c \<noteq> CHR ''%''" and "c \<noteq> CHR ''_''" and "like_token c = Lit c"
  by (auto simp: like_token_def)

lemma like_any_step: "like eq ts k \<Longrightarrow> like eq (AnyString # ts) k"
  by (cases k) auto

lemma like_self: "like same_letter ts w \<Longrightarrow> like same_letter (map like_token v @ ts) (v @ w)"
proof (induction v)
  case (Cons c v)
  then have "like same_letter (map like_token v @ ts) (v @ w)" by simp
  then show ?case by (cases rule: like_token_cases [of c]) (simp_all add: like_any_step)
qed simp

lemma like_any: "like eq [AnyString] k"
  by (induction k) auto

lemma like_any_suffix: "like eq ts w \<Longrightarrow> like eq (AnyString # ts) (v @ w)"
  by (induction v) (auto intro: like_any_step)

lemma like_any_iff: "like eq (AnyString # ts) k \<longleftrightarrow> (\<exists>a b. k = a @ b \<and> like eq ts b)"
proof (induction k)
  case (Cons x k)
  then show ?case by (auto simp: Cons_eq_append_conv)
qed simp

lemma like_plain:
  "\<forall>c\<in>set v. c \<noteq> CHR ''%'' \<and> c \<noteq> CHR ''_'' \<Longrightarrow>
    like eq (map like_token v @ ts) k \<longleftrightarrow> (\<exists>a b. k = a @ b \<and> list_all2 eq v a \<and> like eq ts b)"
proof (induction v arbitrary: k)
  case (Cons c v)
  then have t: "like_token c = Lit c" by (simp add: like_token_def)
  have IH: "like eq (map like_token v @ ts) j \<longleftrightarrow> (\<exists>a b. j = a @ b \<and> list_all2 eq v a \<and> like eq ts b)" for j
    using Cons.IH Cons.prems by simp
  show ?case
  proof (cases k)
    case (Cons x j)
    have "(\<exists>a b. k = a @ b \<and> list_all2 eq (c # v) a \<and> like eq ts b) \<longleftrightarrow>
        eq c x \<and> (\<exists>a b. j = a @ b \<and> list_all2 eq v a \<and> like eq ts b)"
      unfolding Cons by (auto simp: Cons_eq_append_conv list_all2_Cons1)
    with IH t show ?thesis by (simp add: Cons)
  qed (simp add: t)
qed simp

lemma same_letters: "list_all2 same_letter v a \<longleftrightarrow> map lower_char a = map lower_char v"
  by (induction v arbitrary: a) (auto simp: same_letter_def list_all2_Cons1 Cons_eq_map_conv map_eq_Cons_conv)

text \<open>Which identifiers a pattern selects, from the statement that is sent.\<close>

fun sqlite_selects :: "string option \<Rightarrow> string \<Rightarrow> bool" where
  "sqlite_selects None k = True"
| "sqlite_selects (Some p) k =
     (if suffix ''*'' p then sqlite_like (trim_end_stars p @ ''%'') k
      else if prefix ''*'' p then sqlite_like (CHR ''%'' # trim_start_stars p) k
      else k = p)"

lemma trim_end_stars_prefix: "prefix (trim_end_stars p) p"
proof -
  have "rev p = takeWhile (\<lambda>c. c = CHR ''*'') (rev p) @ dropWhile (\<lambda>c. c = CHR ''*'') (rev p)" by simp
  then have "p = trim_end_stars p @ rev (takeWhile (\<lambda>c. c = CHR ''*'') (rev p))"
    unfolding trim_end_stars_def by (metis rev_append rev_rev_ident)
  then show ?thesis by (metis prefixI)
qed

lemma trim_end_stars_snoc [simp]: "trim_end_stars (p @ ''*'') = trim_end_stars p"
  by (simp add: trim_end_stars_def)

lemma trim_end_stars_plain: "\<not> suffix ''*'' p \<Longrightarrow> trim_end_stars p = p"
  by (cases p rule: rev_cases) (auto simp: trim_end_stars_def)

lemma memory_pattern_selected:
  assumes "memory_matches_pattern k p"
  shows "sqlite_selects (Some p) k"
proof (cases "suffix ''*'' p")
  case True
  then obtain q where q: "p = q @ ''*''" by (auto simp: suffix_def)
  have "prefix (trim_end_stars q) k"
  proof (cases "q = []")
    case False
    with assms q have "prefix q k" by (simp add: memory_matches_pattern_def strip_suffix_char_def)
    with trim_end_stars_prefix show ?thesis by (rule prefix_order.trans)
  qed (simp add: trim_end_stars_def)
  then obtain w where "k = trim_end_stars q @ w" by (auto simp: prefix_def)
  with like_self [of "[AnyString]" w "trim_end_stars q"] like_any q show ?thesis
    by (simp add: sqlite_like_def like_token_def)
next
  case False
  then have n: "strip_suffix_char (CHR ''*'') p = None" "p \<noteq> ''*''"
    by (auto simp: strip_suffix_char_None suffix_def) (metis append_butlast_last_id)
  show ?thesis
  proof (cases p)
    case (Cons c q)
    show ?thesis
    proof (cases "c = CHR ''*''")
      case True
      with assms n Cons have "suffix q k" by (simp add: memory_matches_pattern_def strip_prefix_char_def)
      moreover have "suffix (trim_start_stars q) q" by (simp add: trim_start_stars_def suffix_dropWhile)
      ultimately obtain v where v: "k = v @ trim_start_stars q" by (meson suffix_def suffix_order.trans)
      have "like same_letter (AnyString # map like_token (trim_start_stars q)) (v @ trim_start_stars q)"
        using like_any_suffix [OF like_self [of "[]" "[]" "trim_start_stars q"]] by simp
      with v Cons True False show ?thesis
        by (simp add: sqlite_like_def like_token_def trim_start_stars_def)
    next
      case False
      with \<open>\<not> suffix ''*'' p\<close> assms n Cons show ?thesis by (simp add: memory_matches_pattern_def strip_prefix_char_def)
    qed
  qed (use assms n in \<open>simp add: memory_matches_pattern_def strip_prefix_char_def\<close>)
qed

lemma rows_listed:
  assumes "rows_of t sel items" and "documented_columns R" and "\<forall>e. Inl e \<notin> set items"
    and "\<forall>k\<in>dom t. \<exists>i. document_id_new k = Inr i"
  shows "newest_first t sel (map id_str (concat (map (listed_id R) items)))"
proof -
  obtain ks where ks: "newest_first t sel ks" "items = map (\<lambda>k. Inr [SqlText k]) ks"
    using assms(1,3) by (auto simp: rows_of_def)
  have "listed_id R (Inr [SqlText k]) = [DocumentId k]" if k: "k \<in> set ks" for k
  proof -
    from k ks(1) have "k \<in> dom t" by (simp add: newest_first_def)
    with assms(4) have "document_id_new k = Inr (DocumentId k)" by (force simp: document_id_new_def split: if_splits)
    with assms(2) show ?thesis by (simp add: listed_id_def documented_columns_def)
  qed
  then have "map (listed_id R) items = map (\<lambda>k. [DocumentId k]) ks" using ks(2) by simp
  then have "map id_str (concat (map (listed_id R) items)) = ks" by (simp add: concat_map_singleton comp_def)
  with ks(1) show ?thesis by simp
qed

lemma sqlite_list_rows:
  assumes "documented_lists R table" and "\<forall>q. p = Some q \<longrightarrow> CHR 0x00 \<notin> set q"
    and "r_prepare R (sqlite_list_sql p) d = Inr (Inr items)"
  shows "rows_of (table d) (sqlite_selects p) items"
proof (cases p)
  case None
  have "(\<lambda>k. True) = sqlite_selects None" by (rule ext) simp
  with assms(1,3) None show ?thesis by (simp add: documented_lists_def sqlite_list_sql_def)
next
  case (Some q)
  note like_list = assms(1) [unfolded documented_lists_def, THEN conjunct1, THEN spec, THEN spec, THEN spec, THEN mp]
  note eq_list = assms(1) [unfolded documented_lists_def, THEN conjunct2, THEN conjunct1, THEN spec, THEN spec, THEN spec, THEN mp]
  have z: "CHR 0x00 \<notin> set (trim_end_stars q)" "CHR 0x00 \<notin> set (trim_start_stars q)"
    using assms(2) Some by (auto simp: trim_end_stars_def trim_start_stars_def dest: set_dropWhileD)
  consider "suffix ''*'' q" | "\<not> suffix ''*'' q" "prefix ''*'' q" | "\<not> suffix ''*'' q" "\<not> prefix ''*'' q" by blast
  then show ?thesis
  proof cases
    case 1
    have "sqlite_selects p = sqlite_like (trim_end_stars q @ ''%'')" using Some 1 by (intro ext) simp
    with like_list [of "trim_end_stars q @ ''%''" d items] 1 Some assms(3) z show ?thesis
      by (simp add: sqlite_list_sql_def double_quotes_percent)
  next
    case 2
    have "sqlite_selects p = sqlite_like (''%'' @ trim_start_stars q)" using Some 2 by (intro ext) simp
    with like_list [of "''%'' @ trim_start_stars q" d items] 2 Some assms(3) z show ?thesis
      by (simp only: sqlite_list_sql_def double_quotes_append double_quotes_percent) simp
  next
    case 3
    have "sqlite_selects p = (\<lambda>k. k = q)" using Some 3 by (intro ext) simp
    with eq_list [of q d items] 3 Some assms(2,3) show ?thesis by (simp add: sqlite_list_sql_def)
  qed
qed

text \<open>Two documents whose identifiers a person would tell apart.\<close>

definition demo_docs :: demo_table where
  "demo_docs = [(''user_1'', \<lparr>row_meta = ''m'', row_data = ''d'', row_updated = 1\<rparr>), (''userX1'', \<lparr>row_meta = ''m'', row_data = ''d'', row_updated = 2\<rparr>)]"

lemma demo_docs_dom: "dom (map_of demo_docs) = {''user_1'', ''userX1''}"
  by (auto simp: demo_docs_def split: if_splits)

lemma demo_docs_valid: "\<forall>k\<in>dom (map_of demo_docs). \<exists>i. document_id_new k = Inr i"
  unfolding demo_docs_dom by (simp add: document_id_new_def id_char_def byte_def)

lemma demo_items:
  assumes "suffix ''*'' q"
  shows "\<exists>items. r_prepare demo_sqlite (sqlite_list_sql (Some q)) d = Inr (Inr items) \<and> (\<forall>e. Inl e \<notin> set items)"
proof -
  have "sqlite_list_sql (Some q) = LIKE_HEAD @ double_quotes (trim_end_stars q @ ''%'') @ LIST_TAIL"
    using assms by (simp add: sqlite_list_sql_def double_quotes_percent)
  then show ?thesis by (simp del: double_quotes_append add: demo_sqlite_def demo_prepare_def demo_query_def image_iff)
qed



text \<open>
  An underscore, which identifiers may contain, is a wildcard to SQLite: listing the documents whose
  identifier begins with a text that ends in an underscore also gives those with any other character
  in its place, which the in-memory backend does not give.
\<close>

theorem sqlite_list_underscore:
  assumes "sqlite_documented R table" and "CHR 0x00 \<notin> set v"
    and "\<forall>k\<in>dom (table d). \<exists>i. document_id_new k = Inr i"
    and "r_prepare R (sqlite_list_sql (Some (v @ ''_*''))) d = Inr (Inr items)" and "\<forall>e. Inl e \<notin> set items"
    and "v @ c # w \<in> dom (table d)" and "c \<noteq> CHR ''_''"
  shows "\<exists>ids. sqlite_list R (Some (v @ ''_*'')) d = Inr ids \<and> DocumentId (v @ c # w) \<in> set ids \<and>
    \<not> memory_matches_pattern (v @ c # w) (v @ ''_*'')"
proof -
  let ?p = "Some (v @ ''_*'')" and ?ids = "concat (map (listed_id R) items)"
  have doc: "documented_lists R table" "documented_columns R" using assms(1) by (simp_all add: sqlite_documented_def)
  have z: "\<forall>q. ?p = Some q \<longrightarrow> CHR 0x00 \<notin> set q" using assms(2) by simp
  have "newest_first (table d) (sqlite_selects ?p) (map id_str ?ids)"
    by (rule rows_listed [OF sqlite_list_rows [OF doc(1) z assms(4)] doc(2) assms(5,3)])
  then have set: "id_str ` set ?ids = {k \<in> dom (table d). sqlite_selects ?p k}" by (simp add: newest_first_def)
  have t: "trim_end_stars (v @ ''_*'') = v @ ''_''" "suffix ''*'' (v @ ''_*'')"
    using trim_end_stars_snoc [of "v @ ''_''"] trim_end_stars_plain [of "v @ ''_''"] by (simp_all add: suffix_def)
  have "sqlite_selects ?p (v @ c # w)"
    using like_self [of "[AnyChar, AnyString]" "c # w" v] like_any t by (simp add: sqlite_like_def like_token_def)
  with set assms(6) have "v @ c # w \<in> id_str ` set ?ids" by simp
  then have "DocumentId (v @ c # w) \<in> set ?ids" by (auto simp: image_iff)
  moreover have "\<not> memory_matches_pattern (v @ c # w) (v @ ''_*'')"
    using assms(7) by (simp add: memory_matches_pattern_def strip_suffix_char_def butlast_append)
  ultimately show ?thesis using assms(4) by (simp add: sqlite_list_def)
qed

lemma sqlite_list_underscore_witness:
  "\<exists>ids. sqlite_list demo_sqlite (Some ''user_*'') demo_docs = Inr ids \<and> DocumentId ''userX1'' \<in> set ids \<and>
     \<not> memory_matches_pattern ''userX1'' ''user_*''"
proof -
  obtain items where i: "r_prepare demo_sqlite (sqlite_list_sql (Some (''user'' @ ''_*''))) demo_docs = Inr (Inr items)" "\<forall>e. Inl e \<notin> set items"
    using demo_items [of "''user_*''" demo_docs] by (auto simp: suffix_def)
  have "CHR 0x00 \<notin> set ''user''" "''user'' @ CHR ''X'' # ''1'' \<in> dom (map_of demo_docs)" "CHR ''X'' \<noteq> CHR ''_''"
    by (simp_all add: demo_docs_dom)
  from sqlite_list_underscore [OF demo_sqlite_documented this(1) demo_docs_valid i this(2,3)] show ?thesis by simp
qed

end
