(* ===== verification/PostgresLaws.thy ===== *)
theory PostgresLaws imports Postgres SqliteLaws begin

section \<open>What the PostgreSQL storage guarantees\<close>

text \<open>
  The backend does what the in-memory backend does whenever no database error is reported, and reading
  a row never panics; \<open>list\<close> agrees with the in-memory backend on plain patterns. Opening a database
  through \<open>new\<close> never succeeds.
\<close>

subsection \<open>Opening\<close>

lemma schema_commands: "several_commands PG_SCHEMA"
  by (simp add: several_commands_def PG_SCHEMA_def Let_def blank_def letter_def quote_def lower_char_def byte_def)

lemma postgres_new_error:
  assumes "prepares_single_commands P"
  shows "\<exists>e. postgres_new P url = Inl (Connection e) \<or> postgres_new P url = Inl (Database e)"
proof (cases "pg_connect P 10 url")
  case (Inr d)
  obtain e where "fst (pg_execute P PG_SCHEMA [] d) = Inl e"
    using assms schema_commands unfolding prepares_single_commands_def by blast
  with Inr show ?thesis
    by (cases "pg_execute P PG_SCHEMA [] d") (simp add: postgres_new_def postgres_init_schema_def)
qed (simp add: postgres_new_def)

text \<open>
  A PostgreSQL storage cannot be opened with \<open>new\<close>: the text that creates the schema holds two commands,
  which a prepared statement may not, so the result is an error whatever the server.
\<close>

theorem postgres_new_fails:
  assumes "prepares_single_commands P"
  shows "\<exists>e. postgres_new P url = Inl (Connection e) \<or> postgres_new P url = Inl (Database e)"
  by (rule postgres_new_error [OF assms])

lemma postgres_new_fails_witness:
  "postgres_new demo_sqlx ''postgres://localhost'' = Inl (Database ''cannot insert multiple commands into a prepared statement'')"
proof -
  have "prepares_single_commands demo_sqlx" by (simp add: prepares_single_commands_def demo_sqlx_def demo_pg_execute_def)
  from postgres_new_fails [OF this, of "''postgres://localhost''"] show ?thesis
    by (auto simp: postgres_new_def postgres_init_schema_def demo_sqlx_def demo_pg_execute_def schema_commands)
qed

subsection \<open>Every operation on the table\<close>

fun postgres_op :: "('d, 'l) sqlx \<Rightarrow> meta_serde \<Rightarrow> storage_op \<Rightarrow> 'd \<Rightarrow> (storage_error + bool) \<times> 'd" where
  "postgres_op P sd (StoreOp i m b) d = store_result (postgres_store P sd i m b d)"
| "postgres_op P sd (DeleteOp i) d = postgres_delete P i d"

lemma pg_write:
  fixes i m b :: string and d :: 'd
  assumes "pg_writes (P :: ('d, 'l) sqlx) table"
  shows "case pg_execute P PG_STORE [SqlText i, SqlBlob m, SqlBlob b] d of
      (Inr n, d') \<Rightarrow> \<exists>t. table d' = (table d)(i \<mapsto> \<lparr>row_meta = m, row_data = b, row_updated = t\<rparr>)
    | (Inl e, d') \<Rightarrow> table d' = table d"
  by (rule assms [unfolded pg_writes_def, THEN conjunct1, THEN spec, THEN spec, THEN spec, THEN spec])

lemma pg_remove:
  fixes i :: string and d :: 'd
  assumes "pg_writes (P :: ('d, 'l) sqlx) table"
  shows "case pg_execute P PG_DELETE [SqlText i] d of
      (Inr n, d') \<Rightarrow> table d' = (table d)(i := None) \<and> n = (if table d i = None then 0 else 1)
    | (Inl e, d') \<Rightarrow> table d' = table d"
  by (rule assms [unfolded pg_writes_def, THEN conjunct2, THEN spec, THEN spec])

lemma pg_load:
  assumes "pg_reads P table" and "pg_columns P"
  shows "\<exists>r. postgres_load P sd i d = Some r \<and> (db_failed r \<or> r =
    (case table d (id_str i) of
       None \<Rightarrow> Inr None
     | Some r \<Rightarrow> (case from_slice sd (row_meta r) of Inl e \<Rightarrow> Inl (Serialization e) | Inr m \<Rightarrow> Inr (Some (m, row_data r)))))"
proof (cases "pg_fetch_optional P PG_LOAD [SqlText (id_str i)] d")
  case (Inr r)
  then have "r = map_option (\<lambda>r. [(''meta'', SqlBlob (row_meta r)), (''data'', SqlBlob (row_data r))]) (table d (id_str i))"
    using assms(1) unfolding pg_reads_def by blast
  with Inr assms(2) show ?thesis
    by (cases "table d (id_str i)") (simp_all add: postgres_load_def pg_columns_def)
qed (simp add: postgres_load_def)

lemma pg_exists:
  "pg_reads P table \<Longrightarrow> db_failed (postgres_exists P i d) \<or> postgres_exists P i d = Inr (table d (id_str i) \<noteq> None)"
  by (cases "pg_fetch_optional P PG_EXISTS [SqlText (id_str i)] d") (auto simp: postgres_exists_def pg_reads_def)

lemma pg_stats:
  assumes "pg_reads P table" and "pg_columns P"
  shows "\<exists>r. postgres_stats P d = Some r \<and> (db_failed r \<or>
    r = Inr \<lparr>stored_count = card (dom (table d)), total_size_bytes = word_of_nat (table_size (table d))\<rparr>)"
proof (cases "pg_fetch_one P PG_COUNT [] d")
  case (Inr r1)
  then obtain n where n: "r1 = [(''count'', SqlInteger n)]" "sint n = int (card (dom (table d)))"
    using assms(1) unfolding pg_reads_def by blast
  have c: "pg_i64 P r1 ''count'' = Some n" using assms(2) n(1) by (simp add: pg_columns_def)
  show ?thesis
  proof (cases "pg_fetch_one P PG_SIZE [] d")
    case Inr2: (Inr r2)
    then obtain z where z: "r2 = [(''size'', SqlInteger z)]" "sint z = int (table_size (table d))"
      using assms(1) unfolding pg_reads_def by blast
    have "pg_i64 P r2 ''size'' = Some z" using assms(2) z(1) by (simp add: pg_columns_def)
    with Inr Inr2 c sint_of_nat [OF n(2), THEN conjunct2] sint_of_nat [OF z(2), THEN conjunct1] show ?thesis
      by (simp add: postgres_stats_def)
  qed (use Inr c in \<open>simp add: postgres_stats_def\<close>)
qed (simp add: postgres_stats_def)

lemma postgres_op_sim:
  assumes "pg_writes P table" and "same_documents s (table d)" and "postgres_op P sd x d = (r, d')" and "\<not> db_failed r"
  shows "fst (memory_op sd x s) = r \<and> same_documents (snd (memory_op sd x s)) (table d')"
proof (cases x)
  case (StoreOp i m b)
  show ?thesis
  proof (cases "to_vec sd m")
    case (Inl e)
    with StoreOp assms(2,3) show ?thesis by (auto simp: postgres_store_def memory_store_def)
  next
    case (Inr mb)
    obtain q d1 where q: "pg_execute P PG_STORE [SqlText (id_str i), SqlBlob mb, SqlBlob b] d = (q, d1)"
      by (cases "pg_execute P PG_STORE [SqlText (id_str i), SqlBlob mb, SqlBlob b] d")
    with Inr StoreOp assms(3,4) obtain n where n: "q = Inr n" "r = Inr True" "d1 = d'"
      by (cases q) (auto simp: postgres_store_def)
    obtain t where t: "table d' = (table d)(id_str i \<mapsto> \<lparr>row_meta = mb, row_data = b, row_updated = t\<rparr>)"
      using pg_write [OF assms(1), where i = "id_str i" and m = mb and b = b and d = d] q n by auto
    have "memory_store sd i m b s = (Inr (), snd (memory_store sd i m b s))" using Inr by (simp add: memory_store_def Let_def)
    then have "memory_op sd x s = (Inr True, snd (memory_store sd i m b s))"
      using StoreOp by (metis memory_op.simps(1) store_result.simps(2))
    with same_documents_store [OF assms(2) Inr] t n show ?thesis by simp
  qed
next
  case (DeleteOp i)
  with assms(3,4) pg_remove [OF assms(1), where i = "id_str i" and d = d]
  have "table d' = (table d)(id_str i := None)" "r = Inr (table d (id_str i) \<noteq> None)"
    by (auto simp: postgres_delete_def split: sum.splits prod.splits if_splits)
  with same_documents_delete [OF assms(2)] assms(2) memory_delete_result [of i s "fst (memory_delete i s)" "snd (memory_delete i s)"] DeleteOp
  show ?thesis by (auto simp: same_documents_def memory_exists_def)
qed

interpretation postgres: memory_follower "postgres_op P sd" sd "\<lambda>s d. pg_writes P table \<and> same_documents s (table d)" table
  for P sd table
proof (unfold_locales, goal_cases)
  case (1 s d x r d')
  then show ?case using postgres_op_sim [of P table s d sd x r d'] by simp
qed simp



subsection \<open>What list selects\<close>

fun postgres_selects :: "string option \<Rightarrow> string \<Rightarrow> bool" where
  "postgres_selects None k = True"
| "postgres_selects (Some p) k =
     (if suffix ''*'' p then pg_like (trim_end_stars p @ ''%'') k
      else if prefix ''*'' p then pg_like (CHR ''%'' # trim_start_stars p) k
      else k = p)"

lemma pg_tokens_plain: "CHR 0x5C \<notin> set p \<Longrightarrow> pg_tokens p = Some (map like_token p)"
  by (induction p rule: pg_tokens.induct) auto

definition plain :: "string \<Rightarrow> bool" where
  "plain p \<longleftrightarrow> (\<forall>c\<in>set p. c \<notin> {CHR ''%'', CHR ''_'', CHR 0x5C})"

lemma plain_like:
  assumes "plain v"
  shows "like (=) (map like_token v @ ts) k \<longleftrightarrow> (\<exists>b. k = v @ b \<and> like (=) ts b)"
proof -
  have "\<forall>c\<in>set v. c \<noteq> CHR ''%'' \<and> c \<noteq> CHR ''_''" using assms by (simp add: plain_def)
  from like_plain [OF this, of "(=)" ts k] show ?thesis by (simp only: list.rel_eq) blast
qed

lemma plain_tokens: "plain v \<Longrightarrow> CHR 0x5C \<notin> set v"
  by (auto simp: plain_def)

lemma like_token_percent: "like_token (CHR ''%'') = AnyString"
  by (simp add: like_token_def)

lemma plain_prefix:
  assumes "plain v"
  shows "pg_like (v @ ''%'') k \<longleftrightarrow> prefix v k"
proof -
  have "pg_tokens (v @ ''%'') = Some (map like_token v @ [AnyString])"
    using pg_tokens_plain [of "v @ ''%''"] plain_tokens [OF assms] by (simp add: like_token_percent)
  then show ?thesis by (simp only: pg_like_def option.case plain_like [OF assms] like_any prefix_def simp_thms)
qed

lemma plain_suffix:
  assumes "plain v"
  shows "pg_like (CHR ''%'' # v) k \<longleftrightarrow> suffix v k"
proof -
  have t: "pg_tokens (CHR ''%'' # v) = Some (AnyString # map like_token v)"
    using pg_tokens_plain [of "CHR ''%'' # v"] plain_tokens [OF assms] by (simp add: like_token_percent)
  have "like (=) (map like_token v) b \<longleftrightarrow> b = v" for b
    using plain_like [OF assms, of "[]" b] by (simp only: append_Nil2 like.simps(1)) auto
  with t show ?thesis by (simp only: pg_like_def option.case like_any_iff suffix_def) blast
qed

lemma plain_selects:
  assumes "plain p"
    and "CHR ''*'' \<notin> set v" and "p \<in> {v, v @ ''*'', CHR ''*'' # v}"
  shows "postgres_selects (Some p) k \<longleftrightarrow> memory_matches_pattern k p"
proof -
  have v: "\<not> suffix ''*'' v" "\<not> prefix ''*'' v" "trim_end_stars v = v" "trim_start_stars v = v"
  proof -
    show s: "\<not> suffix ''*'' v" "\<not> prefix ''*'' v" using assms(2) by (auto simp: suffix_def prefix_def)
    show "trim_end_stars v = v" by (rule trim_end_stars_plain [OF s(1)])
    show "trim_start_stars v = v" using s(2) by (cases v) (auto simp: trim_start_stars_def)
  qed
  consider "p = v" | "p = v @ ''*''" | "p = CHR ''*'' # v" "v \<noteq> []"
    using assms(3) by (cases "v = []") (auto simp only: insert_iff append_Nil empty_iff)
  moreover from this have m: "plain v" using assms(1) by cases (simp_all add: plain_def)
  ultimately
  show ?thesis
  proof cases
    case 1
    have "strip_suffix_char (CHR ''*'') v = None" "strip_prefix_char (CHR ''*'') v = None" "v \<noteq> ''*''"
      using assms(2) by (auto simp: strip_suffix_char_def strip_prefix_char_def dest: last_in_set split: list.split)
    with v 1 show ?thesis by (simp add: memory_matches_pattern_def)
  next
    case 2
    have "trim_end_stars p = v" "suffix ''*'' p" using 2 v by (simp_all add: suffix_def)
    with plain_prefix [OF m] 2 show ?thesis
      by (simp add: memory_matches_pattern_def strip_suffix_char_def)
  next
    case 3
    have "\<not> suffix ''*'' p" using 3 v(1) by (auto simp: suffix_Cons)
    moreover have "trim_start_stars p = v" using 3 v(4) by (simp add: trim_start_stars_def)
    moreover have "strip_suffix_char (CHR ''*'') p = None"
      using 3 v(1) by (cases v rule: rev_cases) (auto simp: strip_suffix_char_def suffix_def)
    ultimately show ?thesis using plain_suffix [OF m] 3
      by (simp add: memory_matches_pattern_def strip_prefix_char_def)
  qed
qed

lemma postgres_list_rows:
  assumes "pg_lists P table" and "pg_fetch_all P (fst (postgres_list_query p)) (snd (postgres_list_query p)) d = Inr rows"
  shows "pg_rows (table d) (postgres_selects p) rows"
proof -
  have "postgres_selects None = (\<lambda>k. True)" by (rule ext) simp
  moreover have "postgres_selects (Some q) = (if suffix ''*'' q then pg_like (trim_end_stars q @ ''%'')
      else if prefix ''*'' q then pg_like (CHR ''%'' # trim_start_stars q) else (\<lambda>k. k = q))" for q
    by (rule ext) simp
  ultimately show ?thesis
    using assms by (cases p) (auto simp: postgres_list_query_def pg_lists_def split: if_splits)
qed

lemma valid_ids_all: "\<forall>k\<in>set ks. \<exists>i. document_id_new k = Inr i \<Longrightarrow> map id_str (valid_ids ks) = ks"
  by (induction ks) auto

text \<open>
  On PostgreSQL \<open>list\<close> never panics, and for a pattern without a percent sign, underscore or backslash
  whose only star, if any, is its first or last character it gives the documents that the in-memory
  backend's matching gives, each once, the last updated first.
\<close>

theorem postgres_list_plain:
  assumes "postgres_documented P table" and "\<forall>k\<in>dom (table d). \<exists>i. document_id_new k = Inr i"
    and "plain p"
    and "CHR ''*'' \<notin> set v" and "p \<in> {v, v @ ''*'', CHR ''*'' # v}"
  shows "\<exists>r. postgres_list P (Some p) d = Some r \<and>
    (db_failed r \<or> (\<exists>ids. r = Inr ids \<and> newest_first (table d) (\<lambda>k. memory_matches_pattern k p) (map id_str ids)))"
proof -
  have doc: "pg_lists P table" "pg_columns P" using assms(1) by (simp_all add: postgres_documented_def)
  obtain sql ps where q: "postgres_list_query (Some p) = (sql, ps)" by (cases "postgres_list_query (Some p)")
  show ?thesis
  proof (cases "pg_fetch_all P sql ps d")
    case (Inl e)
    with q show ?thesis by (simp add: postgres_list_def)
  next
    case (Inr rows)
    have "postgres_selects (Some p) = (\<lambda>k. memory_matches_pattern k p)"
      by (rule ext) (rule plain_selects [OF assms(3-5)])
    with postgres_list_rows [OF doc(1), of "Some p" d rows] q Inr
    obtain ks where ks: "newest_first (table d) (\<lambda>k. memory_matches_pattern k p) ks" "rows = map (\<lambda>k. [(''id'', SqlText k)]) ks"
      by (auto simp: pg_rows_def)
    have "map (\<lambda>row. pg_text P row ''id'') rows = map Some ks"
      using doc(2) ks(2) by (simp add: pg_columns_def)
    moreover have "those (map Some ks) = Some ks" by (induction ks) simp_all
    moreover have "map id_str (valid_ids ks) = ks"
      using ks(1) assms(2) by (intro valid_ids_all) (simp add: newest_first_def)
    ultimately show ?thesis using q Inr ks(1) by (simp add: postgres_list_def)
  qed
qed

lemma postgres_list_plain_witness:
  "\<exists>r. postgres_list demo_sqlx (Some ''user*'') demo_docs = Some r \<and>
    (db_failed r \<or> (\<exists>ids. r = Inr ids \<and> newest_first (map_of demo_docs) (\<lambda>k. memory_matches_pattern k ''user*'') (map id_str ids)))"
  using postgres_list_plain [OF demo_sqlx_documented demo_docs_valid, of "''user*''" "''user''"] by (simp add: plain_def)

end
