(* ===== verification/Handler.thy ===== *)
theory Handler imports Manager Parser Response RateLimit begin

section \<open>The connection handler (ussl-transport: handler.rs)\<close>

text \<open>
  One handler serves one connection; the document manager is shared, and so are the stores spawned
  as background tasks, here the list \<open>spawned\<close> of the stores not yet run, oldest first. A command
  is handled without interruption by the other connections, except that each read of a clock
  may give another value: \<open>clocks\<close> holds the readings a command makes (\<open>c_create\<close> when it creates
  documents, \<open>c_update\<close> when it changes or reads one, \<open>c_scan\<close> for each entry of a scan, \<open>c_secs\<close>
  in seconds, \<open>c_instant\<close> of the monotonic clock).

  The libraries are the record \<open>libs\<close>: yrs, and the JSON parser and printers. A result \<open>None\<close> means
  that the handler does not return: it loops in the path parser or panics.
\<close>

record 'y libs =
  l_yrs :: "'y yrs"
  l_from_str :: from_str
  l_to_vec :: "json \<Rightarrow> bytes option"
  l_usize :: "nat \<Rightarrow> json_number"
  l_backup_to_vec :: "backup \<Rightarrow> string + bytes"
  l_backup_from_str :: "string \<Rightarrow> string + backup"

record clocks =
  c_create :: u64
  c_update :: u64
  c_scan :: "string \<Rightarrow> u64"
  c_secs :: u64
  c_instant :: nat

record 'y server =
  s_manager :: "'y manager"
  spawned :: "(document_id \<times> document_meta \<times> bytes) list"

record handler =
  client_id :: string
  h_parser :: parser
  subscriptions :: "string list"
  require_auth :: bool
  authenticated :: bool
  password :: "string option"
  has_storage :: bool
  limiter :: "rate_limiter option"

definition handler_new :: "string \<Rightarrow> handler" where
  "handler_new cid = \<lparr>client_id = cid, h_parser = parser_new, subscriptions = [], require_auth = False,
     authenticated = True, password = None, has_storage = False, limiter = None\<rparr>"

definition handler_with_auth :: "string \<Rightarrow> string \<Rightarrow> handler" where
  "handler_with_auth cid pwd = \<lparr>client_id = cid, h_parser = parser_new, subscriptions = [], require_auth = True,
     authenticated = False, password = Some pwd, has_storage = False, limiter = None\<rparr>"

definition with_storage :: "handler \<Rightarrow> handler" where
  "with_storage h = h\<lparr>has_storage := True\<rparr>"

definition with_rate_limit :: "nat \<Rightarrow> rate_limit_config \<Rightarrow> handler \<Rightarrow> handler" where
  "with_rate_limit now c h = h\<lparr>limiter := Some (limiter_new now c)\<rparr>"

subsection \<open>Persisting and compacting\<close>

definition persist_document :: "'y yrs \<Rightarrow> handler \<Rightarrow> document_id \<Rightarrow> 'y document \<Rightarrow> 'y server \<Rightarrow> 'y server" where
  "persist_document y h i d s =
     (if has_storage h then s\<lparr>spawned := spawned s @ [(i, meta d, encode_state y d)]\<rparr> else s)"

definition maybe_auto_compact :: "'y yrs \<Rightarrow> 'y document \<Rightarrow> 'y document" where
  "maybe_auto_compact y d = (if should_compact y d then snd (compact y d) else d)"

subsection \<open>The commands\<close>

definition handle_auth :: "handler \<Rightarrow> string \<Rightarrow> response \<times> handler" where
  "handle_auth h pwd =
     (case password h of
        Some expected \<Rightarrow>
          if expected = pwd then (response_ok, h\<lparr>authenticated := True\<rparr>)
          else (response_error ''WRONGPASS'' ''Invalid password'', h)
      | None \<Rightarrow> (ok_with_message ''No authentication required'', h))"

text \<open>Every handler of a command on a document starts with the same two checks.\<close>

definition checked_id :: "string option \<Rightarrow> response + document_id" where
  "checked_id doc_id =
     (case doc_id of
        None \<Rightarrow> Inl (response_error ''MISSING_ARG'' ''Document ID required'')
      | Some id_text \<Rightarrow>
          (case document_id_new id_text of
             Inl e \<Rightarrow> Inl (response_error ''INVALID_ID'' (error_msg e))
           | Inr i \<Rightarrow> Inr i))"

definition handle_create ::
  "'y libs \<Rightarrow> clocks \<Rightarrow> string option \<Rightarrow> strategy \<Rightarrow> u64 option \<Rightarrow> 'y server \<Rightarrow> response \<times> 'y server" where
  "handle_create L ck doc_id st t s =
     (case checked_id doc_id of
        Inl r \<Rightarrow> (r, s)
      | Inr i \<Rightarrow>
          (case manager_create (l_yrs L) (c_create ck) (s_manager s) i st t of
             (Inr d, m) \<Rightarrow> (response_ok, s\<lparr>s_manager := m\<rparr>)
           | (Inl e, m) \<Rightarrow> (response_error ''CREATE_ERROR'' (error_msg e), s\<lparr>s_manager := m\<rparr>)))"

definition handle_get :: "'y libs \<Rightarrow> string option \<Rightarrow> string option \<Rightarrow> 'y server \<Rightarrow> response option" where
  "handle_get L doc_id path s =
     (case checked_id doc_id of
        Inl r \<Rightarrow> Some r
      | Inr i \<Rightarrow>
          (case manager_get (s_manager s) i of
             Inr d \<Rightarrow> Option.bind (doc_get (l_yrs L) d path) (\<lambda>r. Some (case r of
                 Inr v \<Rightarrow> Value v
               | Inl e \<Rightarrow> response_error ''GET_ERROR'' (error_msg e)))
           | Inl _ \<Rightarrow> Some Null))"

definition handle_set ::
  "'y libs \<Rightarrow> clocks \<Rightarrow> handler \<Rightarrow> string option \<Rightarrow> string \<Rightarrow> val \<Rightarrow> 'y server \<Rightarrow> (response \<times> 'y server) option" where
  "handle_set L ck h doc_id path x s =
     (case checked_id doc_id of
        Inl r \<Rightarrow> Some (r, s)
      | Inr i \<Rightarrow>
          let (d, m) = manager_get_or_create (l_yrs L) (c_create ck) (s_manager s) i strategy_default
          in Option.bind (doc_set (l_yrs L) (c_update ck) d path x) (\<lambda>(r, d1). case r of
               Inr _ \<Rightarrow>
                 let d2 = maybe_auto_compact (l_yrs L) d1;
                     s1 = persist_document (l_yrs L) h i d2 (s\<lparr>s_manager := manager_put i d2 m\<rparr>);
                     dl = \<lparr>delta_document_id = i, delta_version = doc_version d2, delta_path = Some path,
                           delta_data = encode_state (l_yrs L) d2\<rparr>
                 in Some (response_ok, s1\<lparr>s_manager := publish_update dl (s_manager s1)\<rparr>)
             | Inl e \<Rightarrow> Some (response_error ''SET_ERROR'' (error_msg e), s\<lparr>s_manager := manager_put i d1 m\<rparr>)))"

definition handle_delete ::
  "clocks \<Rightarrow> string option \<Rightarrow> string option \<Rightarrow> 'y server \<Rightarrow> (response \<times> 'y server) option" where
  "handle_delete ck doc_id path s =
     (case checked_id doc_id of
        Inl r \<Rightarrow> Some (r, s)
      | Inr i \<Rightarrow>
          (case path of
             Some p \<Rightarrow>
               (case manager_get (s_manager s) i of
                  Inr d \<Rightarrow> Option.bind (doc_delete (c_update ck) d (Some p)) (\<lambda>(r, d1). Some
                    (case r of Inr _ \<Rightarrow> response_ok | Inl e \<Rightarrow> response_error ''DELETE_ERROR'' (error_msg e),
                     s\<lparr>s_manager := manager_put i d1 (s_manager s)\<rparr>))
                | Inl _ \<Rightarrow> Some (not_found (id_str i), s))
           | None \<Rightarrow>
               (case manager_delete (s_manager s) i of
                  (Inr _, m) \<Rightarrow> Some (response_ok, s\<lparr>s_manager := m\<rparr>)
                | (Inl e, m) \<Rightarrow> Some (response_error ''DELETE_ERROR'' (error_msg e), s\<lparr>s_manager := m\<rparr>))))"

definition handle_subscribe :: "handler \<Rightarrow> string \<Rightarrow> string option \<Rightarrow> response \<times> handler" where
  "handle_subscribe h pattern path =
     (ok_with_message (''Subscribed to '' @ pattern),
      if pattern \<notin> set (subscriptions h) then h\<lparr>subscriptions := subscriptions h @ [pattern]\<rparr> else h)"

definition handle_unsubscribe :: "handler \<Rightarrow> string \<Rightarrow> response \<times> handler" where
  "handle_unsubscribe h pattern =
     (ok_with_message (''Unsubscribed from '' @ pattern),
      h\<lparr>subscriptions := filter (\<lambda>p. p \<noteq> pattern) (subscriptions h)\<rparr>)"

definition handle_push ::
  "'y libs \<Rightarrow> clocks \<Rightarrow> handler \<Rightarrow> string option \<Rightarrow> string \<Rightarrow> val \<Rightarrow> 'y server \<Rightarrow> (response \<times> 'y server) option" where
  "handle_push L ck h doc_id path x s =
     (case checked_id doc_id of
        Inl r \<Rightarrow> Some (r, s)
      | Inr i \<Rightarrow>
          let (d, m) = manager_get_or_create (l_yrs L) (c_create ck) (s_manager s) i strategy_default
          in Option.bind (doc_push (c_update ck) d path x) (\<lambda>(r, d1). case r of
               Inr _ \<Rightarrow>
                 let d2 = maybe_auto_compact (l_yrs L) d1
                 in Some (response_ok, persist_document (l_yrs L) h i d2 (s\<lparr>s_manager := manager_put i d2 m\<rparr>))
             | Inl e \<Rightarrow> Some (response_error ''PUSH_ERROR'' (error_msg e), s\<lparr>s_manager := manager_put i d1 m\<rparr>)))"

definition handle_increment ::
  "'y libs \<Rightarrow> clocks \<Rightarrow> handler \<Rightarrow> string option \<Rightarrow> string \<Rightarrow> i64 \<Rightarrow> 'y server \<Rightarrow> (response \<times> 'y server) option" where
  "handle_increment L ck h doc_id path delta s =
     (case checked_id doc_id of
        Inl r \<Rightarrow> Some (r, s)
      | Inr i \<Rightarrow>
          let (d, m) = manager_get_or_create (l_yrs L) (c_create ck) (s_manager s) i CrdtCounter
          in Option.bind (doc_increment (c_update ck) d path delta) (\<lambda>(r, d1). case r of
               Inr new_value \<Rightarrow>
                 let d2 = maybe_auto_compact (l_yrs L) d1
                 in Some (Integer new_value, persist_document (l_yrs L) h i d2 (s\<lparr>s_manager := manager_put i d2 m\<rparr>))
             | Inl e \<Rightarrow> Some (response_error ''INC_ERROR'' (error_msg e), s\<lparr>s_manager := manager_put i d1 m\<rparr>)))"

definition presence_json :: "presence \<Rightarrow> json" where
  "presence_json p = JObject [(''client_id'', JString (presence_client p)), (''data'', presence_data p)]"

definition handle_presence ::
  "'y libs \<Rightarrow> handler \<Rightarrow> string option \<Rightarrow> json option \<Rightarrow> 'y server \<Rightarrow> (response \<times> 'y server) option" where
  "handle_presence L h doc_id data s =
     (case checked_id doc_id of
        Inl r \<Rightarrow> Some (r, s)
      | Inr i \<Rightarrow>
          (case data of
             Some d \<Rightarrow> Option.bind (set_presence (client_id h) i d (s_manager s))
               (\<lambda>m. Some (response_ok, s\<lparr>s_manager := m\<rparr>))
           | None \<Rightarrow> Some (Bulk (case l_to_vec L (JArray (map presence_json (get_presence (s_manager s) i))) of
                 Some b \<Rightarrow> b | None \<Rightarrow> []), s)))"

definition CARGO_PKG_VERSION :: string where
  "CARGO_PKG_VERSION = ''1.0.1''"

definition handle_info :: "'y libs \<Rightarrow> handler \<Rightarrow> 'y server \<Rightarrow> response" where
  "handle_info L h s =
     (let st = stats (s_manager s);
          info = JObject [(''version'', JString CARGO_PKG_VERSION),
            (''documents'', JNumber (l_usize L (document_count st))),
            (''subscribers'', JNumber (l_usize L (subscriber_count st))),
            (''client_id'', JString (client_id h)),
            (''subscriptions'', JArray (map JString (subscriptions h)))]
      in Bulk (case l_to_vec L info of Some b \<Rightarrow> b | None \<Rightarrow> []))"

definition handle_keys :: "string option \<Rightarrow> 'y server \<Rightarrow> response" where
  "handle_keys pattern s = Array (map (\<lambda>m. Bulk (id_str (meta_id m))) (manager_list (s_manager s) pattern))"

definition handle_compact :: "'y libs \<Rightarrow> string option \<Rightarrow> 'y server \<Rightarrow> response \<times> 'y server" where
  "handle_compact L doc_id s =
     (case checked_id doc_id of
        Inl r \<Rightarrow> (r, s)
      | Inr i \<Rightarrow>
          (case manager_get (s_manager s) i of
             Inr d \<Rightarrow>
               (case compact (l_yrs L) d of
                  (Inr bytes_saved, d1) \<Rightarrow>
                    (Integer (word_of_nat bytes_saved), s\<lparr>s_manager := manager_put i d1 (s_manager s)\<rparr>)
                | (Inl e, d1) \<Rightarrow>
                    (response_error ''COMPACT_ERROR'' (error_msg e), s\<lparr>s_manager := manager_put i d1 (s_manager s)\<rparr>))
           | Inl _ \<Rightarrow> (not_found (id_str i), s)))"

definition handle_expire :: "string option \<Rightarrow> u64 \<Rightarrow> 'y server \<Rightarrow> response \<times> 'y server" where
  "handle_expire doc_id ttl_ms s =
     (case checked_id doc_id of
        Inl r \<Rightarrow> (r, s)
      | Inr i \<Rightarrow>
          let t = (if ttl_ms = 0 then None else Some ttl_ms)
          in (case set_expire (s_manager s) i t of
                (Inr _, m) \<Rightarrow> (response_ok, s\<lparr>s_manager := m\<rparr>)
              | (Inl e, m) \<Rightarrow> (response_error ''EXPIRE_ERROR'' (error_msg e), s\<lparr>s_manager := m\<rparr>)))"

definition handle_ttl :: "clocks \<Rightarrow> string option \<Rightarrow> 'y server \<Rightarrow> response" where
  "handle_ttl ck doc_id s =
     (case checked_id doc_id of
        Inl r \<Rightarrow> r
      | Inr i \<Rightarrow>
          (case manager_ttl (c_update ck) (s_manager s) i of
             Inr (Some remaining) \<Rightarrow> if sint remaining < 0 then Integer (-2) else Integer remaining
           | Inr None \<Rightarrow> Integer (-1)
           | Inl _ \<Rightarrow> not_found (id_str i)))"

definition handle_backup :: "'y libs \<Rightarrow> clocks \<Rightarrow> 'y server \<Rightarrow> response" where
  "handle_backup L ck s =
     (case l_backup_to_vec L (backup (l_yrs L) (c_secs ck) (c_scan ck) (s_manager s)) of
        Inr j \<Rightarrow> Bulk j
      | Inl e \<Rightarrow> response_error ''BACKUP_ERROR'' e)"

definition persist_restored :: "'y yrs \<Rightarrow> handler \<Rightarrow> document_backup \<Rightarrow> 'y server \<Rightarrow> 'y server" where
  "persist_restored y h b s =
     (case document_id_new (backup_id b) of
        Inr i \<Rightarrow> (case manager_get (s_manager s) i of Inr d \<Rightarrow> persist_document y h i d s | Inl _ \<Rightarrow> s)
      | Inl _ \<Rightarrow> s)"

definition handle_restore :: "'y libs \<Rightarrow> clocks \<Rightarrow> handler \<Rightarrow> string \<Rightarrow> 'y server \<Rightarrow> response \<times> 'y server" where
  "handle_restore L ck h data s =
     (case l_backup_from_str L data of
        Inl e \<Rightarrow> (response_error ''INVALID_JSON'' e, s)
      | Inr b \<Rightarrow>
          (case restore (l_yrs L) (c_create ck) b (s_manager s) of
             (Inr n, m) \<Rightarrow>
               let s1 = s\<lparr>s_manager := m\<rparr>
               in (Integer (word_of_nat n),
                   if has_storage h then fold (persist_restored (l_yrs L) h) (backup_documents b) s1 else s1)
           | (Inl e, m) \<Rightarrow> (response_error ''RESTORE_ERROR'' (error_msg e), s\<lparr>s_manager := m\<rparr>)))"

subsection \<open>Dispatch\<close>

definition keep_handler :: "handler \<Rightarrow> (response \<times> 'y server) option \<Rightarrow> (response \<times> handler \<times> 'y server) option" where
  "keep_handler h r = Option.bind r (\<lambda>(resp, s). Some (resp, h, s))"

definition handle_authorized ::
  "'y libs \<Rightarrow> clocks \<Rightarrow> command \<Rightarrow> handler \<Rightarrow> 'y server \<Rightarrow> (response \<times> handler \<times> 'y server) option" where
  "handle_authorized L ck cmd h s =
     (case cmd_kind cmd of
        Create st t \<Rightarrow> keep_handler h (Some (handle_create L ck (cmd_document_id cmd) st t s))
      | Get path \<Rightarrow> keep_handler h (Option.bind (handle_get L (cmd_document_id cmd) path s) (\<lambda>r. Some (r, s)))
      | Set path x \<Rightarrow> keep_handler h (handle_set L ck h (cmd_document_id cmd) path x s)
      | Delete path \<Rightarrow> keep_handler h (handle_delete ck (cmd_document_id cmd) path s)
      | Subscribe pattern path \<Rightarrow> (case handle_subscribe h pattern path of (r, h') \<Rightarrow> Some (r, h', s))
      | Unsubscribe pattern \<Rightarrow> (case handle_unsubscribe h pattern of (r, h') \<Rightarrow> Some (r, h', s))
      | Push path x \<Rightarrow> keep_handler h (handle_push L ck h (cmd_document_id cmd) path x s)
      | Increment path delta \<Rightarrow> keep_handler h (handle_increment L ck h (cmd_document_id cmd) path delta s)
      | Presence data \<Rightarrow> keep_handler h (handle_presence L h (cmd_document_id cmd) data s)
      | Info \<Rightarrow> Some (handle_info L h s, h, s)
      | Keys pattern \<Rightarrow> Some (handle_keys pattern s, h, s)
      | Compact \<Rightarrow> keep_handler h (Some (handle_compact L (cmd_document_id cmd) s))
      | Expire ttl_ms \<Rightarrow> keep_handler h (Some (handle_expire (cmd_document_id cmd) ttl_ms s))
      | Ttl \<Rightarrow> Some (handle_ttl ck (cmd_document_id cmd) s, h, s)
      | Backup \<Rightarrow> Some (handle_backup L ck s, h, s)
      | Restore data \<Rightarrow> keep_handler h (Some (handle_restore L ck h data s))
      | Auth _ \<Rightarrow> None
      | Ping \<Rightarrow> None
      | Quit \<Rightarrow> None)"

definition handle_command ::
  "'y libs \<Rightarrow> clocks \<Rightarrow> command \<Rightarrow> handler \<Rightarrow> 'y server \<Rightarrow> (response \<times> handler \<times> 'y server) option" where
  "handle_command L ck cmd h s =
     (case cmd_kind cmd of
        Auth pwd \<Rightarrow> (case handle_auth h pwd of (r, h') \<Rightarrow> Some (r, h', s))
      | Ping \<Rightarrow> Some (Pong, h, s)
      | Quit \<Rightarrow> Some (ok_with_message ''Goodbye'', h, s)
      | _ \<Rightarrow>
          if require_auth h \<and> \<not> authenticated h
          then Some (response_error ''NOAUTH'' ''Authentication required. Use AUTH <password>'', h, s)
          else handle_authorized L ck cmd h s)"

subsection \<open>The processing loop\<close>

text \<open>
  One round of the loop: the limiter is asked unless the command is PING or QUIT, then the command
  is handled.
\<close>

definition limit_exempt :: "command \<Rightarrow> bool" where
  "limit_exempt cmd \<longleftrightarrow> cmd_kind cmd = Ping \<or> cmd_kind cmd = Quit"

definition ask_limiter :: "nat \<Rightarrow> command \<Rightarrow> handler \<Rightarrow> bool \<times> handler" where
  "ask_limiter now cmd h =
     (if limit_exempt cmd then (True, h)
      else (case limiter h of
              None \<Rightarrow> (True, h)
            | Some l \<Rightarrow> (case try_acquire now l of (ok, l') \<Rightarrow> (ok, h\<lparr>limiter := Some l'\<rparr>))))"

definition process_command ::
  "'y libs \<Rightarrow> clocks \<Rightarrow> command \<Rightarrow> handler \<Rightarrow> 'y server \<Rightarrow> (response \<times> handler \<times> 'y server) option" where
  "process_command L ck cmd h s =
     (case ask_limiter (c_instant ck) cmd h of
        (True, h') \<Rightarrow> handle_command L ck cmd h' s
      | (False, h') \<Rightarrow> Some (response_error ''RATE_LIMITED'' ''Too many requests. Please slow down.'', h', s))"

lemma keep_handler_Some [simp]: "keep_handler h r = Some (x, h', s') \<longleftrightarrow> h' = h \<and> r = Some (x, s')"
  by (cases r) (auto simp: keep_handler_def split: prod.splits)

lemma handle_authorized_handler:
  assumes "handle_authorized L ck cmd h s = Some (r, h', s')"
  shows "h' = h\<lparr>subscriptions := subscriptions h'\<rparr>"
  using assms
  by (cases "cmd_kind cmd") (auto simp: handle_authorized_def handle_subscribe_def handle_unsubscribe_def)

lemma handle_command_parser:
  assumes "handle_command L ck cmd h s = Some (r, h', s')"
  shows "h_parser h' = h_parser h"
proof (cases "\<exists>pwd. cmd_kind cmd = Auth pwd")
  case True
  with assms show ?thesis by (auto simp: handle_command_def handle_auth_def split: option.splits if_splits)
next
  case False
  have "h_parser h' = h_parser h" if "handle_authorized L ck cmd h s = Some (r, h', s')"
    using handle_authorized_handler [OF that] by (metis (no_types) handler.select_convs(2) handler.surjective handler.update_convs(3))
  with assms False show ?thesis by (auto simp: handle_command_def split: command_kind.splits if_splits)
qed

lemma process_command_parser:
  assumes "process_command L ck cmd h s = Some (r, h', s')"
  shows "h_parser h' = h_parser h"
proof -
  obtain ok h1 where a: "ask_limiter (c_instant ck) cmd h = (ok, h1)" by (cases "ask_limiter (c_instant ck) cmd h") auto
  then have "h_parser h1 = h_parser h" by (auto simp: ask_limiter_def split: if_splits option.splits prod.splits)
  with a assms show ?thesis
    by (auto simp: process_command_def dest!: handle_command_parser split: bool.splits)
qed

lemma parse_some_shrinks:
  "parse from_str p = (Inr (Some c), p') \<Longrightarrow> length (buffer p') < length (buffer p)"
  by (auto simp: parse_def Let_def dest: find_char_Some(1) split: option.splits sum.splits)

function process_loop ::
  "'y libs \<Rightarrow> (nat \<Rightarrow> clocks) \<Rightarrow> nat \<Rightarrow> handler \<Rightarrow> 'y server \<Rightarrow> (response list \<times> handler \<times> 'y server) option" where
  "process_loop L cks n h s =
     (case parse (l_from_str L) (h_parser h) of
        (Inr (Some cmd), p) \<Rightarrow>
          (case process_command L (cks n) cmd (h\<lparr>h_parser := p\<rparr>) s of
             None \<Rightarrow> None
           | Some (r, h', s') \<Rightarrow>
               (case process_loop L cks (Suc n) h' s' of
                  None \<Rightarrow> None
                | Some (rs, h'', s'') \<Rightarrow> Some (r # rs, h'', s'')))
      | (Inr None, p) \<Rightarrow> Some ([], h\<lparr>h_parser := p\<rparr>, s)
      | (Inl e, p) \<Rightarrow> Some ([response_error ''PARSE_ERROR'' (protocol_error_msg e)], h\<lparr>h_parser := p\<rparr>, s))"
  by pat_completeness auto
termination
  by (relation "measure (\<lambda>(L, cks, n, h, s). length (buffer (h_parser h)))")
     (auto dest!: process_command_parser parse_some_shrinks [OF sym])

declare process_loop.simps [simp del]

definition process ::
  "'y libs \<Rightarrow> (nat \<Rightarrow> clocks) \<Rightarrow> bytes \<Rightarrow> handler \<Rightarrow> 'y server \<Rightarrow> (response list \<times> handler \<times> 'y server) option" where
  "process L cks data h s =
     (case feed data (h_parser h) of
        (Inl e, p) \<Rightarrow> Some ([response_error ''PARSE_ERROR'' (protocol_error_msg e)], h\<lparr>h_parser := p\<rparr>, s)
      | (Inr _, p) \<Rightarrow> process_loop L cks 0 (h\<lparr>h_parser := p\<rparr>) s)"

subsection \<open>Subscriptions and the end of a connection\<close>

definition cleanup :: "handler \<Rightarrow> 'y server \<Rightarrow> 'y server" where
  "cleanup h s = s\<lparr>s_manager := remove_presence (client_id h) (s_manager s)\<rparr>"

definition subscribe_updates :: "'y server \<Rightarrow> 'y server" where
  "subscribe_updates s = s\<lparr>s_manager := subscribe (s_manager s)\<rparr>"

definition matches_subscription :: "handler \<Rightarrow> delta \<Rightarrow> bool" where
  "matches_subscription h dl =
     (let doc_id = id_str (delta_document_id dl)
      in list_ex (\<lambda>pattern.
           if pattern = ''*'' then True
           else case strip_suffix_char (CHR ''*'') pattern of
             Some p \<Rightarrow> prefix p doc_id
           | None \<Rightarrow> doc_id = pattern) (subscriptions h))"

end
