(* ===== verification/HandlerLaws.thy ===== *)
theory HandlerLaws imports ManagerLaws StorageLaws ResponseLaws RateLimitLaws Handler begin

section \<open>What the connection handler guarantees\<close>

text \<open>
  Whatever a connection sends reaches the document manager only through the manager's own
  operations, so its invariant holds for the whole server; a connection that has not
  authenticated changes nothing; and what the commands answer, publish and persist.
\<close>

subsection \<open>Commands are steps of the manager\<close>

abbreviation manager_steps :: "'y yrs \<Rightarrow> 'y manager \<Rightarrow> 'y manager \<Rightarrow> bool" where
  "manager_steps y \<equiv> (manager_step y)\<^sup>*\<^sup>*"

lemma dm_insert_twice: "dm_insert k v (dm_insert k w m) = dm_insert k v m"
  by (induction m) auto

lemma manager_put_twice [simp]: "manager_put i d (manager_put i d' m) = manager_put i d m"
  by (simp add: manager_put_def dm_insert_twice)

lemma manager_put_same: "manager_get m i = Inr d \<Longrightarrow> manager_put i d m = m"
  by (simp add: manager_put_def manager_get_Inr update_triv)

lemma manager_get_put [simp]:
  "manager_get (manager_put i d m) j = (if id_str j = id_str i then Inr d else manager_get m j)"
  by (simp add: manager_get_def manager_put_def)

lemma edit_steps:
  assumes "(doc_moves y)\<^sup>*\<^sup>* d d'" and "manager_get m i = Inr d"
  shows "manager_steps y m (manager_put i d' m)"
  using assms(1)
proof induction
  case base
  then show ?case using manager_put_same [OF assms(2)] by simp
next
  case (step d1 d2)
  from step(2) obtain now where "doc_step y now d1 d2" by (auto simp: doc_moves_def)
  then have "manager_step y (manager_put i d1 m) (manager_put i d2 (manager_put i d1 m))"
    by (intro manager_step.edit) simp_all
  with step(3) show ?case by simp
qed

lemma get_or_create_steps:
  assumes "document_id_new t = Inr i" and "manager_get_or_create y now m i st = (d, m')"
  shows "manager_steps y m m'" and "manager_get m' i = Inr d"
  using manager_step.get_or_create [OF assms] assms(2)
  by (auto simp: manager_get_or_create_def manager_get_def Let_def split: option.splits)

lemma compact_moves: "(doc_moves y)\<^sup>*\<^sup>* d (maybe_auto_compact y d)"
  by (auto simp: maybe_auto_compact_def doc_moves_def intro!: r_into_rtranclp doc_step.compact [OF surjective_pairing])

lemma checked_id_Inr: "checked_id doc_id = Inr i \<Longrightarrow> \<exists>t. doc_id = Some t \<and> document_id_new t = Inr i"
  by (auto simp: checked_id_def split: option.splits sum.splits)

text \<open>A document is fetched or created, then changed, and maybe compacted.\<close>

lemma change_steps:
  assumes "checked_id doc_id = Inr i" and "manager_get_or_create y now m i st = (d, m')"
    and "doc_step y now' d d1"
  shows "manager_steps y m (manager_put i d1 m')"
    and "manager_steps y m (manager_put i (maybe_auto_compact y d1) m')"
proof -
  obtain t where t: "document_id_new t = Inr i" using checked_id_Inr [OF assms(1)] by blast
  note g = get_or_create_steps [OF t assms(2)]
  have s: "(doc_moves y)\<^sup>*\<^sup>* d d1" using assms(3) by (intro r_into_rtranclp) (auto simp: doc_moves_def)
  show "manager_steps y m (manager_put i d1 m')"
    using g(1) edit_steps [OF s g(2)] by (rule rtranclp_trans)
  show "manager_steps y m (manager_put i (maybe_auto_compact y d1) m')"
    using g(1) edit_steps [OF rtranclp_trans [OF s compact_moves] g(2)] by (rule rtranclp_trans)
qed

lemma persist_manager [simp]: "s_manager (persist_document y h i d s) = s_manager s"
  by (simp add: persist_document_def)

lemma persist_restored_manager [simp]: "s_manager (persist_restored y h b s) = s_manager s"
  by (simp add: persist_restored_def split: sum.split)

lemma fold_persist_manager [simp]: "s_manager (fold (persist_restored y h) bs s) = s_manager s"
  by (induction bs arbitrary: s) simp_all

definition srv_steps :: "'y libs \<Rightarrow> 'y server \<Rightarrow> 'y server \<Rightarrow> bool" where
  "srv_steps L s s' \<longleftrightarrow> manager_steps (l_yrs L) (s_manager s) (s_manager s')"

lemma srv_steps_refl [simp]: "srv_steps L s s"
  by (simp add: srv_steps_def)

lemma srv_steps_trans: "srv_steps L s s' \<Longrightarrow> srv_steps L s' s'' \<Longrightarrow> srv_steps L s s''"
  unfolding srv_steps_def by (rule rtranclp_trans)

lemma srv_step: "manager_step (l_yrs L) (s_manager s) (s_manager s') \<Longrightarrow> srv_steps L s s'"
  by (auto simp: srv_steps_def)

lemma handle_create_steps:
  assumes "handle_create L ck doc_id st t s = (r, s')"
  shows "srv_steps L s s'"
proof (cases "checked_id doc_id")
  case (Inr i)
  obtain x m where m: "manager_create (l_yrs L) (c_create ck) (s_manager s) i st t = (x, m)" by fastforce
  obtain tx where "document_id_new tx = Inr i" using checked_id_Inr [OF Inr] by blast
  from manager_step.create [OF this m] have "srv_steps L s (s\<lparr>s_manager := m\<rparr>)" by (intro srv_step) simp
  with assms Inr m show ?thesis by (auto simp: handle_create_def split: sum.splits)
qed (use assms in \<open>simp add: handle_create_def\<close>)

lemma handle_set_steps:
  assumes "handle_set L ck h doc_id path x s = Some (r, s')"
  shows "srv_steps L s s'"
proof (cases "checked_id doc_id")
  case (Inr i)
  obtain d m where g: "manager_get_or_create (l_yrs L) (c_create ck) (s_manager s) i strategy_default = (d, m)" by fastforce
  obtain q d1 where q: "doc_set (l_yrs L) (c_update ck) d path x = Some (q, d1)"
    using assms Inr g by (auto simp: handle_set_def)
  note st = change_steps [OF Inr g doc_step.set [OF q]]
  show ?thesis
  proof (cases q)
    case (Inl e)
    then show ?thesis using assms Inr g q st by (auto simp: handle_set_def srv_steps_def)
  next
    case (Inr u)
    have "manager_steps (l_yrs L) m1 (publish_update dl m1)" for dl and m1 :: "'a manager"
      by (rule r_into_rtranclp, rule manager_step.publish)
    with st(2) have "manager_steps (l_yrs L) (s_manager s)
        (publish_update dl (manager_put i (maybe_auto_compact (l_yrs L) d1) m))" for dl
      by (rule rtranclp_trans)
    then show ?thesis using assms \<open>checked_id doc_id = Inr i\<close> Inr g q by (auto simp: handle_set_def srv_steps_def Let_def)
  qed
qed (use assms in \<open>simp add: handle_set_def\<close>)

lemma handle_push_steps:
  assumes "handle_push L ck h doc_id path x s = Some (r, s')"
  shows "srv_steps L s s'"
proof (cases "checked_id doc_id")
  case (Inr i)
  obtain d m where g: "manager_get_or_create (l_yrs L) (c_create ck) (s_manager s) i strategy_default = (d, m)" by fastforce
  obtain q d1 where q: "doc_push (c_update ck) d path x = Some (q, d1)"
    using assms Inr g by (auto simp: handle_push_def)
  note st = change_steps [OF Inr g doc_step.push [OF q]]
  show ?thesis
    using assms Inr g q st by (cases q) (auto simp: handle_push_def srv_steps_def Let_def)
qed (use assms in \<open>simp add: handle_push_def\<close>)

lemma handle_increment_steps:
  assumes "handle_increment L ck h doc_id path n s = Some (r, s')"
  shows "srv_steps L s s'"
proof (cases "checked_id doc_id")
  case (Inr i)
  obtain d m where g: "manager_get_or_create (l_yrs L) (c_create ck) (s_manager s) i CrdtCounter = (d, m)" by fastforce
  obtain q d1 where q: "doc_increment (c_update ck) d path n = Some (q, d1)"
    using assms Inr g by (auto simp: handle_increment_def)
  note st = change_steps [OF Inr g doc_step.increment [OF q]]
  show ?thesis
    using assms Inr g q st by (cases q) (auto simp: handle_increment_def srv_steps_def Let_def)
qed (use assms in \<open>simp add: handle_increment_def\<close>)

lemma handle_delete_steps:
  assumes "handle_delete ck doc_id path s = Some (r, s')"
  shows "srv_steps L s s'"
proof (cases "checked_id doc_id")
  case (Inr i)
  show ?thesis
  proof (cases path)
    case None
    obtain x m where m: "manager_delete (s_manager s) i = (x, m)" by fastforce
    have "srv_steps L s (s\<lparr>s_manager := m\<rparr>)" using manager_step.delete [OF m] by (intro srv_step) simp
    with assms Inr m None show ?thesis by (auto simp: handle_delete_def split: sum.splits)
  next
    case (Some p)
    show ?thesis
    proof (cases "manager_get (s_manager s) i")
      case (Inl e)
      with assms \<open>checked_id doc_id = Inr i\<close> Some show ?thesis by (auto simp: handle_delete_def)
    next
      case d: (Inr d)
      then obtain q d1 where q: "doc_delete (c_update ck) d (Some p) = Some (q, d1)"
        using assms \<open>checked_id doc_id = Inr i\<close> Some by (auto simp: handle_delete_def)
      have "srv_steps L s (s\<lparr>s_manager := manager_put i d1 (s_manager s)\<rparr>)"
        using manager_step.edit [OF d doc_step.delete [OF q]] by (intro srv_step) simp
      with assms \<open>checked_id doc_id = Inr i\<close> Some d q show ?thesis by (auto simp: handle_delete_def)
    qed
  qed
qed (use assms in \<open>simp add: handle_delete_def\<close>)

lemma handle_presence_steps:
  assumes "handle_presence L h doc_id data s = Some (r, s')"
  shows "srv_steps L s s'"
proof (cases "checked_id doc_id")
  case (Inr i)
  obtain t where t: "document_id_new t = Inr i" using checked_id_Inr [OF Inr] by blast
  show ?thesis
  proof (cases data)
    case None
    with assms Inr show ?thesis by (auto simp: handle_presence_def)
  next
    case (Some d)
    then obtain m where m: "set_presence (client_id h) i d (s_manager s) = Some m" "s' = s\<lparr>s_manager := m\<rparr>"
      using assms Inr by (auto simp: handle_presence_def)
    from manager_step.set_presence [OF t m(1)] show ?thesis by (intro srv_step) (simp add: m(2))
  qed
qed (use assms in \<open>simp add: handle_presence_def\<close>)

lemma handle_compact_steps:
  assumes "handle_compact L doc_id s = (r, s')"
  shows "srv_steps L s s'"
proof (cases "checked_id doc_id")
  case (Inr i)
  show ?thesis
  proof (cases "manager_get (s_manager s) i")
    case (Inl e)
    with assms Inr show ?thesis by (auto simp: handle_compact_def)
  next
    case d: (Inr d)
    obtain q d1 where q: "compact (l_yrs L) d = (q, d1)" by fastforce
    have "srv_steps L s (s\<lparr>s_manager := manager_put i d1 (s_manager s)\<rparr>)"
      using manager_step.edit [OF d doc_step.compact [OF q]] by (intro srv_step) simp
    with assms \<open>checked_id doc_id = Inr i\<close> d q show ?thesis by (auto simp: handle_compact_def split: sum.splits)
  qed
qed (use assms in \<open>simp add: handle_compact_def\<close>)

lemma handle_expire_steps:
  assumes "handle_expire doc_id ttl_ms s = (r, s')"
  shows "srv_steps L s s'"
proof (cases "checked_id doc_id")
  case (Inr i)
  obtain x m where m: "set_expire (s_manager s) i (if ttl_ms = 0 then None else Some ttl_ms) = (x, m)" by fastforce
  have "srv_steps L s (s\<lparr>s_manager := m\<rparr>)" using manager_step.expire [OF m] by (intro srv_step) simp
  with assms Inr m show ?thesis by (auto simp: handle_expire_def Let_def split: sum.splits)
qed (use assms in \<open>simp add: handle_expire_def\<close>)

lemma handle_restore_steps:
  assumes "handle_restore L ck h data s = (r, s')"
  shows "srv_steps L s s'"
proof (cases "l_backup_from_str L data")
  case (Inr b)
  obtain x m where m: "restore (l_yrs L) (c_create ck) b (s_manager s) = (x, m)" by fastforce
  have "srv_steps L s (s\<lparr>s_manager := m\<rparr>)" using manager_step.restore [OF m] by (intro srv_step) simp
  with assms Inr m show ?thesis
    by (auto simp: handle_restore_def srv_steps_def Let_def split: sum.splits if_splits)
qed (use assms in \<open>simp add: handle_restore_def\<close>)

lemmas handle_steps = handle_create_steps handle_set_steps handle_push_steps handle_increment_steps
  handle_delete_steps handle_presence_steps handle_compact_steps handle_expire_steps handle_restore_steps

lemma handle_authorized_steps:
  assumes "handle_authorized L ck cmd h s = Some (r, h', s')"
  shows "srv_steps L s s'"
  using assms
  by (cases "cmd_kind cmd") (auto simp: handle_authorized_def intro: handle_steps split: prod.splits)

lemma process_command_steps:
  assumes "process_command L ck cmd h s = Some (r, h', s')"
  shows "srv_steps L s s'"
  using assms
  by (auto simp: process_command_def handle_command_def dest: handle_authorized_steps
      split: prod.splits bool.splits command_kind.splits if_splits)

text \<open>A run of the loop that returns, as a derivation, for rule induction.\<close>

inductive process_run ::
  "'y libs \<Rightarrow> (nat \<Rightarrow> clocks) \<Rightarrow> nat \<Rightarrow> handler \<Rightarrow> 'y server \<Rightarrow> response list \<Rightarrow> handler \<Rightarrow> 'y server \<Rightarrow> bool"
  for L cks where
  incomplete: "parse (l_from_str L) (h_parser h) = (Inr None, p) \<Longrightarrow>
    process_run L cks n h s [] (h\<lparr>h_parser := p\<rparr>) s"
| error: "parse (l_from_str L) (h_parser h) = (Inl e, p) \<Longrightarrow>
    process_run L cks n h s [response_error ''PARSE_ERROR'' (protocol_error_msg e)] (h\<lparr>h_parser := p\<rparr>) s"
| command: "parse (l_from_str L) (h_parser h) = (Inr (Some cmd), p) \<Longrightarrow>
    process_command L (cks n) cmd (h\<lparr>h_parser := p\<rparr>) s = Some (r, h1, s1) \<Longrightarrow>
    process_run L cks (Suc n) h1 s1 rs h' s' \<Longrightarrow> process_run L cks n h s (r # rs) h' s'"

lemma process_loop_run: "process_loop L cks n h s = Some (rs, h', s') \<Longrightarrow> process_run L cks n h s rs h' s'"
proof (induction L cks n h s arbitrary: rs h' s' rule: process_loop.induct)
  case (1 L cks n h s)
  obtain x p where x: "parse (l_from_str L) (h_parser h) = (x, p)" by fastforce
  consider e where "x = Inl e" | "x = Inr None" | cmd where "x = Inr (Some cmd)"
    by (metis not_Some_eq old.sum.exhaust)
  then show ?case
  proof cases
    case 3
    then obtain r h1 s1 where p: "process_command L (cks n) cmd (h\<lparr>h_parser := p\<rparr>) s = Some (r, h1, s1)"
      using 1(2) x by (auto simp: process_loop.simps [of L cks n] split: option.splits)
    then obtain rs1 where "process_loop L cks (Suc n) h1 s1 = Some (rs1, h', s')" "rs = r # rs1"
      using 1(2) x 3 by (auto simp: process_loop.simps [of L cks n] split: option.splits)
    with 1(1) [OF x [symmetric] 3 refl p refl refl] x 3 p show ?thesis
      by (auto intro: process_run.command)
  qed (use 1(2) x in \<open>auto simp: process_loop.simps [of L cks n] intro: process_run.intros\<close>)
qed

lemma process_cases:
  assumes "process L cks data h s = Some (rs, h', s')"
  obtains (refused) e where "feed data (h_parser h) = (Inl e, h_parser h)" and "h' = h" and "s' = s"
      and "rs = [response_error ''PARSE_ERROR'' (protocol_error_msg e)]"
  | (run) p where "feed data (h_parser h) = (Inr (), p)"
      and "process_run L cks 0 (h\<lparr>h_parser := p\<rparr>) s rs h' s'"
proof (cases "feed data (h_parser h)")
  case (Pair x p)
  show ?thesis
  proof (cases x)
    case (Inl e)
    with Pair have "p = h_parser h" by (auto simp: feed_def split: if_splits)
    then have f: "feed data (h_parser h) = (Inl e, h_parser h)" using Inl Pair by simp
    have "h\<lparr>h_parser := h_parser h\<rparr> = h" by simp
    then have "h' = h" "s' = s" "rs = [response_error ''PARSE_ERROR'' (protocol_error_msg e)]"
      using assms unfolding process_def f by auto
    with f show ?thesis by (rule refused)
  next
    case (Inr u)
    then have f: "feed data (h_parser h) = (Inr (), p)" using Pair by simp
    then have "process_loop L cks 0 (h\<lparr>h_parser := p\<rparr>) s = Some (rs, h', s')"
      using assms by (simp add: process_def)
    from process_loop_run [OF this] f show ?thesis by (intro run)
  qed
qed

lemma process_run_steps: "process_run L cks n h s rs h' s' \<Longrightarrow> srv_steps L s s'"
  by (induction rule: process_run.induct) (auto intro: srv_steps_trans process_command_steps)

lemma process_steps: "process L cks data h s = Some (rs, h', s') \<Longrightarrow> srv_steps L s s'"
  by (erule process_cases) (simp_all add: process_run_steps)

text \<open>
  C1. Whatever bytes a connection sends, what they do to the document manager is a sequence of the
  manager's own operations, so in a server that started empty every document is stored once and
  under its own valid identifier.
\<close>

theorem process_refines_manager:
  assumes "process L cks data h s = Some (rs, h', s')"
  shows "(manager_step (l_yrs L))\<^sup>*\<^sup>* (s_manager s) (s_manager s') \<and>
    (manager_ok (s_manager s) \<longrightarrow> manager_ok (s_manager s'))"
  using process_steps [OF assms] unfolding srv_steps_def by (auto intro: mgr.run_inv)

text \<open>The line PING, with any libraries and any handler whose buffer is empty.\<close>

lemma parse_ping: "parse from_str \<lparr>buffer = ''PING'' @ LF # t\<rparr> = (Inr (Some cmd_ping), \<lparr>buffer = t\<rparr>)"
  using parse_render_command(1) [of from_str "\<lambda>j. []" "\<lambda>v. []" cmd_ping t]
  by (simp add: command_ok_def cmd_ping_def render_command_def)

lemma process_ping:
  assumes "buffer (h_parser h) = []"
  shows "process L cks (''PING'' @ [LF]) h s = Some ([Pong], h, s)"
proof -
  have p: "h_parser h = \<lparr>buffer = []\<rparr>" using assms by (cases "h_parser h") simp
  have f: "feed (''PING'' @ [LF]) (h_parser h) = (Inr (), \<lparr>buffer = ''PING'' @ [LF]\<rparr>)"
    by (simp add: p feed_def MAX_MESSAGE_SIZE_def)
  have c: "process_command L ck cmd_ping h s = Some (Pong, h, s)" for ck h
    by (simp add: process_command_def ask_limiter_def limit_exempt_def cmd_ping_def handle_command_def)
  have e: "process_loop L cks n (h\<lparr>h_parser := \<lparr>buffer = []\<rparr>\<rparr>) s = Some ([], h, s)" for n
    using parse_incomplete [of "\<lparr>buffer = []\<rparr>" "l_from_str L"] p
    by (subst process_loop.simps) simp
  show ?thesis
    unfolding process_def f using parse_ping [of "l_from_str L" "[]"] e c
    by (subst process_loop.simps) simp
qed

definition server_new :: "'y server" where
  "server_new = \<lparr>s_manager = manager_new, spawned = []\<rparr>"

text \<open>A concrete instance of the libraries for the witnesses: a JSON parser that knows one text.\<close>

definition demo_libs :: "string libs" where
  "demo_libs = \<lparr>l_yrs = string_yrs,
     l_from_str = (\<lambda>s. if s = ''true'' then Inr (JBool True) else Inl ''expected value''),
     l_to_vec = (\<lambda>j. Some []), l_usize = (\<lambda>n. JsonNumber (Some (word_of_nat n)) None),
     l_backup_to_vec = (\<lambda>b. Inl ''unsupported''), l_backup_from_str = (\<lambda>s. Inl ''unsupported'')\<rparr>"

definition demo_clocks :: clocks where
  "demo_clocks = \<lparr>c_create = 5, c_update = 6, c_scan = (\<lambda>k. 7), c_secs = 0, c_instant = 8\<rparr>"

lemma process_refines_manager_witness:
  "process demo_libs (\<lambda>_. demo_clocks) (''PING'' @ [LF]) (handler_new ''c'') \<lparr>s_manager = manager_new :: string manager, spawned = []\<rparr>
     = Some ([Pong], handler_new ''c'', \<lparr>s_manager = manager_new, spawned = []\<rparr>) \<and> manager_ok (manager_new :: string manager)"
proof -
  have p: "process demo_libs (\<lambda>_. demo_clocks) (''PING'' @ [LF]) (handler_new ''c'') \<lparr>s_manager = manager_new :: string manager, spawned = []\<rparr>
     = Some ([Pong], handler_new ''c'', \<lparr>s_manager = manager_new, spawned = []\<rparr>)"
    by (rule process_ping) (simp add: handler_new_def parser_new_def)
  from process_refines_manager [OF p] p show ?thesis by (simp add: manager_ok_new)
qed

subsection \<open>Authentication\<close>

definition locked :: "handler \<Rightarrow> bool" where
  "locked h \<longleftrightarrow> require_auth h \<and> \<not> authenticated h"

lemma handle_command_locked:
  assumes "locked h" and "handle_command L ck cmd h s = Some (r, h', s')"
  shows "s' = s \<and> subscriptions h' = subscriptions h \<and> require_auth h' = require_auth h \<and> password h' = password h \<and>
    (if \<exists>pwd. cmd_kind cmd = Auth pwd \<and> password h = Some pwd then authenticated h' \<and> r = Ok None
     else h' = h \<and> (limit_exempt cmd \<or> (\<exists>pwd. cmd_kind cmd = Auth pwd) \<or>
       r = Error ''NOAUTH'' ''Authentication required. Use AUTH <password>''))"
  using assms
  by (cases "cmd_kind cmd")
     (auto simp: handle_command_def locked_def handle_auth_def response_ok_def response_error_def limit_exempt_def
       split: option.splits if_splits)

text \<open>
  C2. Before a connection that needs a password has given it, every command but AUTH, PING and QUIT
  is answered with NOAUTH; no command at all changes the server or subscribes the connection; and
  only AUTH with exactly the server's password unlocks it.
\<close>

theorem locked_connection_is_inert:
  assumes "require_auth h" and "\<not> authenticated h" and "handle_command L ck cmd h s = Some (r, h', s')"
  shows "s' = s \<and> subscriptions h' = subscriptions h \<and>
    (authenticated h' \<longleftrightarrow> (\<exists>pwd. cmd_kind cmd = Auth pwd \<and> password h = Some pwd)) \<and>
    ((\<forall>pwd. cmd_kind cmd \<noteq> Auth pwd) \<and> cmd_kind cmd \<noteq> Ping \<and> cmd_kind cmd \<noteq> Quit \<longrightarrow>
       r = Error ''NOAUTH'' ''Authentication required. Use AUTH <password>'')"
  using handle_command_locked [OF _ assms(3)] assms(1,2)
  by (auto simp: locked_def limit_exempt_def split: if_splits)

lemma locked_connection_is_inert_witness:
  "handle_command demo_libs demo_clocks (cmd_set ''d'' ''x'' VNull) (handler_with_auth ''c'' ''secret'') server_new =
     Some (Error ''NOAUTH'' ''Authentication required. Use AUTH <password>'', handler_with_auth ''c'' ''secret'', server_new) \<and>
   \<not> authenticated (handler_with_auth ''c'' ''secret'')"
proof -
  have c: "handle_command demo_libs demo_clocks (cmd_set ''d'' ''x'' VNull) (handler_with_auth ''c'' ''secret'') server_new =
     Some (Error ''NOAUTH'' ''Authentication required. Use AUTH <password>'', handler_with_auth ''c'' ''secret'', server_new)"
    by (simp add: handle_command_def cmd_set_def handler_with_auth_def response_error_def)
  from locked_connection_is_inert [OF _ _ c] c show ?thesis
    by (simp add: handler_with_auth_def cmd_set_def)
qed

lemma ask_limiter_same:
  "ask_limiter now cmd h = (ok, h') \<Longrightarrow> h' = h\<lparr>limiter := limiter h'\<rparr>"
  by (auto simp: ask_limiter_def split: if_splits option.splits prod.splits)

lemma process_command_locked:
  assumes "locked h" and "process_command L ck cmd h s = Some (r, h', s')"
  shows "s' = s \<and> subscriptions h' = subscriptions h \<and> require_auth h' = require_auth h \<and> password h' = password h \<and>
    (authenticated h' \<longrightarrow> r = Ok None \<and> (\<exists>pwd. cmd_kind cmd = Auth pwd \<and> password h = Some pwd))"
proof -
  obtain ok h1 where a: "ask_limiter (c_instant ck) cmd h = (ok, h1)" by fastforce
  have h1: "h1 = h\<lparr>limiter := limiter h1\<rparr>" by (rule ask_limiter_same [OF a])
  then have same: "locked h1 = locked h" "subscriptions h1 = subscriptions h" "require_auth h1 = require_auth h"
      "password h1 = password h" "authenticated h1 = authenticated h"
    by (metis handler.surjective handler.update_convs(8) handler.select_convs locked_def)+
  show ?thesis
  proof (cases ok)
    case True
    with a assms(2) have "handle_command L ck cmd h1 s = Some (r, h', s')" by (simp add: process_command_def)
    from handle_command_locked [OF _ this] same assms(1) show ?thesis
      by (auto simp: locked_def split: if_splits)
  next
    case False
    with a assms(2) same assms(1) show ?thesis by (auto simp: process_command_def locked_def)
  qed
qed

lemma process_command_stays_open:
  assumes "process_command L ck cmd h s = Some (r, h', s')" and "authenticated h"
  shows "authenticated h'"
proof -
  obtain ok h1 where a: "ask_limiter (c_instant ck) cmd h = (ok, h1)" by fastforce
  have h1: "authenticated h1"
    using ask_limiter_same [OF a] assms(2) by (metis handler.select_convs(5) handler.surjective handler.update_convs(8))
  have "authenticated h'" if "handle_command L ck cmd h1 s = Some (r, h', s')"
  proof (cases "\<exists>pwd. cmd_kind cmd = Auth pwd")
    case True
    with that h1 show ?thesis by (auto simp: handle_command_def handle_auth_def split: option.splits if_splits)
  next
    case False
    have "authenticated h'" if "handle_authorized L ck cmd h1 s = Some (r, h', s')"
      using handle_authorized_handler [OF that] h1 by (metis handler.select_convs(5) handler.surjective handler.update_convs(3))
    with that False h1 show ?thesis by (auto simp: handle_command_def split: command_kind.splits if_splits)
  qed
  with assms(1) a h1 show ?thesis by (auto simp: process_command_def split: bool.splits)
qed

lemma process_run_stays_open: "process_run L cks n h s rs h' s' \<Longrightarrow> authenticated h \<Longrightarrow> authenticated h'"
  by (induction rule: process_run.induct) (auto dest: process_command_stays_open)

lemma process_run_locked:
  "process_run L cks n h s rs h' s' \<Longrightarrow> locked h \<Longrightarrow> \<not> authenticated h' \<Longrightarrow>
     s' = s \<and> subscriptions h' = subscriptions h \<and> locked h'"
proof (induction rule: process_run.induct)
  case (command h cmd p n s r h1 s1 rs h' s')
  have "locked (h\<lparr>h_parser := p\<rparr>)" using command.prems(1) by (simp add: locked_def)
  from process_command_locked [OF this command.hyps(2)]
  have c: "s1 = s" "subscriptions h1 = subscriptions h" "require_auth h1" 
    using command.prems(1) by (auto simp: locked_def)
  have "\<not> authenticated h1" using process_run_stays_open [OF command.hyps(3)] command.prems(2) by blast
  with c command.IH command.prems(2) show ?case by (simp add: locked_def)
qed (simp_all add: locked_def)

lemma process_locked:
  assumes "process L cks data h s = Some (rs, h', s')"
  shows "authenticated h \<Longrightarrow> authenticated h'"
    and "locked h \<Longrightarrow> \<not> authenticated h' \<Longrightarrow> s' = s \<and> subscriptions h' = subscriptions h \<and> locked h'"
proof -
  show "authenticated h'" if "authenticated h"
    using assms that by (cases rule: process_cases) (auto dest: process_run_stays_open)
  show "s' = s \<and> subscriptions h' = subscriptions h \<and> locked h'" if "locked h" and "\<not> authenticated h'"
    using assms
  proof (cases rule: process_cases)
    case (run p)
    have "locked (h\<lparr>h_parser := p\<rparr>)" using that(1) by (simp add: locked_def)
    from process_run_locked [OF run(2) this that(2)] show ?thesis by simp
  qed (use that in simp)
qed

text \<open>
  Whole inputs obey the same rule: however many bytes a locked connection sends, if it is still
  locked afterwards then nothing on the server has changed and it has no new subscription.
\<close>

theorem process_without_password:
  assumes "require_auth h" and "\<not> authenticated h"
    and "process L cks data h s = Some (rs, h', s')" and "\<not> authenticated h'"
  shows "s' = s \<and> subscriptions h' = subscriptions h"
  using process_locked(2) [OF assms(3)] assms(1,2,4) by (simp add: locked_def)

lemma process_without_password_witness:
  "\<exists>h'. process demo_libs (\<lambda>_. demo_clocks) (''PING'' @ [LF]) (handler_with_auth ''c'' ''secret'') server_new = Some ([Pong], h', server_new) \<and>
     subscriptions h' = []"
proof -
  have p: "process demo_libs (\<lambda>_. demo_clocks) (''PING'' @ [LF]) (handler_with_auth ''c'' ''secret'') server_new =
      Some ([Pong], handler_with_auth ''c'' ''secret'', server_new)"
    by (rule process_ping) (simp add: handler_with_auth_def parser_new_def)
  have "require_auth (handler_with_auth ''c'' ''secret'')" "\<not> authenticated (handler_with_auth ''c'' ''secret'')"
    by (simp_all add: handler_with_auth_def)
  from process_without_password [OF this p this(2)] p show ?thesis by (simp add: handler_with_auth_def)
qed

subsection \<open>Pipelines\<close>

text \<open>The commands of a pipeline, one after the other.\<close>

fun run_commands ::
  "'y libs \<Rightarrow> (nat \<Rightarrow> clocks) \<Rightarrow> nat \<Rightarrow> command list \<Rightarrow> handler \<Rightarrow> 'y server \<Rightarrow> (response list \<times> handler \<times> 'y server) option" where
  "run_commands L cks n [] h s = Some ([], h, s)"
| "run_commands L cks n (c # cs) h s =
     (case process_command L (cks n) c h s of
        None \<Rightarrow> None
      | Some (r, h', s') \<Rightarrow>
          (case run_commands L cks (Suc n) cs h' s' of
             None \<Rightarrow> None
           | Some (rs, h'', s'') \<Rightarrow> Some (r # rs, h'', s'')))"

lemma persist_any_parser [simp]: "persist_document y (h\<lparr>h_parser := p\<rparr>) = persist_document y h"
  by (intro ext) (simp add: persist_document_def)

lemma persist_restored_any_parser [simp]: "persist_restored y (h\<lparr>h_parser := p\<rparr>) = persist_restored y h"
  by (intro ext) (simp add: persist_restored_def cong: sum.case_cong)

lemma handle_any_parser [simp]:
  "handle_set L ck (h\<lparr>h_parser := p\<rparr>) = handle_set L ck h" "handle_push L ck (h\<lparr>h_parser := p\<rparr>) = handle_push L ck h"
  "handle_increment L ck (h\<lparr>h_parser := p\<rparr>) = handle_increment L ck h"
  "handle_presence L (h\<lparr>h_parser := p\<rparr>) = handle_presence L h" "handle_info L (h\<lparr>h_parser := p\<rparr>) = handle_info L h"
  "handle_restore L ck (h\<lparr>h_parser := p\<rparr>) = handle_restore L ck h"
  by (intro ext, simp add: handle_set_def handle_push_def handle_increment_def handle_presence_def handle_info_def
      handle_restore_def Let_def cong: sum.case_cong option.case_cong prod.case_cong if_cong)+

definition with_parser :: "parser \<Rightarrow> response \<times> handler \<times> 'y server \<Rightarrow> response \<times> handler \<times> 'y server" where
  "with_parser p = (\<lambda>(r, h, s). (r, h\<lparr>h_parser := p\<rparr>, s))"

lemma keep_handler_any_parser [simp]:
  "keep_handler (h\<lparr>h_parser := p\<rparr>) r = map_option (with_parser p) (keep_handler h r)"
  by (cases r) (auto simp: keep_handler_def with_parser_def)

lemma handle_authorized_any_parser:
  "handle_authorized L ck cmd (h\<lparr>h_parser := p\<rparr>) s = map_option (with_parser p) (handle_authorized L ck cmd h s)"
  by (cases "cmd_kind cmd")
     (auto simp: handle_authorized_def handle_subscribe_def handle_unsubscribe_def with_parser_def)

lemma handle_command_any_parser:
  "handle_command L ck cmd (h\<lparr>h_parser := p\<rparr>) s = map_option (with_parser p) (handle_command L ck cmd h s)"
  by (cases "cmd_kind cmd")
     (auto simp: handle_command_def handle_authorized_any_parser handle_auth_def with_parser_def split: option.split)

lemma process_command_any_parser:
  "process_command L ck cmd (h\<lparr>h_parser := p\<rparr>) s = map_option (with_parser p) (process_command L ck cmd h s)"
proof -
  obtain ok h1 where a: "ask_limiter (c_instant ck) cmd h = (ok, h1)" by fastforce
  then have "ask_limiter (c_instant ck) cmd (h\<lparr>h_parser := p\<rparr>) = (ok, h1\<lparr>h_parser := p\<rparr>)"
    by (auto simp: ask_limiter_def split: if_splits option.splits prod.splits)
  with a show ?thesis
    by (cases ok) (simp_all add: process_command_def handle_command_any_parser with_parser_def)
qed

lemma run_commands_any_parser:
  "run_commands L cks n cs (h\<lparr>h_parser := p\<rparr>) s =
     map_option (\<lambda>(rs, h', s'). (rs, h'\<lparr>h_parser := p\<rparr>, s')) (run_commands L cks n cs h s)"
proof (induction cs arbitrary: n h s)
  case (Cons c cs)
  then show ?case
    by (auto simp: process_command_any_parser with_parser_def split: option.split)
qed simp

text \<open>The line of a command, ended by carriage return and line feed or by a line feed alone.\<close>

definition render_line :: "bool \<Rightarrow> (json \<Rightarrow> string) \<Rightarrow> (val \<Rightarrow> string) \<Rightarrow> command \<Rightarrow> bytes" where
  "render_line e jtxt vtxt c = render_command jtxt vtxt c @ (if e then [CR, LF] else [LF])"

lemma process_loop_lines:
  assumes "\<forall>c\<in>set cs. command_ok (l_from_str L) jtxt vtxt c" and "LF \<notin> set b"
  shows "process_loop L cks n (h\<lparr>h_parser := \<lparr>buffer = concat (map (render_line e jtxt vtxt) cs) @ b\<rparr>\<rparr>) s =
    map_option (\<lambda>(rs, h', s'). (rs, h'\<lparr>h_parser := \<lparr>buffer = b\<rparr>\<rparr>, s')) (run_commands L cks n cs h s)"
  using assms(1)
proof (induction cs arbitrary: n h s)
  case Nil
  show ?case using assms(2) parse_incomplete [of "\<lparr>buffer = b\<rparr>" "l_from_str L"]
    by (subst process_loop.simps) simp
next
  case (Cons c cs)
  let ?later = "concat (map (render_line e jtxt vtxt) cs) @ b"
  have p: "parse (l_from_str L) \<lparr>buffer = concat (map (render_line e jtxt vtxt) (c # cs)) @ b\<rparr> =
      (Inr (Some c), \<lparr>buffer = ?later\<rparr>)"
    using parse_render_command [of "l_from_str L" jtxt vtxt c ?later] Cons.prems by (cases e) (simp_all add: render_line_def)
  show ?case
  proof (cases "process_command L (cks n) c h s")
    case None
    with p show ?thesis
      by (subst process_loop.simps) (simp add: process_command_any_parser)
  next
    case (Some r)
    then obtain x h1 s1 where x: "process_command L (cks n) c h s = Some (x, h1, s1)" by (cases r) auto
    have "process_loop L cks (Suc n) (h1\<lparr>h_parser := \<lparr>buffer = ?later\<rparr>\<rparr>) s1 =
        map_option (\<lambda>(rs, h', s'). (rs, h'\<lparr>h_parser := \<lparr>buffer = b\<rparr>\<rparr>, s')) (run_commands L cks (Suc n) cs h1 s1)"
      using Cons by simp
    with p x show ?thesis
      by (subst process_loop.simps)
         (cases "run_commands L cks (Suc n) cs h1 s1", auto simp: process_command_any_parser with_parser_def)
  qed
qed

lemmas process_loop_commands = process_loop_lines [where b = "[]", simplified]

text \<open>
  C21. Commands sent together are handled like commands sent one by one: a chunk of any number of
  well-formed command lines that fits the buffer is answered by exactly one response for each, in
  order, each command starting from the state its predecessor left. Lines end in carriage return and
  line feed, or in a line feed alone. QUIT is no exception: the
  commands after it in the same chunk are carried out.
\<close>

theorem pipeline_in_order:
  assumes "\<forall>c\<in>set cs. command_ok (l_from_str L) jtxt vtxt c" and "h_parser h = \<lparr>buffer = []\<rparr>"
    and "length (concat (map (render_line e jtxt vtxt) cs)) \<le> MAX_MESSAGE_SIZE"
  shows "process L cks (concat (map (render_line e jtxt vtxt) cs)) h s =
      map_option (\<lambda>(rs, h', s'). (rs, h'\<lparr>h_parser := \<lparr>buffer = []\<rparr>\<rparr>, s')) (run_commands L cks 0 cs h s)
    \<and> (\<forall>rs h' s'. run_commands L cks 0 cs h s = Some (rs, h', s') \<longrightarrow> length rs = length cs)"
proof -
  have len: "length rs = length cs" if "run_commands L cks n cs h s = Some (rs, h', s')" for cs n h s rs h' s'
    using that by (induction cs arbitrary: n h s rs) (auto split: option.splits prod.splits)
  have "feed (concat (map (render_line e jtxt vtxt) cs)) (h_parser h) =
      (Inr (), \<lparr>buffer = concat (map (render_line e jtxt vtxt) cs)\<rparr>)"
    using assms(2,3) by (simp add: feed_def)
  with process_loop_commands [OF assms(1), where cks = cks and n = 0 and h = h and s = s and e = e] show ?thesis
    by (auto simp: process_def len)
qed

lemma pipeline_in_order_witness:
  "process demo_libs (\<lambda>_. demo_clocks) (''QUIT'' @ [CR, LF] @ ''PING'' @ [CR, LF]) (handler_new ''c'') server_new =
     Some ([Ok (Some ''Goodbye''), Pong], handler_new ''c'', server_new)"
proof -
  let ?cs = "[cmd_quit, cmd_ping]" and ?j = "\<lambda>j. []" and ?v = "\<lambda>v. []"
  have ok: "\<forall>c\<in>set ?cs. command_ok (l_from_str demo_libs) ?j ?v c"
    by (simp add: command_ok_def cmd_quit_def cmd_ping_def)
  have b: "h_parser (handler_new ''c'') = \<lparr>buffer = []\<rparr>" by (simp add: handler_new_def parser_new_def)
  have r: "concat (map (render_line True ?j ?v) ?cs) = ''QUIT'' @ [CR, LF] @ ''PING'' @ [CR, LF]"
    by (simp add: render_line_def render_command_def cmd_quit_def cmd_ping_def)
  have "run_commands demo_libs (\<lambda>_. demo_clocks) 0 ?cs (handler_new ''c'') server_new = Some ([Ok (Some ''Goodbye''), Pong], handler_new ''c'', server_new)"
    by (simp add: process_command_def ask_limiter_def limit_exempt_def cmd_quit_def cmd_ping_def
        handle_command_def ok_with_message_def)
  moreover have "(handler_new ''c'')\<lparr>h_parser := \<lparr>buffer = []\<rparr>\<rparr> = handler_new ''c''"
    by (simp add: handler_new_def parser_new_def)
  ultimately show ?thesis
    using pipeline_in_order [OF ok b, where e = True and cks = "\<lambda>_. demo_clocks" and s = server_new] unfolding r by (simp add: MAX_MESSAGE_SIZE_def)
qed

text \<open>
  A line that does not parse ends the round: whatever complete commands follow it in the
  buffer are neither handled nor answered, and stay there until the client sends more.
\<close>

theorem parse_error_stalls_pipeline:
  assumes "LF \<notin> set bad" and "parse_line (l_from_str L) (from_utf8_lossy (strip_cr bad)) = Inl e"
    and "h_parser h = \<lparr>buffer = []\<rparr>" and "length (bad @ LF # later) \<le> MAX_MESSAGE_SIZE"
  shows "process L cks (bad @ LF # later) h s =
    Some ([Error ''PARSE_ERROR'' (protocol_error_msg e)], h\<lparr>h_parser := \<lparr>buffer = later\<rparr>\<rparr>, s)"
proof -
  have f: "feed (bad @ LF # later) (h_parser h) = (Inr (), \<lparr>buffer = bad @ LF # later\<rparr>)"
    using assms(3,4) by (simp add: feed_def)
  have "parse (l_from_str L) \<lparr>buffer = bad @ LF # later\<rparr> = (Inl e, \<lparr>buffer = later\<rparr>)"
    using parse_complete [of "\<lparr>buffer = bad @ LF # later\<rparr>" bad later] assms(1,2) by simp
  with f show ?thesis
    unfolding process_def f by (subst process_loop.simps) (simp add: response_error_def)
qed

lemma parse_error_stalls_pipeline_witness:
  "process demo_libs (\<lambda>_. demo_clocks) (''TTL'' @ LF # ''PING'' @ [LF]) (handler_new ''c'') server_new =
     Some ([Error ''PARSE_ERROR'' ''Missing argument: document_id''],
       (handler_new ''c'')\<lparr>h_parser := \<lparr>buffer = ''PING'' @ [LF]\<rparr>\<rparr>, server_new)"
proof -
  have "parse_line (l_from_str demo_libs) (from_utf8_lossy (strip_cr ''TTL'')) = Inl (MissingArgument ''document_id'')"
    by (simp add: parse_line_def trim_idle byte_def next_token_def skip_blanks_def regular_token_def find_char_def
        parse_ttl_def require_def strip_cr_def utf8_chunk_ascii)
  from parse_error_stalls_pipeline [OF _ this, of "handler_new ''c''" "''PING'' @ [LF]" "\<lambda>_. demo_clocks" server_new] show ?thesis
    by (simp add: handler_new_def parser_new_def MAX_MESSAGE_SIZE_def)
qed

subsection \<open>Reading, publishing and persisting what was set\<close>

lemma auto_compact_sel [simp]:
  "meta (maybe_auto_compact y d) = meta d" "lww_data (maybe_auto_compact y d) = lww_data d"
  using compact_cases [OF surjective_pairing, of y d] by (auto simp: maybe_auto_compact_def)

lemma compacted_any_value [simp]: "compacted y (d\<lparr>lww_data := v\<rparr>) = compacted y d"
  by (simp add: compacted_def encode_state_def)

lemma compact_any_value: "snd (compact y (d\<lparr>lww_data := v\<rparr>)) = (snd (compact y d))\<lparr>lww_data := v\<rparr>"
  by (simp add: compact_def Let_def split: sum.split)

lemma auto_compact_any_value:
  "maybe_auto_compact y (d\<lparr>lww_data := v\<rparr>) = (maybe_auto_compact y d)\<lparr>lww_data := v\<rparr>"
  by (simp add: maybe_auto_compact_def should_compact_def state_size_def encode_state_def compact_any_value)

lemma update_version_any_value: "update_version now (d\<lparr>lww_data := v\<rparr>) = (update_version now d)\<lparr>lww_data := v\<rparr>"
  by (simp add: update_version_def)

lemma publish_sel [simp]:
  "documents (publish_update dl m) = documents m" "receivers (publish_update dl m) = receivers m"
  "presence_of (publish_update dl m) = presence_of m"
  "sent (publish_update dl m) = (if receivers m = 0 then sent m else sent m @ [dl])"
  by (simp_all add: publish_update_def)

lemma manager_get_publish [simp]: "manager_get (publish_update dl m) i = manager_get m i"
  by (simp add: manager_get_def)

lemma manager_put_sel [simp]:
  "sent (manager_put i d m) = sent m" "receivers (manager_put i d m) = receivers m"
  by (simp_all add: manager_put_def)

lemma get_or_create_sel:
  assumes "manager_get_or_create y now m i st = (d, m')"
  shows "sent m' = sent m" and "receivers m' = receivers m"
    and "id_str j \<noteq> id_str i \<Longrightarrow> manager_get m' j = manager_get m j"
    and "d = (case manager_get m i of Inr d \<Rightarrow> d | Inl _ \<Rightarrow> document_new y now i st)"
  using assms
  by (auto simp: manager_get_or_create_def manager_get_def Let_def split: option.splits)

lemma checked_id_Some: "document_id_new t = Inr i \<Longrightarrow> checked_id (Some t) = Inr i"
  by (simp add: checked_id_def)

lemma doc_set_value:
  "doc_strategy d \<noteq> CrdtText \<Longrightarrow> doc_set y now d path x =
     Option.bind (set_path (lww_data d) path x) (\<lambda>v. Some (Inr (), (update_version now d)\<lparr>lww_data := v\<rparr>))"
  by (simp add: doc_set_def update_version_any_value split: strategy.split)

text \<open>The whole of a SET on a document that is not text.\<close>

lemma handle_set_value:
  assumes "document_id_new t = Inr i" and "handle_set L ck h (Some t) path x s = Some (r, s')"
    and "manager_get_or_create (l_yrs L) (c_create ck) (s_manager s) i Lww = (d, m)"
    and "doc_strategy d \<noteq> CrdtText"
  shows "\<exists>v d2. set_path (lww_data d) path x = Some v \<and> r = Ok None \<and>
    d2 = maybe_auto_compact (l_yrs L) (update_version (c_update ck) d) \<and>
    s' = (persist_document (l_yrs L) h i d2 s)\<lparr>s_manager := publish_update
      \<lparr>delta_document_id = i, delta_version = doc_version d2, delta_path = Some path,
       delta_data = encode_state (l_yrs L) d2\<rparr> (manager_put i (d2\<lparr>lww_data := v\<rparr>) m)\<rparr>"
proof -
  obtain v where v: "set_path (lww_data d) path x = Some v"
    using assms by (auto simp: handle_set_def checked_id_Some strategy_default_def doc_set_value)
  with assms show ?thesis
    by (auto simp: handle_set_def checked_id_Some strategy_default_def doc_set_value auto_compact_any_value
        persist_document_def encode_state_def Let_def response_ok_def)
qed

text \<open>
  C25. What SET stores, GET returns: after a successful SET on a document that is not text, counter or set,
  a GET of the same path answers the value that was set (the path being empty or having a segment),
  and every other document is as it was.
\<close>

theorem set_then_get_reply:
  assumes "document_id_new t = Inr i" and "handle_set L ck h (Some t) path x s = Some (r, s')"
    and "case manager_get (s_manager s) i of Inr d \<Rightarrow> doc_strategy d \<in> {Lww, CrdtMap} | Inl _ \<Rightarrow> True"
    and "path = [] \<or> path_collect path \<noteq> Some []"
  shows "r = Ok None \<and> handle_get L (Some t) (Some path) s' = Some (Value x) \<and>
    (\<forall>j. id_str j \<noteq> id_str i \<longrightarrow> manager_get (s_manager s') j = manager_get (s_manager s) j)"
proof -
  obtain d m where g: "manager_get_or_create (l_yrs L) (c_create ck) (s_manager s) i Lww = (d, m)" by fastforce
  note gs = get_or_create_sel [OF g]
  have st: "doc_strategy d \<in> {Lww, CrdtMap}"
    using assms(3) gs(4) by (auto split: sum.splits)
  then have "doc_strategy d \<noteq> CrdtText" by auto
  from handle_set_value [OF assms(1,2) g this] obtain v d2 where
    v: "set_path (lww_data d) path x = Some v" and r: "r = Ok None" and
    d2: "d2 = maybe_auto_compact (l_yrs L) (update_version (c_update ck) d)" and
    s': "s' = (persist_document (l_yrs L) h i d2 s)\<lparr>s_manager := publish_update
      \<lparr>delta_document_id = i, delta_version = doc_version d2, delta_path = Some path,
       delta_data = encode_state (l_yrs L) d2\<rparr> (manager_put i (d2\<lparr>lww_data := v\<rparr>) m)\<rparr>"
    by blast
  have "manager_get (s_manager s') i = Inr (d2\<lparr>lww_data := v\<rparr>)" by (simp add: s')
  moreover have "doc_strategy d2 \<in> {Lww, CrdtMap}" using st by (simp add: d2)
  moreover have "get_path v path = Some (Some x)" using no_segments_iff [OF assms(4) v] .
  ultimately have "handle_get L (Some t) (Some path) s' = Some (Value x)"
    using assms(1) by (auto simp: handle_get_def checked_id_Some doc_get_def)
  with r gs(3) show ?thesis by (simp add: s')
qed

text \<open>
  C36. The value of a SET on a document that is not text leaves the process nowhere: whatever is
  set, subscribers are sent the same update and storage is given the same bytes. Neither can learn
  or restore the value.
\<close>

theorem set_value_never_leaves:
  assumes "document_id_new t = Inr i"
    and "case manager_get (s_manager s) i of Inr d \<Rightarrow> doc_strategy d \<noteq> CrdtText | Inl _ \<Rightarrow> True"
    and "handle_set L ck h (Some t) path x s = Some (r, s1)"
    and "handle_set L ck h (Some t) path x' s = Some (r', s2)"
  shows "sent (s_manager s1) = sent (s_manager s2) \<and> spawned s1 = spawned s2"
proof -
  obtain d m where g: "manager_get_or_create (l_yrs L) (c_create ck) (s_manager s) i Lww = (d, m)" by fastforce
  have "doc_strategy d \<noteq> CrdtText"
    using assms(2) get_or_create_sel(4) [OF g] by (auto split: sum.splits)
  from handle_set_value [OF assms(1,3) g this] handle_set_value [OF assms(1,4) g this]
  show ?thesis by (auto simp: persist_document_def)
qed

lemma id_d: "document_id_new ''d'' = Inr (DocumentId ''d'')"
  by (simp add: document_id_new_def id_char_def byte_def)

lemma server_new_get [simp]: "manager_get (s_manager server_new) i = Inl (DocumentNotFound (id_str i))"
  by (simp add: server_new_def manager_new_def manager_get_def)

lemma set_root: "\<exists>s'. handle_set L ck h (Some ''d'') [] x server_new = Some (Ok None, s')"
  by (simp add: handle_set_def checked_id_Some [OF id_d] manager_get_or_create_def server_new_def manager_new_def
      strategy_default_def doc_set_def set_path_def Let_def response_ok_def)

lemma set_then_get_reply_witness:
  "\<exists>s'. handle_set demo_libs demo_clocks (handler_new ''c'') (Some ''d'') [] (VBool True) (server_new :: string server) = Some (Ok None, s') \<and>
     handle_get demo_libs (Some ''d'') (Some []) s' = Some (Value (VBool True))"
proof -
  obtain s' where s': "handle_set demo_libs demo_clocks (handler_new ''c'') (Some ''d'') [] (VBool True) (server_new :: string server) = Some (Ok None, s')"
    using set_root by blast
  from set_then_get_reply [OF id_d s'] s' show ?thesis by auto
qed

lemma set_value_never_leaves_witness:
  "\<exists>s1 s2. handle_set demo_libs demo_clocks (handler_new ''c'') (Some ''d'') [] VNull (server_new :: string server) = Some (Ok None, s1) \<and>
     handle_set demo_libs demo_clocks (handler_new ''c'') (Some ''d'') [] (VBool True) server_new = Some (Ok None, s2) \<and> spawned s1 = spawned s2"
proof -
  obtain s1 where s1: "handle_set demo_libs demo_clocks (handler_new ''c'') (Some ''d'') [] VNull (server_new :: string server) = Some (Ok None, s1)"
    using set_root by blast
  obtain s2 where s2: "handle_set demo_libs demo_clocks (handler_new ''c'') (Some ''d'') [] (VBool True) (server_new :: string server) = Some (Ok None, s2)"
    using set_root by blast
  have "spawned s1 = spawned s2" using set_value_never_leaves [OF id_d _ s1 s2] by simp
  with s1 s2 show ?thesis by blast
qed

end
