(* ===== verification/HandlerFrame.thy ===== *)
theory HandlerFrame imports HandlerLaws begin

section \<open>What a command leaves alone\<close>

text \<open>
  Besides the documents the manager holds the updates sent, the number of receivers and the
  presence lists. Most commands touch the documents only; the facts here say which command touches
  what, for single commands and for whole inputs.
\<close>

definition same_rest :: "'y manager \<Rightarrow> 'y manager \<Rightarrow> bool" where
  "same_rest m m' \<longleftrightarrow> sent m' = sent m \<and> receivers m' = receivers m \<and> presence_of m' = presence_of m"

lemma same_rest_refl [simp]: "same_rest m m"
  by (simp add: same_rest_def)

lemma same_rest_trans: "same_rest m m' \<Longrightarrow> same_rest m' m'' \<Longrightarrow> same_rest m m''"
  by (simp add: same_rest_def)

lemma same_rest_put [simp]: "same_rest m (manager_put i d m') = same_rest m m'"
  by (simp add: same_rest_def manager_put_def)

lemma manager_put_presence [simp]: "presence_of (manager_put i d m) = presence_of m"
  by (simp add: manager_put_def)

lemma get_or_create_rest: "manager_get_or_create y now m i st = (d, m') \<Longrightarrow> same_rest m m'"
  by (auto simp: manager_get_or_create_def same_rest_def Let_def split: option.splits)

lemma create_rest: "manager_create y now m i st t = (r, m') \<Longrightarrow> same_rest m m'"
  by (auto simp: manager_create_def same_rest_def Let_def split: if_splits option.splits)

lemma delete_rest: "manager_delete m i = (r, m') \<Longrightarrow> same_rest m m'"
  by (auto simp: manager_delete_def same_rest_def split: option.splits)

lemma expire_rest: "set_expire m i t = (r, m') \<Longrightarrow> same_rest m m'"
  by (auto simp: set_expire_def split: sum.splits)

lemma restore_loop_rest: "restore_loop y now bs n m = (r, m') \<Longrightarrow> same_rest m m'"
proof (induction bs arbitrary: n m)
  case (Cons b bs)
  show ?case
  proof (cases "restored_document y now b")
    case (Inr d)
    with Cons.prems have "restore_loop y now bs (Suc n) (m\<lparr>documents := dm_insert (backup_id b) d (documents m)\<rparr>) = (r, m')"
      by simp
    from Cons.IH [OF this] show ?thesis by (simp add: same_rest_def)
  qed (use Cons.prems in simp)
qed simp

lemmas manager_rest = get_or_create_rest create_rest delete_rest expire_rest restore_loop_rest

text \<open>A command that changes documents only, and one that hands nothing to the storage.\<close>

definition quiet :: "'y server \<Rightarrow> 'y server \<Rightarrow> bool" where
  "quiet s s' \<longleftrightarrow> same_rest (s_manager s) (s_manager s')"

definition unspawned :: "'y server \<Rightarrow> 'y server \<Rightarrow> bool" where
  "unspawned s s' \<longleftrightarrow> spawned s' = spawned s"

lemma quiet_refl [simp]: "quiet s s" "unspawned s s"
  by (simp_all add: quiet_def unspawned_def)

lemma handle_create_quiet: "handle_create L ck i st t s = (r, s') \<Longrightarrow> quiet s s' \<and> unspawned s s'"
  by (auto simp: handle_create_def quiet_def unspawned_def dest!: create_rest split: sum.splits prod.splits)

lemma handle_compact_quiet: "handle_compact L i s = (r, s') \<Longrightarrow> quiet s s' \<and> unspawned s s'"
  by (auto simp: handle_compact_def quiet_def unspawned_def split: sum.splits prod.splits)

lemma handle_expire_quiet: "handle_expire i t s = (r, s') \<Longrightarrow> quiet s s' \<and> unspawned s s'"
  by (auto simp: handle_expire_def quiet_def unspawned_def Let_def dest!: expire_rest split: sum.splits prod.splits)

lemma handle_restore_quiet: "handle_restore L ck h d s = (r, s') \<Longrightarrow> quiet s s'"
  by (auto simp: handle_restore_def quiet_def restore_def Let_def dest!: restore_loop_rest
      split: sum.splits prod.splits if_splits)

lemma handle_delete_quiet:
  assumes "handle_delete ck doc_id p s = Some (r, s')"
  shows "quiet s s' \<and> unspawned s s'"
proof (cases "checked_id doc_id")
  case (Inr i)
  note id = this
  show ?thesis
  proof (cases p)
    case None
    obtain x m where "manager_delete (s_manager s) i = (x, m)" by fastforce
    with assms id None delete_rest [OF this] show ?thesis
      by (cases x) (auto simp: handle_delete_def quiet_def unspawned_def)
  next
    case (Some q)
    show ?thesis
    proof (cases "manager_get (s_manager s) i")
      case (Inr d)
      with assms id Some obtain x d1 where "doc_delete (c_update ck) d (Some q) = Some (x, d1)"
        by (auto simp: handle_delete_def)
      with assms id Some Inr show ?thesis by (auto simp: handle_delete_def quiet_def unspawned_def)
    qed (use assms id Some in \<open>simp add: handle_delete_def\<close>)
  qed
qed (use assms in \<open>simp add: handle_delete_def\<close>)

lemma handle_push_quiet:
  assumes "handle_push L ck h doc_id p x s = Some (r, s')"
  shows "quiet s s'"
proof (cases "checked_id doc_id")
  case (Inr i)
  obtain d m where g: "manager_get_or_create (l_yrs L) (c_create ck) (s_manager s) i strategy_default = (d, m)" by fastforce
  obtain q d1 where "doc_push (c_update ck) d p x = Some (q, d1)"
    using assms Inr g by (auto simp: handle_push_def)
  with assms Inr g get_or_create_rest [OF g] show ?thesis
    by (cases q) (auto simp: handle_push_def quiet_def Let_def)
qed (use assms in \<open>simp add: handle_push_def\<close>)

lemma handle_increment_quiet:
  assumes "handle_increment L ck h doc_id p n s = Some (r, s')"
  shows "quiet s s'"
proof (cases "checked_id doc_id")
  case (Inr i)
  obtain d m where g: "manager_get_or_create (l_yrs L) (c_create ck) (s_manager s) i CrdtCounter = (d, m)" by fastforce
  obtain q d1 where "doc_increment (c_update ck) d p n = Some (q, d1)"
    using assms Inr g by (auto simp: handle_increment_def)
  with assms Inr g get_or_create_rest [OF g] show ?thesis
    by (cases q) (auto simp: handle_increment_def quiet_def Let_def)
qed (use assms in \<open>simp add: handle_increment_def\<close>)

lemma handle_set_rest:
  assumes "handle_set L ck h doc_id p x s = Some (r, s')"
  shows "receivers (s_manager s') = receivers (s_manager s) \<and> presence_of (s_manager s') = presence_of (s_manager s)"
proof (cases "checked_id doc_id")
  case (Inr i)
  obtain d m where g: "manager_get_or_create (l_yrs L) (c_create ck) (s_manager s) i strategy_default = (d, m)" by fastforce
  obtain q d1 where "doc_set (l_yrs L) (c_update ck) d p x = Some (q, d1)"
    using assms Inr g by (auto simp: handle_set_def)
  with assms Inr g get_or_create_rest [OF g] show ?thesis
    by (cases q) (auto simp: handle_set_def same_rest_def Let_def)
qed (use assms in \<open>simp add: handle_set_def\<close>)

definition clients_in :: "presence list dashmap \<Rightarrow> string set" where
  "clients_in l = (\<Union>(k, ps)\<in>set l. presence_client ` set ps)"

definition presence_clients :: "'y manager \<Rightarrow> string set" where
  "presence_clients m = clients_in (presence_of m)"

lemma clients_in_insert: "clients_in (dm_insert k ps l) \<subseteq> presence_client ` set ps \<union> clients_in l"
  by (induction l) (auto simp: clients_in_def)

lemma clients_in_get: "dm_get l k = Some ps \<Longrightarrow> presence_client ` set ps \<subseteq> clients_in l"
  by (induction l) (auto simp: clients_in_def split: if_splits)

lemma get_presence_clients: "presence_client ` set (get_presence m i) \<subseteq> presence_clients m"
  by (cases "dm_get (presence_of m) (id_str i)")
     (simp_all add: get_presence_def presence_clients_def clients_in_get)

lemma set_presence_clients:
  assumes "set_presence cid i d m = Some m'"
  shows "presence_clients m' \<subseteq> insert cid (presence_clients m)"
proof -
  let ?old = "filter (\<lambda>p. presence_client p \<noteq> cid) (get_presence m i)"
  have old: "presence_client ` set ?old \<subseteq> presence_clients m" using get_presence_clients [of m i] by auto
  have r: "presence_of (presence_retain cid i m) = dm_insert (id_str i) ?old (presence_of m)"
    by (simp add: presence_retain_def get_presence_def Let_def)
  then have "presence_clients m' = clients_in (dm_insert (id_str i)
      (?old @ [\<lparr>presence_client = cid, presence_document = i, presence_data = d\<rparr>]) (dm_insert (id_str i) ?old (presence_of m)))"
    using assms by (auto simp: set_presence_eq presence_clients_def)
  also have "\<dots> \<subseteq> insert cid (presence_client ` set ?old \<union> clients_in (dm_insert (id_str i) ?old (presence_of m)))"
    by (rule order_trans [OF clients_in_insert]) auto
  also have "\<dots> \<subseteq> insert cid (presence_clients m)"
    using old order_trans [OF clients_in_insert Un_least, of ?old "presence_clients m" "presence_of m" "id_str i"]
    by (simp only: presence_clients_def) blast
  finally show ?thesis .
qed

lemma handle_presence_rest:
  assumes "handle_presence L h i d s = Some (r, s')"
  shows "unspawned s s' \<and> sent (s_manager s') = sent (s_manager s) \<and>
    receivers (s_manager s') = receivers (s_manager s) \<and>
    presence_clients (s_manager s') \<subseteq> insert (client_id h) (presence_clients (s_manager s))"
proof -
  have "sent m = sent (s_manager s) \<and> receivers m = receivers (s_manager s) \<and>
      presence_clients m \<subseteq> insert (client_id h) (presence_clients (s_manager s))"
    if "set_presence (client_id h) j x (s_manager s) = Some m" for j x m
    using that set_presence_clients [OF that] by (auto simp: set_presence_eq)
  note P = this
  show ?thesis
  proof (cases "checked_id i")
    case (Inr j)
    show ?thesis
    proof (cases d)
      case (Some x)
      with assms Inr obtain m where "set_presence (client_id h) j x (s_manager s) = Some m" "s' = s\<lparr>s_manager := m\<rparr>"
        by (auto simp: handle_presence_def)
      with P [OF this(1)] show ?thesis by (simp add: unspawned_def)
    qed (use assms Inr in \<open>auto simp: handle_presence_def\<close>)
  qed (use assms in \<open>auto simp: handle_presence_def\<close>)
qed


subsection \<open>Dispatch and whole inputs\<close>

definition publishing :: "command_kind \<Rightarrow> bool" where
  "publishing k \<longleftrightarrow> (\<exists>path x. k = Set path x)"

definition persisting :: "command_kind \<Rightarrow> bool" where
  "persisting k \<longleftrightarrow> publishing k \<or> (\<exists>path x. k = Push path x) \<or> (\<exists>path n. k = Increment path n) \<or> (\<exists>d. k = Restore d)"

text \<open>What a command may do to what is not a document.\<close>

definition own_presence :: "string \<Rightarrow> 'y server \<Rightarrow> 'y server \<Rightarrow> bool" where
  "own_presence cid s s' \<longleftrightarrow> receivers (s_manager s') = receivers (s_manager s) \<and>
     presence_clients (s_manager s') \<subseteq> insert cid (presence_clients (s_manager s))"

lemma own_presence_refl [simp]: "own_presence cid s s"
  by (auto simp: own_presence_def)

lemma own_presence_trans: "own_presence cid s s' \<Longrightarrow> own_presence cid s' s'' \<Longrightarrow> own_presence cid s s''"
  by (auto simp: own_presence_def)

lemma quiet_own_presence: "quiet s s' \<Longrightarrow> own_presence cid s s'"
  by (auto simp: quiet_def same_rest_def own_presence_def presence_clients_def)

lemma handle_authorized_frame:
  assumes "handle_authorized L ck cmd h s = Some (r, h', s')"
  shows "(publishing (cmd_kind cmd) \<or> sent (s_manager s') = sent (s_manager s)) \<and>
    (persisting (cmd_kind cmd) \<or> unspawned s s') \<and> own_presence (client_id h) s s'"
proof -
  note frame = handle_create_quiet handle_delete_quiet handle_compact_quiet handle_expire_quiet
    handle_push_quiet handle_increment_quiet handle_restore_quiet
  have "quiet s s' \<and> (persisting (cmd_kind cmd) \<or> unspawned s s')"
    if "\<not> publishing (cmd_kind cmd)" and "\<forall>d. cmd_kind cmd \<noteq> Presence d"
    using assms that
    by (cases "cmd_kind cmd") (auto simp: handle_authorized_def publishing_def persisting_def
        handle_subscribe_def handle_unsubscribe_def bind_eq_Some_conv dest: frame)
  then have "?thesis" if "\<not> publishing (cmd_kind cmd)" and "\<forall>d. cmd_kind cmd \<noteq> Presence d"
    using that by (auto simp: quiet_own_presence) (auto simp: quiet_def same_rest_def)
  moreover have ?thesis if "publishing (cmd_kind cmd)"
    using assms that
    by (auto simp: publishing_def persisting_def handle_authorized_def own_presence_def presence_clients_def
        dest!: handle_set_rest)
  moreover have ?thesis if "cmd_kind cmd = Presence d" for d
    using assms that handle_presence_rest [of L h "cmd_document_id cmd" d s r s']
    by (auto simp: handle_authorized_def own_presence_def)
  ultimately show ?thesis by blast
qed

lemma handle_command_frame:
  assumes "handle_command L ck cmd h s = Some (r, h', s')"
  shows "(publishing (cmd_kind cmd) \<or> sent (s_manager s') = sent (s_manager s)) \<and>
    (persisting (cmd_kind cmd) \<or> unspawned s s') \<and> own_presence (client_id h) s s'"
proof (cases "s' = s")
  case False
  then have "handle_authorized L ck cmd h s = Some (r, h', s')"
    using assms by (auto simp: handle_command_def split: command_kind.splits if_splits prod.splits)
  then show ?thesis by (rule handle_authorized_frame)
qed simp

text \<open>
  C37. Only SET tells the subscribers: no other command adds to the updates sent, although PUSH, INC,
  DEL and RESTORE change documents too. Only SET, PUSH, INC and RESTORE reach storage: what CREATE, DEL,
  EXPIRE and COMPACT do to a document is not persisted.
\<close>

theorem only_set_publishes:
  assumes "handle_command L ck cmd h s = Some (r, h', s')"
  shows "(publishing (cmd_kind cmd) \<or> sent (s_manager s') = sent (s_manager s)) \<and>
    (persisting (cmd_kind cmd) \<or> spawned s' = spawned s)"
  using handle_command_frame [OF assms] by (simp add: unspawned_def)

lemma only_set_publishes_witness:
  "\<exists>r s'. handle_command demo_libs demo_clocks (cmd_compact ''d'') (handler_new ''c'') (server_new :: string server)
      = Some (r, handler_new ''c'', s') \<and> sent (s_manager s') = []"
proof -
  obtain r s' where s': "handle_command demo_libs demo_clocks (cmd_compact ''d'') (handler_new ''c'') (server_new :: string server)
      = Some (r, handler_new ''c'', s')"
    by (simp add: handle_command_def handle_authorized_def handle_compact_def checked_id_Some [OF id_d] handler_new_def cmd_compact_def)
  from only_set_publishes [OF s'] have "sent (s_manager s') = sent (s_manager (server_new :: string server))"
    by (simp add: publishing_def cmd_compact_def)
  with s' show ?thesis by (auto simp: server_new_def manager_new_def)
qed

lemma handle_command_client: "handle_command L ck cmd h s = Some (r, h', s') \<Longrightarrow> client_id h' = client_id h"
proof -
  assume c: "handle_command L ck cmd h s = Some (r, h', s')"
  have "client_id h' = client_id h" if "handle_authorized L ck cmd h s = Some (r, h', s')"
    using handle_authorized_handler [OF that] by (metis handler.select_convs(1) handler.surjective handler.update_convs(3))
  with c show ?thesis
    by (auto simp: handle_command_def handle_auth_def split: command_kind.splits if_splits option.splits)
qed

lemma process_command_frame:
  assumes "process_command L ck cmd h s = Some (r, h', s')"
  shows "client_id h' = client_id h \<and> own_presence (client_id h) s s'"
proof -
  obtain ok h1 where a: "ask_limiter (c_instant ck) cmd h = (ok, h1)" by fastforce
  have "client_id h1 = client_id h"
    using ask_limiter_same [OF a] by (metis handler.select_convs(1) handler.surjective handler.update_convs(8))
  with assms a show ?thesis
    by (auto simp: process_command_def dest: handle_command_client handle_command_frame split: bool.splits)
qed

lemma process_run_frame:
  "process_run L cks n h s rs h' s' \<Longrightarrow> client_id h' = client_id h \<and> own_presence (client_id h) s s'"
proof (induction rule: process_run.induct)
  case (command h cmd p n s r h1 s1 rs h' s')
  from process_command_frame [OF command.hyps(2)] command.IH show ?case by (auto intro: own_presence_trans)
qed simp_all

lemma process_frame:
  assumes "process L cks data h s = Some (rs, h', s')"
  shows "client_id h' = client_id h \<and> own_presence (client_id h) s s'"
  using assms
proof (cases rule: process_cases)
  case (run p)
  from process_run_frame [OF run(2)] show ?thesis by simp
qed simp

end
