(* ===== verification/Cli.thy ===== *)
theory Cli imports Response Handler begin

section \<open>The command-line client (ussl-cli: main.rs)\<close>

text \<open>
  The client connects, gives the password if it has one, and carries out one command or those that are
  typed in. What comes from outside is given: what the network delivers, the results of connecting, and
  what the user types. What goes to the terminal is a list of events; colours are kept as constructors,
  the banner and the help text are events of their own. The history file is left out.
\<close>

record cli_args =
  cli_host :: string
  cli_port :: "16 word"
  cli_password :: "string option"
  cli_command :: "string option"
  cli_quiet :: bool

datatype shown = Green string | Red string | Yellow string | Blue string | Dimmed string | Plain string

datatype cli_event =
    Out shown
  | ErrOut string string
  | Banner string string
  | Help
  | ClearScreen

subsection \<open>The connection\<close>

text \<open>
  What the network delivers to the client: pieces of the stream, or a failure such as the read timeout;
  when nothing is left the stream has ended. Writing works unless the connection is \<open>broken\<close>.
\<close>

datatype net_read = Chunk bytes | ReadFails string

record tcp_stream =
  incoming :: "net_read list"
  outgoing :: bytes
  broken :: "string option"

definition BUF_SIZE :: nat where
  "BUF_SIZE = 8192"

fun recv :: "net_read list \<Rightarrow> (string + bytes) \<times> net_read list" where
  "recv [] = (Inr [], [])"
| "recv (ReadFails e # r) = (Inl e, r)"
| "recv (Chunk b # r) = (if length b \<le> BUF_SIZE then (Inr b, r) else (Inr (take BUF_SIZE b), Chunk (drop BUF_SIZE b) # r))"

fun net_length :: "net_read list \<Rightarrow> nat" where
  "net_length [] = 0"
| "net_length (ReadFails e # r) = Suc (net_length r)"
| "net_length (Chunk b # r) = Suc (length b + net_length r)"

lemma recv_shorter: "recv i = (x, i') \<Longrightarrow> i \<noteq> [] \<Longrightarrow> net_length i' < net_length i"
  by (cases i rule: recv.cases) (auto simp: BUF_SIZE_def split: if_splits)

lemma recv_empty: "(Inr b, i') = recv i \<Longrightarrow> b \<noteq> [] \<Longrightarrow> i \<noteq> []"
  by auto

text \<open>
  \<^verbatim>\<open>read_line\<close> of a buffered reader: up to and with the next newline, or up to the end of the stream; the
  bytes behind it stay in the reader's buffer. A line that is not UTF-8 is an error.
\<close>

definition split_line :: "bytes \<Rightarrow> bytes \<times> bytes" where
  "split_line b = (takeWhile (\<lambda>c. c \<noteq> LF) b @ [LF], drop 1 (dropWhile (\<lambda>c. c \<noteq> LF) b))"

definition utf8_line :: "bytes \<Rightarrow> string + string" where
  "utf8_line l = (if valid_utf8 l then Inr l else Inl ''stream did not contain valid UTF-8'')"

function read_line :: "bytes \<Rightarrow> net_read list \<Rightarrow> (string + string) \<times> bytes \<times> net_read list" where
  "read_line buf i =
     (if LF \<in> set buf then (case split_line buf of (l, r) \<Rightarrow> (utf8_line l, r, i))
      else case recv i of
        (Inl e, i') \<Rightarrow> (Inl e, [], i')
      | (Inr b, i') \<Rightarrow> if b = [] then (utf8_line buf, [], i') else read_line (buf @ b) i')"
  by pat_completeness auto
termination
  by (relation "measure (\<lambda>(buf, i). net_length i)") (auto dest: recv_shorter [OF sym] recv_empty)

declare read_line.simps [simp del]

subsection \<open>One command\<close>

fun show_items :: "nat \<Rightarrow> nat \<Rightarrow> bytes \<Rightarrow> net_read list \<Rightarrow> (string + unit) \<times> net_read list \<times> cli_event list" where
  "show_items n 0 buf i = (Inr (), i, [])"
| "show_items n (Suc k) buf i =
     (case read_line buf i of
        (Inl e, _, i') \<Rightarrow> (Inl e, i', [])
      | (Inr l, buf', i') \<Rightarrow>
          (case show_items (Suc n) k buf' i' of
             (r, i'', es) \<Rightarrow> (r, i'', Out (Plain (show_nat (Suc n) @ '') '' @ trim l)) # es)))"

definition show_response :: "string \<Rightarrow> bytes \<Rightarrow> net_read list \<Rightarrow> (string + unit) \<times> net_read list \<times> cli_event list" where
  "show_response response buf i =
     (if prefix ''+OK'' response then (Inr (), i, [Out (Green response)])
      else if prefix ''+PONG'' response then (Inr (), i, [Out (Green ''PONG'')])
      else if prefix ''-ERR'' response then (Inr (), i, [Out (Red response)])
      else if prefix '':'' response then (Inr (), i, [Out (Yellow (drop 1 response))])
      else if prefix ''$'' response then
        (if response = ''$-1'' then (Inr (), i, [Out (Dimmed ''(nil)'')])
         else (case read_line buf i of
             (Inl e, _, i') \<Rightarrow> (Inl e, i', [])
           | (Inr data, _, i') \<Rightarrow> (Inr (), i', [Out (Plain (trim data))])))
      else if prefix ''*'' response then
        show_items 0 (case parse_usize (drop 1 response) of Some n \<Rightarrow> n | None \<Rightarrow> 0) buf i
      else if prefix ''#'' response then (Inr (), i, [Out (Blue (''Delta: '' @ response))])
      else (Inr (), i, [Out (Plain response)]))"

text \<open>The reader is made anew for every command: what is left in its buffer at the end is lost.\<close>

definition execute_command :: "string \<Rightarrow> tcp_stream \<Rightarrow> (string + unit) \<times> tcp_stream \<times> cli_event list" where
  "execute_command cmd s =
     (case broken s of
        Some e \<Rightarrow> (Inl e, s, [])
      | None \<Rightarrow>
          let s = s\<lparr>outgoing := outgoing s @ cmd @ [LF]\<rparr> in
          (case read_line [] (incoming s) of
             (Inl e, _, i) \<Rightarrow> (Inl e, s\<lparr>incoming := i\<rparr>, [])
           | (Inr response, buf, i) \<Rightarrow>
               (case show_response (trim response) buf i of
                  (r, i', es) \<Rightarrow> (r, s\<lparr>incoming := i'\<rparr>, es))))"

subsection \<open>The program\<close>

datatype typed = Line string | Interrupted | Eof | ReadlineFails string

text \<open>The results of connecting again, in order; when none is left, connecting fails.\<close>

fun cli_loop :: "typed list \<Rightarrow> (string + tcp_stream) list \<Rightarrow> tcp_stream \<Rightarrow> tcp_stream \<times> cli_event list" where
  "cli_loop [] cs s = (s, [])"
| "cli_loop (Interrupted # ts) cs s = (case cli_loop ts cs s of (s', es) \<Rightarrow> (s', Out (Plain ''^C'') # es))"
| "cli_loop (Eof # ts) cs s = (s, [Out (Plain ''^D'')])"
| "cli_loop (ReadlineFails e # ts) cs s = (s, [ErrOut ''Error: '' e])"
| "cli_loop (Line raw # ts) cs s =
     (let line = trim raw; upper = to_uppercase line in
      if line = [] then cli_loop ts cs s
      else if upper = ''QUIT'' \<or> upper = ''EXIT'' then (case execute_command ''QUIT'' s of (_, s', es) \<Rightarrow> (s', es))
      else if upper = ''HELP'' then (case cli_loop ts cs s of (s', es) \<Rightarrow> (s', Help # es))
      else if upper = ''CLEAR'' then (case cli_loop ts cs s of (s', es) \<Rightarrow> (s', ClearScreen # es))
      else (case execute_command line s of
          (Inr _, s', es) \<Rightarrow> (case cli_loop ts cs s' of (s'', es') \<Rightarrow> (s'', es @ es'))
        | (Inl e, s', es) \<Rightarrow>
            (case cs of
               Inr new_stream # cs' \<Rightarrow>
                 (case cli_loop ts cs' new_stream of
                    (s'', es') \<Rightarrow> (s'', es @ ErrOut ''Error:'' e # Out (Yellow ''Reconnected.'') # es'))
             | _ \<Rightarrow> (s', es @ [ErrOut ''Error:'' e, ErrOut ''Connection lost.'' []]))))"

definition cli_addr :: "cli_args \<Rightarrow> string" where
  "cli_addr a = cli_host a @ '':'' @ show_nat (unat (cli_port a))"

definition authenticate :: "cli_args \<Rightarrow> tcp_stream \<Rightarrow> (string + unit) \<times> tcp_stream \<times> cli_event list" where
  "authenticate a s =
     (case cli_password a of
        None \<Rightarrow> (Inr (), s, [])
      | Some pwd \<Rightarrow>
          (case execute_command (''AUTH '' @ pwd) s of
             (Inl e, s', es) \<Rightarrow> (Inl ''Authentication failed'', s', es)
           | (Inr _, s', es) \<Rightarrow> (Inr (), s', es @ (if cli_quiet a then [] else [Out (Green ''Authenticated.'')]))))"

definition cli_main ::
  "cli_args \<Rightarrow> string + tcp_stream \<Rightarrow> (string + tcp_stream) list \<Rightarrow> typed list \<Rightarrow> (string + unit) \<times> cli_event list" where
  "cli_main a connected again ts =
     (case connected of
        Inl e \<Rightarrow> (Inl (''Failed to connect to '' @ cli_addr a), [])
      | Inr s \<Rightarrow>
          (case authenticate a s of
             (Inl e, s', es) \<Rightarrow> (Inl e, es)
           | (Inr _, s', es) \<Rightarrow>
               let es = es @ (if cli_quiet a then []
                 else [Banner (cli_addr a) (if cli_password a = None then [] else '' (authenticated)'')])
               in (case cli_command a of
                     Some cmd \<Rightarrow> (case execute_command cmd s' of (r, s'', es') \<Rightarrow> (r, es @ es'))
                   | None \<Rightarrow> (Inr (), es @ snd (cli_loop ts again s')))))"

end
