(* ===== verification/CliLaws.thy ===== *)
theory CliLaws imports Cli ResponseLaws HandlerLaws begin

section \<open>What the command-line client shows\<close>

text \<open>
  However the network cuts them, responses of one line are shown as they are; arrays are not: the
  client counts lines where the server counts items. A refused password is shown and ignored.
\<close>

subsection \<open>Reading lines from pieces\<close>

text \<open>The reader's buffer and the network hold the bytes \<open>b\<close> in any cut, and behind them the network has \<open>later\<close>.\<close>

definition delivers :: "bytes \<Rightarrow> net_read list \<Rightarrow> bytes \<Rightarrow> net_read list \<Rightarrow> bool" where
  "delivers buf i b later \<longleftrightarrow> (\<exists>cs. i = map Chunk cs @ later \<and> (\<forall>c\<in>set cs. c \<noteq> []) \<and> buf @ concat cs = b)"

lemma delivers_nothing: "delivers buf i [] later \<Longrightarrow> buf = [] \<and> i = later"
  by (auto simp: delivers_def)

lemma split_line_at: "LF \<notin> set l \<Longrightarrow> split_line (l @ LF # r) = (l @ [LF], r)"
  by (simp add: split_line_def takeWhile_append dropWhile_append)

lemma split_at_LF:
  assumes "a @ b = l @ LF # r" and "LF \<in> set a" and "LF \<notin> set l"
  shows "\<exists>x. a = l @ LF # x \<and> r = x @ b"
proof -
  obtain u x where a: "a = u @ LF # x" "LF \<notin> set u" using assms(2) by (meson split_list_first)
  have "takeWhile (\<lambda>c. c \<noteq> LF) (a @ b) = u" using a by (simp add: takeWhile_append)
  moreover have "takeWhile (\<lambda>c. c \<noteq> LF) (l @ LF # r) = l" using assms(3) by (simp add: takeWhile_append)
  ultimately have "u = l" using assms(1) by simp
  with a assms(1) show ?thesis by auto
qed

lemma read_line_cut:
  "buf @ concat cs = l @ LF # bs \<Longrightarrow> LF \<notin> set l \<Longrightarrow> valid_utf8 (l @ [LF]) \<Longrightarrow> \<forall>c\<in>set cs. c \<noteq> [] \<Longrightarrow>
    \<exists>buf' cs'. read_line buf (map Chunk cs @ later) = (Inr (l @ [LF]), buf', map Chunk cs' @ later) \<and>
      buf' @ concat cs' = bs \<and> (\<forall>c\<in>set cs'. c \<noteq> [])"
proof (induction "length (concat cs)" arbitrary: buf cs rule: less_induct)
  case less
  show ?case
  proof (cases "LF \<in> set buf")
    case True
    from split_at_LF [OF less.prems(1) True less.prems(2)] obtain x where x: "buf = l @ LF # x" "bs = x @ concat cs" by blast
    have "read_line buf (map Chunk cs @ later) = (Inr (l @ [LF]), x, map Chunk cs @ later)"
      using True split_line_at [OF less.prems(2), of x] x(1) less.prems(3) by (simp add: read_line.simps utf8_line_def)
    with x(2) less.prems(4) show ?thesis by blast
  next
    case False
    then obtain c cs1 where cs: "cs = c # cs1" using less.prems(1) by (cases cs) auto
    have c: "c \<noteq> []" using less.prems(4) cs by simp
    show ?thesis
    proof (cases "length c \<le> BUF_SIZE")
      case True
      have "length (concat cs1) < length (concat cs)" using c cs by simp
      from less.hyps [OF this, of "buf @ c"] less.prems cs False True c show ?thesis
        by (simp add: read_line.simps [of buf])
    next
      case long: False
      let ?cs = "drop BUF_SIZE c # cs1"
      have t: "take BUF_SIZE c \<noteq> []" using c by (simp add: BUF_SIZE_def)
      have app: "take BUF_SIZE c @ drop BUF_SIZE c @ concat cs1 = c @ concat cs1" by (metis append_assoc append_take_drop_id)
      have "length (concat ?cs) < length (concat cs)" using cs long by (simp add: BUF_SIZE_def)
      from less.hyps [OF this, of "buf @ take BUF_SIZE c"] less.prems cs False long t app show ?thesis
        by (simp add: read_line.simps [of buf])
    qed
  qed
qed

lemma read_line_delivers:
  assumes "delivers buf i (l @ LF # bs) later" and "LF \<notin> set l" and "valid_utf8 (l @ [LF])"
  shows "\<exists>buf' i'. read_line buf i = (Inr (l @ [LF]), buf', i') \<and> delivers buf' i' bs later"
  using read_line_cut [OF _ assms(2,3)] assms(1) by (fastforce simp: delivers_def)

subsection \<open>Lines that are shown as they are\<close>

definition clean :: "string \<Rightarrow> bool" where
  "clean s \<longleftrightarrow> LF \<notin> set s \<and> valid_utf8 s \<and> s \<noteq> [] \<and> 32 < byte (hd s) \<and> byte (hd s) < 128 \<and> 32 < byte (last s) \<and> byte (last s) < 128"

lemma trim_line: "clean s \<Longrightarrow> trim (s @ [CR, LF]) = s"
proof -
  assume c: "clean s"
  then obtain x t where x: "s = x # t" "32 < byte x" "byte x < 128" by (cases s) (auto simp: clean_def)
  have "trim_start (s @ [CR, LF]) = s @ [CR, LF]"
    unfolding trim_start_def x(1) append_Cons
    using x(2,3) by (intro skip_ws_idle) (auto simp: is_ws1_def is_ws2_def is_ws3_def)
  moreover have "trim_end (s @ [CR, LF]) = trim_end s"
    by (simp add: trim_end_def skip_ws.simps(2) is_ws1_def byte_def)
  moreover have "trim_end s = s"
  proof -
    have "trim s = s" using c by (intro trim_idle) (auto simp: clean_def)
    moreover have "trim_start s = s"
      unfolding trim_start_def x(1) using x(2,3) by (intro skip_ws_idle) (auto simp: is_ws1_def is_ws2_def is_ws3_def)
    ultimately show ?thesis by (simp add: trim_def)
  qed
  ultimately show ?thesis by (simp add: trim_def)
qed

lemma clean_line: "clean s \<Longrightarrow> LF \<notin> set (s @ [CR]) \<and> valid_utf8 ((s @ [CR]) @ [LF])"
proof -
  assume c: "clean s"
  have "valid_utf8 [CR, LF]" by (rule ascii_valid_utf8) (simp add: byte_def)
  with c show ?thesis by (simp add: clean_def valid_utf8_append del: valid_utf8.simps)
qed

lemma read_clean:
  assumes "delivers buf i (s @ CRLF @ bs) later" and "clean s"
  shows "\<exists>buf' i'. read_line buf i = (Inr (s @ [CR, LF]), buf', i') \<and> delivers buf' i' bs later"
proof -
  have "delivers buf i ((s @ [CR]) @ LF # bs) later" using assms(1) by (simp add: CRLF_def)
  from read_line_delivers [OF this] clean_line [OF assms(2)] show ?thesis by auto
qed

lemma clean_digits: "list_all is_digit t \<Longrightarrow> 32 < byte c \<Longrightarrow> byte c < 128 \<Longrightarrow> clean (c # t)"
proof -
  assume t: "list_all is_digit t" and c: "32 < byte c" "byte c < 128"
  have "\<forall>x\<in>set (c # t). 32 < byte x \<and> byte x < 128" using t c by (auto simp: list_all_iff is_digit_def)
  moreover have "LF \<notin> set (c # t)" using calculation by (force simp: byte_def)
  moreover have "ascii (c # t)" using calculation(1) by (simp add: list_all_iff)
  ultimately show ?thesis using last_in_set [of "c # t"] ascii_valid_utf8 by (simp only: clean_def) auto
qed

lemma clean_integer: "clean ('':'' @ show_i64 n)"
proof (cases "sint n < 0")
  case True
  have "clean (CHR ''-'' # show_nat (nat (- sint n)))" using show_nat_digits by (intro clean_digits) (auto simp: byte_def)
  with True show ?thesis by (auto simp: show_i64_def clean_def byte_def utf8_chunk_ascii)
next
  case False
  then show ?thesis using show_nat_digits by (simp add: show_i64_def clean_digits byte_def)
qed

subsection \<open>Responses of one line\<close>

fun one_line :: "(val \<Rightarrow> string option) \<Rightarrow> response \<Rightarrow> bool" where
  "one_line to_string (Ok None) = True"
| "one_line to_string (Ok (Some m)) = clean (''+OK '' @ m)"
| "one_line to_string (Error c m) = clean (''-ERR '' @ c @ '' '' @ m)"
| "one_line to_string (Bulk d) = clean d"
| "one_line to_string (Array rs) = False"
| "one_line to_string (Delta v d) = clean (''#'' @ show_u64 v @ '' '' @ base64_encode d)"
| "one_line to_string (Integer n) = True"
| "one_line to_string (Value v) = clean (case to_string v of Some j \<Rightarrow> j | None \<Rightarrow> ''null'')"
| "one_line to_string Null = True"
| "one_line to_string Pong = True"

fun display :: "(val \<Rightarrow> string option) \<Rightarrow> response \<Rightarrow> shown" where
  "display to_string (Ok None) = Green ''+OK''"
| "display to_string (Ok (Some m)) = Green (''+OK '' @ m)"
| "display to_string (Error c m) = Red (''-ERR '' @ c @ '' '' @ m)"
| "display to_string (Bulk d) = Plain d"
| "display to_string (Array rs) = Plain []"
| "display to_string (Delta v d) = Blue (''Delta: '' @ ''#'' @ show_u64 v @ '' '' @ base64_encode d)"
| "display to_string (Integer n) = Yellow (show_i64 n)"
| "display to_string (Value v) = Plain (case to_string v of Some j \<Rightarrow> j | None \<Rightarrow> ''null'')"
| "display to_string Null = Dimmed ''(nil)''"
| "display to_string Pong = Green ''PONG''"

lemma execute_clean:
  assumes "broken s = None" and "delivers [] (incoming s) (l @ CRLF @ bs) later" and "clean l"
  shows "\<exists>buf i. delivers buf i bs later \<and> execute_command cmd s =
    (case show_response l buf i of (r, i', es) \<Rightarrow> (r, s\<lparr>outgoing := outgoing s @ cmd @ [LF], incoming := i'\<rparr>, es))"
proof -
  obtain buf i where r: "read_line [] (incoming s) = (Inr (l @ [CR, LF]), buf, i)" "delivers buf i bs later"
    using read_clean [OF assms(2,3)] by blast
  from r(1) trim_line [OF assms(3)] assms(1) have "execute_command cmd s =
    (case show_response l buf i of (r, i', es) \<Rightarrow> (r, s\<lparr>outgoing := outgoing s @ cmd @ [LF], incoming := i'\<rparr>, es))"
    by (simp add: execute_command_def Let_def)
  with r(2) show ?thesis by blast
qed

lemma show_bulk:
  assumes "delivers buf i (d @ CRLF @ bs) later" and "clean d"
  shows "\<exists>buf' i'. show_response (''$'' @ show_nat n) buf i = (Inr (), i', [Out (Plain d)]) \<and> delivers buf' i' bs later"
  using read_clean [OF assms] trim_line [OF assms(2)] by (auto simp: show_response_def)

lemma cli_executes_line:
  assumes "broken s = None" and "delivers [] (incoming s) (l @ CRLF) later" and "clean l"
    and "\<And>buf. show_response l buf later = (Inr (), later, es)"
  shows "execute_command cmd s = (Inr (), s\<lparr>outgoing := outgoing s @ cmd @ [LF], incoming := later\<rparr>, es)"
proof -
  have "delivers [] (incoming s) (l @ CRLF @ []) later" using assms(2) by simp
  from execute_clean [OF assms(1) this assms(3), of cmd] obtain buf i where d: "delivers buf i [] later"
    "execute_command cmd s = (case show_response l buf i of (r, i', es) \<Rightarrow> (r, s\<lparr>outgoing := outgoing s @ cmd @ [LF], incoming := i'\<rparr>, es))"
    by blast
  with delivers_nothing [OF d(1)] assms(4) show ?thesis by simp
qed

lemma cli_executes_bulk:
  assumes "broken s = None" and "delivers [] (incoming s) (bulk_bytes d) later" and "clean d"
  shows "execute_command cmd s = (Inr (), s\<lparr>outgoing := outgoing s @ cmd @ [LF], incoming := later\<rparr>, [Out (Plain d)])"
proof -
  have "delivers [] (incoming s) ((''$'' @ show_nat (length d)) @ CRLF @ d @ CRLF) later"
    using assms(2) by (simp add: bulk_bytes_def)
  moreover have "clean (''$'' @ show_nat (length d))"
    using clean_digits [of "show_nat (length d)" "CHR ''$''"] show_nat_digits by (simp add: byte_def)
  ultimately obtain buf i where d: "delivers buf i (d @ CRLF) later"
    "execute_command cmd s = (case show_response (''$'' @ show_nat (length d)) buf i of
       (r, i', es) \<Rightarrow> (r, s\<lparr>outgoing := outgoing s @ cmd @ [LF], incoming := i'\<rparr>, es))"
    using execute_clean [OF assms(1), of "''$'' @ show_nat (length d)" "d @ CRLF" later cmd] by blast
  have "delivers buf i (d @ CRLF @ []) later" using d(1) by simp
  from show_bulk [OF this assms(3), of "length d"] obtain buf' i' where
    "show_response (''$'' @ show_nat (length d)) buf i = (Inr (), i', [Out (Plain d)])" "delivers buf' i' [] later" by blast
  with d(2) delivers_nothing [OF this(2)] show ?thesis by simp
qed

lemma cli_executes:
  assumes "broken s = None" and "one_line to_string r" and "delivers [] (incoming s) (encode to_string r) later"
  shows "execute_command cmd s =
    (Inr (), s\<lparr>outgoing := outgoing s @ cmd @ [LF], incoming := later\<rparr>, [Out (display to_string r)])"
proof -
  note line = cli_executes_line [OF assms(1), where later = later and cmd = cmd]
    and bulk = cli_executes_bulk [OF assms(1), where later = later and cmd = cmd]
  have ascii: "clean ''+OK''" "clean ''+PONG''" "clean ''$-1''"
    by (simp_all add: clean_def utf8_chunk_ascii byte_def)
  show ?thesis
  proof (cases r)
    case (Ok m)
    show ?thesis
    proof (cases m)
      case None
      with Ok assms(3) line [of "''+OK''"] ascii show ?thesis by (simp add: encode_def show_response_def)
    next
      case (Some a)
      with Ok assms(2,3) line [of "''+OK '' @ a"] show ?thesis by (simp add: encode_def show_response_def)
    qed
  next
    case (Error c m)
    with assms(2,3) line [of "''-ERR '' @ c @ '' '' @ m"] show ?thesis by (simp add: encode_def show_response_def)
  next
    case (Bulk d)
    with assms(2,3) bulk [of d] show ?thesis by (simp add: encode_def)
  next
    case (Delta v d)
    with assms(2,3) line [of "''#'' @ show_u64 v @ '' '' @ base64_encode d"] show ?thesis
      by (simp add: encode_def show_response_def)
  next
    case (Integer n)
    with assms(3) line [of "'':'' @ show_i64 n"] clean_integer [of n] show ?thesis by (simp add: encode_def show_response_def)
  next
    case (Value v)
    with assms(2,3) bulk show ?thesis by (simp add: encode_def)
  next
    case Null
    with assms(3) line [of "''$-1''"] ascii show ?thesis by (simp add: encode_def show_response_def)
  next
    case Pong
    with assms(3) line [of "''+PONG''"] ascii show ?thesis by (simp add: encode_def show_response_def)
  qed (use assms(2) in simp)
qed

text \<open>
  The client shows every response that takes one line (or is one bulk string of one line) as it is,
  however the network cuts it, says that the command succeeded, and leaves on the network exactly
  what comes behind the response.
\<close>

theorem cli_shows_reply:
  assumes "broken s = None" and "one_line to_string r" and "delivers [] (incoming s) (encode to_string r) later"
  shows "execute_command cmd s =
    (Inr (), s\<lparr>outgoing := outgoing s @ cmd @ [LF], incoming := later\<rparr>, [Out (display to_string r)])"
  by (rule cli_executes [OF assms])

lemma cli_shows_reply_witness:
  "execute_command ''INC a n'' \<lparr>incoming = [Chunk '':4'', Chunk (''2'' @ CRLF)], outgoing = [], broken = None\<rparr> =
     (Inr (), \<lparr>incoming = [], outgoing = ''INC a n'' @ [LF], broken = None\<rparr>, [Out (Yellow ''42'')])"
proof -
  let ?s = "\<lparr>incoming = [Chunk '':4'', Chunk (''2'' @ CRLF)], outgoing = [], broken = None\<rparr>"
  have n: "show_i64 42 = ''42''" by (simp add: show_i64_def show_nat.simps)
  have "delivers [] (incoming ?s) (encode (\<lambda>v. None) (Integer 42)) []"
    unfolding delivers_def by (rule exI [of _ "['':4'', ''2'' @ CRLF]"]) (simp add: encode_def n)
  from cli_shows_reply [OF _ _ this, of "''INC a n''"] n show ?thesis by simp
qed

subsection \<open>Arrays\<close>

text \<open>The lines of an array of bulk strings behind its first line: two for every string.\<close>

definition array_lines :: "bytes list \<Rightarrow> string list" where
  "array_lines ds = concat (map (\<lambda>d. [''$'' @ show_nat (length d), d]) ds)"

definition wire_lines :: "string list \<Rightarrow> bytes" where
  "wire_lines ls = concat (map (\<lambda>l. l @ CRLF) ls)"

fun numbered :: "nat \<Rightarrow> string list \<Rightarrow> cli_event list" where
  "numbered n [] = []"
| "numbered n (l # ls) = Out (Plain (show_nat (Suc n) @ '') '' @ l)) # numbered (Suc n) ls"

lemma array_lines_simps [simp]:
  "array_lines [] = []" "array_lines (d # ds) = [''$'' @ show_nat (length d), d] @ array_lines ds"
  "array_lines (ds @ ds') = array_lines ds @ array_lines ds'" "length (array_lines ds) = 2 * length ds"
  by (simp_all add: array_lines_def) (induction ds, simp_all add: array_lines_def)

lemma wire_lines_simps [simp]:
  "wire_lines [] = []" "wire_lines (l # ls) = l @ CRLF @ wire_lines ls" "wire_lines (ls @ ls') = wire_lines ls @ wire_lines ls'"
  by (simp_all add: wire_lines_def)

lemma encode_bulk_array:
  "encode to_string (Array (map Bulk ds)) = (''*'' @ show_nat (length ds)) @ CRLF @ wire_lines (array_lines ds)"
proof -
  have "encode to_string (Bulk d) = bulk_bytes d" for d by (simp add: encode_def)
  then have "concat (map (encode to_string) (map Bulk ds)) = wire_lines (array_lines ds)"
    by (induction ds) (simp_all add: bulk_bytes_def)
  then show ?thesis unfolding encode_array by simp
qed

lemma clean_array_lines: "\<forall>d\<in>set ds. clean d \<Longrightarrow> \<forall>l\<in>set (array_lines ds). clean l"
  using clean_digits show_nat_digits by (auto simp: array_lines_def byte_def)

lemma show_items_lines:
  "delivers buf i (wire_lines ls @ bs) later \<Longrightarrow> \<forall>l\<in>set ls. clean l \<Longrightarrow>
    \<exists>buf' i'. show_items n (length ls) buf i = (Inr (), i', numbered n ls) \<and> delivers buf' i' bs later"
proof (induction ls arbitrary: n buf i)
  case (Cons l ls)
  from Cons.prems(1) have "delivers buf i (l @ CRLF @ wire_lines ls @ bs) later" by simp
  with Cons.prems(2) read_clean obtain buf1 i1
    where r: "read_line buf i = (Inr (l @ [CR, LF]), buf1, i1)" "delivers buf1 i1 (wire_lines ls @ bs) later"
    by (metis list.set_intros(1))
  from Cons.IH [OF r(2), of "Suc n"] Cons.prems(2) r(1) trim_line [of l] show ?case by auto
qed auto

lemma execute_array:
  assumes "broken s = None" and "length ls < 2 ^ 64" and "\<forall>l\<in>set ls. clean l"
    and "delivers [] (incoming s) ((''*'' @ show_nat (length ls)) @ CRLF @ wire_lines ls @ bs) later"
  shows "\<exists>buf i. execute_command cmd s = (Inr (), s\<lparr>outgoing := outgoing s @ cmd @ [LF], incoming := i\<rparr>, numbered 0 ls) \<and>
    delivers buf i bs later"
proof -
  let ?h = "''*'' @ show_nat (length ls)"
  have "clean ?h" using clean_digits [of "show_nat (length ls)" "CHR ''*''"] show_nat_digits by (simp add: byte_def)
  with execute_clean [OF assms(1,4)] obtain buf i where d: "delivers buf i (wire_lines ls @ bs) later"
    "execute_command cmd s = (case show_response ?h buf i of (r, i', es) \<Rightarrow> (r, s\<lparr>outgoing := outgoing s @ cmd @ [LF], incoming := i'\<rparr>, es))"
    by blast
  from show_items_lines [OF d(1) assms(3), of 0]
  obtain buf' i' where it: "show_items 0 (length ls) buf i = (Inr (), i', numbered 0 ls)" "delivers buf' i' bs later" by blast
  have "parse_usize (drop 1 ?h) = Some (length ls)" using assms(2) by simp
  with it(1) have "show_response ?h buf i = (Inr (), i', numbered 0 ls)" by (simp add: show_response_def)
  with d(2) it(2) show ?thesis by auto
qed

lemma take_array_lines: "k \<le> length ds \<Longrightarrow> take (2 * k) (array_lines ds) = array_lines (take k ds)"
proof (induction k arbitrary: ds)
  case (Suc k)
  then show ?case by (cases ds) auto
qed simp

lemma id_clean: "document_id_new k = Inr i \<Longrightarrow> clean k"
proof -
  assume "document_id_new k = Inr i"
  then have k: "k \<noteq> []" "list_all id_char k" by (auto simp: document_id_new_def split: if_splits)
  then have "\<forall>c\<in>set k. 32 < byte c \<and> byte c < 128" by (auto simp: list_all_iff id_char_def byte_def)
  moreover have "LF \<notin> set k" using calculation by (force simp: byte_def)
  ultimately show "clean k" using k(1) last_in_set [of k] hd_in_set [of k] ascii_valid_utf8 [of k]
    by (auto simp: clean_def list_all_iff)
qed

definition listed_ids :: "'y server \<Rightarrow> string option \<Rightarrow> string list" where
  "listed_ids srv p = map (\<lambda>m. id_str (meta_id m)) (manager_list (s_manager srv) p)"

lemma listed_ids_clean: "manager_ok (s_manager srv) \<Longrightarrow> \<forall>d\<in>set (listed_ids srv p). clean d"
  by (fastforce simp: listed_ids_def manager_list_def manager_ok_def intro: id_clean)

lemma handle_keys_ids: "handle_keys p srv = Array (map Bulk (listed_ids srv p))"
  by (simp add: handle_keys_def listed_ids_def comp_def)

text \<open>
  The client does not show the answer to KEYS: of the two lines that each identifier takes it reads
  as many as there are identifiers, so it shows lengths and identifiers in turn and only the first half
  of the identifiers (of an even number).
\<close>

theorem cli_keys_shows_half:
  assumes "broken s = None" and "manager_ok (s_manager srv)" and "length (listed_ids srv p) < 2 ^ 64"
    and "delivers [] (incoming s) (encode to_string (handle_keys p srv)) later"
  shows "\<exists>s'. execute_command cmd s = (Inr (), s', numbered 0 (take (length (listed_ids srv p)) (array_lines (listed_ids srv p)))) \<and>
    (\<forall>k. length (listed_ids srv p) = 2 * k \<longrightarrow>
       execute_command cmd s = (Inr (), s', numbered 0 (array_lines (take k (listed_ids srv p)))))"
proof -
  let ?ds = "listed_ids srv p"
  let ?ls = "take (length ?ds) (array_lines ?ds)"
  have len: "length ?ls = length ?ds" by simp
  have "delivers [] (incoming s) ((''*'' @ show_nat (length ?ls)) @ CRLF @ wire_lines ?ls @ wire_lines (drop (length ?ds) (array_lines ?ds))) later"
    using assms(4) unfolding handle_keys_ids encode_bulk_array len
    by (metis append_take_drop_id wire_lines_simps(3))
  moreover have "\<forall>l\<in>set ?ls. clean l"
    using clean_array_lines [OF listed_ids_clean [OF assms(2)]] by (meson in_set_takeD)
  ultimately obtain buf i where e: "execute_command cmd s = (Inr (), s\<lparr>outgoing := outgoing s @ cmd @ [LF], incoming := i\<rparr>, numbered 0 ?ls)"
    using execute_array [OF assms(1), of ?ls "wire_lines (drop (length ?ds) (array_lines ?ds))" later cmd] assms(3) len by auto
  have "?ls = array_lines (take k ?ds)" if "length ?ds = 2 * k" for k
    using that take_array_lines [of k ?ds] by simp
  with e show ?thesis by metis
qed

lemma digit_two: "digit (Suc (Suc 0)) = CHR ''2''"
  using digit_simps(4) by (simp only: numeral_2_eq_2)

definition demo_two :: "string server" where
  "demo_two = \<lparr>s_manager = manager_new\<lparr>documents :=
     [(''a'', document_new string_yrs 1 (DocumentId ''a'') Lww), (''b'', document_new string_yrs 1 (DocumentId ''b'') Lww)]\<rparr>, spawned = []\<rparr>"

lemma demo_two_ids: "listed_ids demo_two None = [''a'', ''b'']"
  by (simp add: demo_two_def listed_ids_def manager_list_def document_new_def meta_new_def)

lemma demo_two_ok: "manager_ok (s_manager demo_two)"
  by (auto simp: demo_two_def manager_ok_def manager_new_def document_new_def meta_new_def document_id_new_def id_char_def byte_def split: if_splits)

lemma cli_keys_shows_half_witness:
  "\<exists>s'. execute_command ''KEYS'' \<lparr>incoming = [Chunk (encode (\<lambda>v. None) (handle_keys None demo_two))], outgoing = [], broken = None\<rparr> =
     (Inr (), s', [Out (Plain ''1) $1''), Out (Plain ''2) a'')])"
proof -
  let ?s = "\<lparr>incoming = [Chunk (encode (\<lambda>v. None) (handle_keys None demo_two))], outgoing = [], broken = None\<rparr>"
  have "encode (\<lambda>v. None) (handle_keys None demo_two) \<noteq> []"
    unfolding handle_keys_ids encode_bulk_array by simp
  then have d: "delivers [] (incoming ?s) (encode (\<lambda>v. None) (handle_keys None demo_two)) []"
    unfolding delivers_def by (intro exI [of _ "[encode (\<lambda>v. None) (handle_keys None demo_two)]"]) simp
  have "broken ?s = None" "length (listed_ids demo_two None) < 2 ^ 64" by (simp_all add: demo_two_ids)
  from cli_keys_shows_half [OF this(1) demo_two_ok this(2) d, of "''KEYS''"] show ?thesis
    by (auto simp: demo_two_ids show_nat.simps digit_two)
qed

text \<open>
  What is left of an array becomes the reply to the next command when it arrives later: if the
  network delivers the first half of the answer to KEYS and then the rest, the next command,
  whatever it is, is shown with the first identifier of the rest.
\<close>

theorem cli_keys_shift:
  assumes "broken s = None" and "length xs = length (y # ys)" and "length (xs @ y # ys) < 2 ^ 64" and "\<forall>d\<in>set (xs @ y # ys). clean d"
    and "encode to_string (Array (map Bulk (xs @ y # ys))) = a @ wire_lines (array_lines (y # ys))"
    and "incoming s = [Chunk a, Chunk (wire_lines (array_lines (y # ys)))] @ later"
  shows "\<exists>s1 s2. execute_command cmd s = (Inr (), s1, numbered 0 (array_lines xs)) \<and>
    execute_command cmd' s1 = (Inr (), s2, [Out (Plain y)])"
proof -
  let ?b = "wire_lines (array_lines (y # ys))"
  have len: "length (xs @ y # ys) = length (array_lines xs)" using assms(2) by simp
  have a: "a = (''*'' @ show_nat (length (array_lines xs))) @ CRLF @ wire_lines (array_lines xs) @ []"
    using assms(5) unfolding encode_bulk_array len by simp
  have "a \<noteq> []" unfolding a by simp
  then have "delivers [] (incoming s) a (Chunk ?b # later)"
    unfolding delivers_def assms(6) by (intro exI [of _ "[a]"]) simp
  moreover have "\<forall>l\<in>set (array_lines xs). clean l" using clean_array_lines [of xs] assms(4) by simp
  ultimately obtain buf i where e: "execute_command cmd s = (Inr (), s\<lparr>outgoing := outgoing s @ cmd @ [LF], incoming := i\<rparr>, numbered 0 (array_lines xs))"
    and d: "delivers buf i [] (Chunk ?b # later)"
    using execute_array [OF assms(1), of "array_lines xs" "[]"] assms(3) len unfolding a by metis
  let ?s1 = "s\<lparr>outgoing := outgoing s @ cmd @ [LF], incoming := i\<rparr>"
  have b: "broken ?s1 = None" using assms(1) by simp
  have w: "delivers [] (incoming ?s1) ((''$'' @ show_nat (length y)) @ CRLF @ y @ CRLF @ wire_lines (array_lines ys)) later"
    using delivers_nothing [OF d] unfolding delivers_def by (intro exI [of _ "[?b]"]) simp
  have "clean (''$'' @ show_nat (length y))"
    using clean_digits [of "show_nat (length y)" "CHR ''$''"] show_nat_digits by (simp add: byte_def)
  from execute_clean [OF b w this, of cmd'] obtain buf2 i2 where e2: "delivers buf2 i2 (y @ CRLF @ wire_lines (array_lines ys)) later"
    "execute_command cmd' ?s1 = (case show_response (''$'' @ show_nat (length y)) buf2 i2 of
       (r, i', es) \<Rightarrow> (r, ?s1\<lparr>outgoing := outgoing ?s1 @ cmd' @ [LF], incoming := i'\<rparr>, es))"
    by blast
  obtain i3 where "show_response (''$'' @ show_nat (length y)) buf2 i2 = (Inr (), i3, [Out (Plain y)])"
    using show_bulk [OF e2(1)] assms(4) by auto
  with e e2(2) show ?thesis by auto
qed

lemma cli_keys_shift_witness:
  "\<exists>s1 s2. execute_command ''KEYS'' \<lparr>incoming = [Chunk (''*2'' @ CRLF @ wire_lines (array_lines [''a''])),
       Chunk (wire_lines (array_lines [''b'']))] @ [], outgoing = [], broken = None\<rparr> = (Inr (), s1, numbered 0 (array_lines [''a''])) \<and>
     execute_command ''PING'' s1 = (Inr (), s2, [Out (Plain ''b'')])"
proof (rule cli_keys_shift)
  show "encode (\<lambda>v. None) (Array (map Bulk ([''a''] @ ''b'' # []))) =
      (''*2'' @ CRLF @ wire_lines (array_lines [''a''])) @ wire_lines (array_lines (''b'' # []))"
    unfolding encode_bulk_array by (simp add: show_nat.simps digit_two)
qed (simp_all add: clean_def utf8_chunk_ascii byte_def)

text \<open>
  The client goes on when its password is refused: the refusal is shown, and behind it that the client
  is authenticated.
\<close>

theorem cli_auth_refused:
  assumes "broken s = None" and "password h = Some expected" and "cli_password a = Some pwd" and "pwd \<noteq> expected"
    and "delivers [] (incoming s) (encode to_string (fst (handle_auth h pwd))) later" and "\<not> cli_quiet a"
  shows "snd (handle_auth h pwd) = h \<and>
    authenticate a s = (Inr (), s\<lparr>outgoing := outgoing s @ ''AUTH '' @ pwd @ [LF], incoming := later\<rparr>,
      [Out (Red ''-ERR WRONGPASS Invalid password''), Out (Green ''Authenticated.'')])"
proof -
  have r: "handle_auth h pwd = (Error ''WRONGPASS'' ''Invalid password'', h)"
    using assms(2,4) by (simp add: handle_auth_def response_error_def)
  have "one_line to_string (Error ''WRONGPASS'' ''Invalid password'')"
    by (simp add: clean_def utf8_chunk_ascii byte_def)
  from cli_executes [OF assms(1) this, of later "''AUTH '' @ pwd"] assms(5) r assms(3,6)
  show ?thesis by (simp add: authenticate_def)
qed

lemma cli_auth_refused_witness:
  "snd (authenticate \<lparr>cli_host = ''localhost'', cli_port = 6380, cli_password = Some ''guess'', cli_command = None, cli_quiet = False\<rparr>
       \<lparr>incoming = [Chunk (encode (\<lambda>v. None) (fst (handle_auth (handler_with_auth ''c'' ''secret'') ''guess'')))], outgoing = [], broken = None\<rparr>) =
     (\<lparr>incoming = [], outgoing = ''AUTH guess'' @ [LF], broken = None\<rparr>,
      [Out (Red ''-ERR WRONGPASS Invalid password''), Out (Green ''Authenticated.'')])"
proof -
  let ?a = "\<lparr>cli_host = ''localhost'', cli_port = 6380, cli_password = Some ''guess'', cli_command = None, cli_quiet = False\<rparr>"
  let ?h = "handler_with_auth ''c'' ''secret''"
  let ?e = "encode (\<lambda>v. None) (fst (handle_auth ?h ''guess''))"
  let ?s = "\<lparr>incoming = [Chunk ?e], outgoing = [], broken = None\<rparr>"
  have p: "password ?h = Some ''secret''" by (simp add: handler_with_auth_def)
  have "?e \<noteq> []" using p by (simp add: handle_auth_def response_error_def encode_def)
  then have d: "delivers [] (incoming ?s) ?e []"
    unfolding delivers_def by (intro exI [of _ "[?e]"]) simp
  have "broken ?s = None" "cli_password ?a = Some ''guess''" "''guess'' \<noteq> ''secret''" "\<not> cli_quiet ?a" by simp_all
  from cli_auth_refused [OF this(1) p this(2,3) d this(4)] show ?thesis by simp
qed

text \<open>
  After an error the client connects again but does not give the password again: what it
  writes first on the new connection is the next command typed.
\<close>

theorem cli_reconnect_forgets_password:
  assumes "execute_command (trim l) s = (Inl e, s1, es)" and "trim l \<noteq> []" and "to_uppercase (trim l) \<notin> {''QUIT'', ''EXIT'', ''HELP'', ''CLEAR''}"
    and "broken n = None" and "one_line to_string r" and "delivers [] (incoming n) (encode to_string r) later"
    and "trim l' \<noteq> []" and "to_uppercase (trim l') \<notin> {''QUIT'', ''EXIT'', ''HELP'', ''CLEAR''}"
  shows "cli_loop [Line l, Line l'] [Inr n] s = (n\<lparr>outgoing := outgoing n @ trim l' @ [LF], incoming := later\<rparr>,
    es @ [ErrOut ''Error:'' e, Out (Yellow ''Reconnected.''), Out (display to_string r)])"
  using assms(1-3,7,8) cli_executes [OF assms(4-6), of "trim l'"] by (simp add: Let_def)

lemma cli_reconnect_forgets_password_witness:
  "snd (cli_loop [Line ''PING'', Line ''PING''] [Inr \<lparr>incoming = [Chunk (''+PONG'' @ CRLF)], outgoing = [], broken = None\<rparr>]
       \<lparr>incoming = [ReadFails ''timed out''], outgoing = [], broken = None\<rparr>) =
     [ErrOut ''Error:'' ''timed out'', Out (Yellow ''Reconnected.''), Out (Green ''PONG'')]"
proof -
  let ?s = "\<lparr>incoming = [ReadFails ''timed out''], outgoing = [], broken = None\<rparr>"
  let ?n = "\<lparr>incoming = [Chunk (''+PONG'' @ CRLF)], outgoing = [], broken = None\<rparr>"
  have t: "trim ''PING'' = ''PING''" by (rule trim_idle) (simp_all add: byte_def)
  obtain s1 where e: "execute_command (trim ''PING'') ?s = (Inl ''timed out'', s1, [])"
    by (simp add: execute_command_def read_line.simps)
  have u: "to_uppercase (trim ''PING'') \<notin> {''QUIT'', ''EXIT'', ''HELP'', ''CLEAR''}"
    unfolding t by (simp add: to_uppercase_ascii byte_def upper_char_def)
  have d: "delivers [] (incoming ?n) (encode (\<lambda>v. None) Pong) []"
    unfolding delivers_def by (intro exI [of _ "[''+PONG'' @ CRLF]"]) (simp add: encode_def)
  have "broken ?n = None" "one_line (\<lambda>v. None) Pong" "trim ''PING'' \<noteq> []" by (simp_all add: t)
  from cli_reconnect_forgets_password [OF e this(3) u this(1,2) d this(3) u] show ?thesis by simp
qed

end
