(* ===== verification/Transport.thy ===== *)
theory Transport imports Handler Storage begin

section \<open>The TCP and WebSocket servers (ussl-transport: tcp.rs, websocket.rs)\<close>

text \<open>
  A server accepts connections and serves each one in its own task. The task of a connection owns its
  handler and its receiver of updates; it waits for whatever comes first, bytes from the client
  or an update, and handles it to the end. What the network does is given from outside: the peer's
  address, whether a handshake succeeds, what a read delivers, and which write is the first to fail
  (\<open>None\<close> when all succeed).

  A connection ends in one of two ways: \<open>Closed\<close> after the handler's cleanup, or \<open>Aborted\<close> when an error
  leaves the function early, without the cleanup.
\<close>

datatype conn_state = Open | Closed | Aborted

text \<open>What a task writes: bytes on TCP, messages on a WebSocket.\<close>

datatype frame = Raw bytes | TextMessage bytes | BinaryMessage bytes | PongMessage bytes

record connection =
  conn_handler :: handler
  conn_position :: nat
  conn_out :: "frame list"
  conn_state :: conn_state

text \<open>
  \<open>TcpServer\<close> and \<open>WebSocketServer\<close> have the same fields. The manager and the address are not in the
  record, \<open>ep_storage\<close> tells whether there is a storage backend, \<open>ep_tls\<close> whether TLS is configured.
\<close>

record endpoint =
  client_counter :: u64
  ep_password :: "string option"
  ep_storage :: bool
  ep_rate_limit :: "rate_limit_config option"
  ep_tls :: bool

definition tcp_server_new :: endpoint where
  "tcp_server_new = \<lparr>client_counter = 0, ep_password = None, ep_storage = False, ep_rate_limit = None, ep_tls = False\<rparr>"

definition tcp_with_password :: "string \<Rightarrow> endpoint" where
  "tcp_with_password pwd =
     \<lparr>client_counter = 0, ep_password = Some pwd, ep_storage = False, ep_rate_limit = None, ep_tls = False\<rparr>"

definition tcp_with_storage :: "endpoint \<Rightarrow> endpoint" where
  "tcp_with_storage ep = ep\<lparr>ep_storage := True\<rparr>"

definition tcp_with_rate_limit :: "rate_limit_config \<Rightarrow> endpoint \<Rightarrow> endpoint" where
  "tcp_with_rate_limit c ep = ep\<lparr>ep_rate_limit := Some c\<rparr>"

definition tcp_with_tls :: "endpoint \<Rightarrow> endpoint" where
  "tcp_with_tls ep = ep\<lparr>ep_tls := True\<rparr>"

definition tcp_is_tls_enabled :: "endpoint \<Rightarrow> bool" where
  "tcp_is_tls_enabled ep = ep_tls ep"

definition ws_server_new :: endpoint where
  "ws_server_new = \<lparr>client_counter = 0, ep_password = None, ep_storage = False, ep_rate_limit = None, ep_tls = False\<rparr>"

definition ws_with_password :: "string \<Rightarrow> endpoint" where
  "ws_with_password pwd =
     \<lparr>client_counter = 0, ep_password = Some pwd, ep_storage = False, ep_rate_limit = None, ep_tls = False\<rparr>"

definition ws_with_storage :: "endpoint \<Rightarrow> endpoint" where
  "ws_with_storage ep = ep\<lparr>ep_storage := True\<rparr>"

definition ws_with_rate_limit :: "rate_limit_config \<Rightarrow> endpoint \<Rightarrow> endpoint" where
  "ws_with_rate_limit c ep = ep\<lparr>ep_rate_limit := Some c\<rparr>"

definition ws_with_tls :: "endpoint \<Rightarrow> endpoint" where
  "ws_with_tls ep = ep\<lparr>ep_tls := True\<rparr>"

definition ws_is_tls_enabled :: "endpoint \<Rightarrow> bool" where
  "ws_is_tls_enabled ep = ep_tls ep"

subsection \<open>Accepting\<close>

text \<open>
  The first lines of the two connection functions: the handler is made, with the password, the
  storage and the limiter the server has, and subscribed to the updates from here on.
\<close>

definition make_handler :: "nat \<Rightarrow> endpoint \<Rightarrow> string \<Rightarrow> handler" where
  "make_handler now ep cid =
     (let h = (case ep_password ep of Some pwd \<Rightarrow> handler_with_auth cid pwd | None \<Rightarrow> handler_new cid);
          h = (if ep_storage ep then with_storage h else h)
      in (case ep_rate_limit ep of Some c \<Rightarrow> with_rate_limit now c h | None \<Rightarrow> h))"

definition open_connection :: "nat \<Rightarrow> endpoint \<Rightarrow> string \<Rightarrow> 'y server \<Rightarrow> connection \<times> 'y server" where
  "open_connection now ep cid s =
     (\<lparr>conn_handler = make_handler now ep cid, conn_position = length (sent (s_manager s)), conn_out = [],
       conn_state = Open\<rparr>, subscribe_updates s)"

text \<open>
  The client is numbered when it is accepted; the task then makes the TLS handshake, where TLS is
  configured, and the WebSocket upgrade. When one fails there is no connection.
\<close>

definition tcp_accept ::
  "string \<Rightarrow> bool \<Rightarrow> nat \<Rightarrow> endpoint \<Rightarrow> 'y server \<Rightarrow> connection option \<times> endpoint \<times> 'y server" where
  "tcp_accept peer handshake now ep s =
     (let cid = ''tcp:'' @ peer @ '':'' @ show_u64 (client_counter ep);
          ep' = ep\<lparr>client_counter := client_counter ep + 1\<rparr>
      in if ep_tls ep \<and> \<not> handshake then (None, ep', s)
         else (case open_connection now ep cid s of (c, s') \<Rightarrow> (Some c, ep', s')))"

definition ws_protocol :: "endpoint \<Rightarrow> string" where
  "ws_protocol ep = (if ep_tls ep then ''wss'' else ''ws'')"

definition ws_accept ::
  "string \<Rightarrow> bool \<Rightarrow> bool \<Rightarrow> nat \<Rightarrow> endpoint \<Rightarrow> 'y server \<Rightarrow> connection option \<times> endpoint \<times> 'y server" where
  "ws_accept peer handshake upgrade now ep s =
     (let cid = ws_protocol ep @ '':'' @ peer @ '':'' @ show_u64 (client_counter ep);
          ep' = ep\<lparr>client_counter := client_counter ep + 1\<rparr>
      in if ep_tls ep \<and> \<not> handshake then (None, ep', s)
         else if \<not> upgrade then (None, ep', s)
         else (case open_connection now ep cid s of (c, s') \<Rightarrow> (Some c, ep', s')))"

subsection \<open>Ending\<close>

text \<open>
  When a task ends, its receiver is dropped; the updates have one receiver less.
\<close>

definition drop_receiver :: "'y server \<Rightarrow> 'y server" where
  "drop_receiver s = s\<lparr>s_manager := (s_manager s)\<lparr>receivers := receivers (s_manager s) - 1\<rparr>\<rparr>"

definition leave :: "conn_state \<Rightarrow> connection \<Rightarrow> 'y server \<Rightarrow> connection \<times> 'y server" where
  "leave st c s =
     (c\<lparr>conn_state := st\<rparr>,
      (case st of
         Open \<Rightarrow> s
       | Closed \<Rightarrow> drop_receiver (cleanup (conn_handler c) s)
       | Aborted \<Rightarrow> drop_receiver s))"

definition is_goodbye :: "response \<Rightarrow> bool" where
  "is_goodbye r \<longleftrightarrow> r = Ok (Some ''Goodbye'')"

text \<open>
  Writing the responses of one input: each is encoded and written; a failing write aborts, the
  goodbye of QUIT closes, where the sender looks for it.
\<close>

fun write_responses ::
  "(response \<Rightarrow> frame) \<Rightarrow> (response \<Rightarrow> bool) \<Rightarrow> nat option \<Rightarrow> response list \<Rightarrow> frame list \<times> conn_state" where
  "write_responses enc quits fails [] = ([], Open)"
| "write_responses enc quits fails (r # rs) =
     (if fails = Some 0 then ([], Aborted)
      else if quits r then ([enc r], Closed)
      else (case write_responses enc quits (map_option (\<lambda>n. n - 1) fails) rs of
              (out, st) \<Rightarrow> (enc r # out, st)))"

definition respond ::
  "(response \<Rightarrow> frame) \<Rightarrow> (response \<Rightarrow> bool) \<Rightarrow> nat option \<Rightarrow> 'y libs \<Rightarrow> (nat \<Rightarrow> clocks) \<Rightarrow> bytes \<Rightarrow> connection \<Rightarrow>
     'y server \<Rightarrow> (connection \<times> 'y server) option" where
  "respond enc quits fails L cks data c s =
     (case process L cks data (conn_handler c) s of
        None \<Rightarrow> None
      | Some (rs, h, s') \<Rightarrow>
          (case write_responses enc quits fails rs of
             (out, st) \<Rightarrow> Some (leave st (c\<lparr>conn_handler := h, conn_out := conn_out c @ out\<rparr>) s')))"

subsection \<open>TCP connections\<close>

text \<open>One read gives at most 4096 bytes; none mean the end of the stream.\<close>

definition READ_SIZE :: nat where
  "READ_SIZE = 4096"

datatype tcp_input = TcpRead bytes | TcpReadError

fun read_size :: "tcp_input \<Rightarrow> nat" where
  "read_size (TcpRead data) = length data"
| "read_size TcpReadError = 0"

definition tcp_frame :: "(val \<Rightarrow> string option) \<Rightarrow> response \<Rightarrow> frame" where
  "tcp_frame to_string r = Raw (encode to_string r)"

definition tcp_read ::
  "'y libs \<Rightarrow> (val \<Rightarrow> string option) \<Rightarrow> (nat \<Rightarrow> clocks) \<Rightarrow> nat option \<Rightarrow> tcp_input \<Rightarrow> connection \<Rightarrow> 'y server \<Rightarrow>
     (connection \<times> 'y server) option" where
  "tcp_read L to_string cks fails i c s =
     (case i of
        TcpRead data \<Rightarrow>
          if data = [] then Some (leave Closed c s)
          else respond (tcp_frame to_string) is_goodbye fails L cks data c s
      | TcpReadError \<Rightarrow> Some (leave Closed c s))"

text \<open>
  An update from the receiver: \<open>Inr\<close> the update, \<open>Inl\<close> the number of updates missed, with the new position of
  the receiver. It is sent on when the connection has subscribed to its document. A failing write ends
  the loop, with the cleanup.
\<close>

definition tcp_update ::
  "(val \<Rightarrow> string option) \<Rightarrow> bool \<Rightarrow> nat + delta \<Rightarrow> nat \<Rightarrow> connection \<Rightarrow> 'y server \<Rightarrow> connection \<times> 'y server" where
  "tcp_update to_string ok u pos c s =
     (let c' = c\<lparr>conn_position := pos\<rparr> in
      case u of
        Inr dl \<Rightarrow>
          if matches_subscription (conn_handler c) dl
          then (if ok then (c'\<lparr>conn_out := conn_out c @ [tcp_frame to_string (Delta (delta_version dl) (delta_data dl))]\<rparr>, s)
                else leave Closed c' s)
          else (c', s)
      | Inl missed \<Rightarrow> (c', s))"

subsection \<open>WebSocket connections\<close>

datatype ws_input =
    WsText bytes | WsBinary bytes | WsPing bytes | WsClose | WsOther | WsEnd | WsReadError

definition ws_text_frame :: "(val \<Rightarrow> string option) \<Rightarrow> response \<Rightarrow> frame" where
  "ws_text_frame to_string r = TextMessage (from_utf8_lossy (encode to_string r))"

definition ws_binary_frame :: "(val \<Rightarrow> string option) \<Rightarrow> response \<Rightarrow> frame" where
  "ws_binary_frame to_string r = BinaryMessage (encode to_string r)"

definition ws_line :: "bytes \<Rightarrow> bytes" where
  "ws_line text = (if suffix [CHR 0x0A] text then text else text @ CRLF)"

definition ws_read ::
  "'y libs \<Rightarrow> (val \<Rightarrow> string option) \<Rightarrow> (nat \<Rightarrow> clocks) \<Rightarrow> nat option \<Rightarrow> ws_input \<Rightarrow> connection \<Rightarrow> 'y server \<Rightarrow>
     (connection \<times> 'y server) option" where
  "ws_read L to_string cks fails i c s =
     (case i of
        WsText text \<Rightarrow> respond (ws_text_frame to_string) is_goodbye fails L cks (ws_line text) c s
      | WsBinary data \<Rightarrow> respond (ws_binary_frame to_string) (\<lambda>r. False) fails L cks data c s
      | WsPing data \<Rightarrow>
          Some (if fails = Some 0 then leave Aborted c s else (c\<lparr>conn_out := conn_out c @ [PongMessage data]\<rparr>, s))
      | WsClose \<Rightarrow> Some (leave Closed c s)
      | WsEnd \<Rightarrow> Some (leave Closed c s)
      | WsOther \<Rightarrow> Some (c, s)
      | WsReadError \<Rightarrow> Some (leave Closed c s))"

definition ws_update ::
  "(val \<Rightarrow> string option) \<Rightarrow> bool \<Rightarrow> nat + delta \<Rightarrow> nat \<Rightarrow> connection \<Rightarrow> 'y server \<Rightarrow> connection \<times> 'y server" where
  "ws_update to_string ok u pos c s =
     (let c' = c\<lparr>conn_position := pos\<rparr> in
      case u of
        Inr dl \<Rightarrow>
          if matches_subscription (conn_handler c) dl
          then (if ok then (c'\<lparr>conn_out := conn_out c @ [ws_text_frame to_string (Delta (delta_version dl) (delta_data dl))]\<rparr>, s)
                else leave Closed c' s)
          else (c', s)
      | Inl missed \<Rightarrow> (c', s))"

subsection \<open>The whole server\<close>

text \<open>
  Everything a server process holds while it runs: the shared state, the two listeners, the connections
  ever accepted, and the storage. \<open>env\<close> is what does not change: the libraries, the printer of
  values, the receiving end of the update channel (\<open>None\<close>: nothing to receive), and the storage's store.
\<close>

datatype transport = Tcp | Ws

record ('y, 'd) world =
  w_server :: "'y server"
  w_tcp :: endpoint
  w_ws :: endpoint
  w_conns :: "(transport \<times> connection) list"
  w_storage :: 'd

record ('y, 'd) env =
  e_libs :: "'y libs"
  e_to_string :: "val \<Rightarrow> string option"
  e_recv :: "delta list \<Rightarrow> nat \<Rightarrow> ((nat + delta) \<times> nat) option"
  e_store :: "document_id \<Rightarrow> document_meta \<Rightarrow> bytes \<Rightarrow> 'd \<Rightarrow> (storage_error + unit) \<times> 'd"

definition put_conn :: "nat \<Rightarrow> transport \<Rightarrow> connection \<times> 'y server \<Rightarrow> ('y, 'd) world \<Rightarrow> ('y, 'd) world" where
  "put_conn i t r w = w\<lparr>w_conns := (w_conns w)[i := (t, fst r)], w_server := snd r\<rparr>"

definition add_conn :: "transport \<Rightarrow> connection option \<Rightarrow> ('y, 'd) world \<Rightarrow> ('y, 'd) world" where
  "add_conn t c w = (case c of None \<Rightarrow> w | Some c \<Rightarrow> w\<lparr>w_conns := w_conns w @ [(t, c)]\<rparr>)"

definition open_conn :: "('y, 'd) world \<Rightarrow> nat \<Rightarrow> transport \<Rightarrow> connection \<Rightarrow> bool" where
  "open_conn w i t c \<longleftrightarrow> i < length (w_conns w) \<and> w_conns w ! i = (t, c) \<and> conn_state c = Open"

text \<open>A spawned store runs at any time after it was spawned, in any order with the others.\<close>

definition run_store :: "('y, 'd) env \<Rightarrow> nat \<Rightarrow> ('y, 'd) world \<Rightarrow> ('y, 'd) world" where
  "run_store E k w =
     (case spawned (w_server w) ! k of
        (i, m, d) \<Rightarrow> w\<lparr>w_storage := snd (e_store E i m d (w_storage w)),
          w_server := (w_server w)\<lparr>spawned := take k (spawned (w_server w)) @ drop (Suc k) (spawned (w_server w))\<rparr>\<rparr>)"

text \<open>The background task of the daemon collects expired documents.\<close>

definition run_gc :: "(string \<Rightarrow> u64) \<Rightarrow> ('y, 'd) world \<Rightarrow> ('y, 'd) world" where
  "run_gc clock w = w\<lparr>w_server := (w_server w)\<lparr>s_manager := snd (gc clock (s_manager (w_server w)))\<rparr>\<rparr>"

inductive world_step :: "('y, 'd) env \<Rightarrow> ('y, 'd) world \<Rightarrow> ('y, 'd) world \<Rightarrow> bool" for E where
  tcp_accept: "tcp_accept peer handshake now (w_tcp w) (w_server w) = (c, ep, s) \<Longrightarrow>
    world_step E w (add_conn Tcp c (w\<lparr>w_tcp := ep, w_server := s\<rparr>))"
| ws_accept: "ws_accept peer handshake upgrade now (w_ws w) (w_server w) = (c, ep, s) \<Longrightarrow>
    world_step E w (add_conn Ws c (w\<lparr>w_ws := ep, w_server := s\<rparr>))"
| tcp_read: "open_conn w i Tcp c \<Longrightarrow> read_size inp \<le> READ_SIZE \<Longrightarrow>
    tcp_read (e_libs E) (e_to_string E) cks fails inp c (w_server w) = Some r \<Longrightarrow>
    world_step E w (put_conn i Tcp r w)"
| tcp_update: "open_conn w i Tcp c \<Longrightarrow>
    e_recv E (sent (s_manager (w_server w))) (conn_position c) = Some (u, pos) \<Longrightarrow>
    world_step E w (put_conn i Tcp (tcp_update (e_to_string E) ok u pos c (w_server w)) w)"
| ws_read: "open_conn w i Ws c \<Longrightarrow>
    ws_read (e_libs E) (e_to_string E) cks fails wsi c (w_server w) = Some r \<Longrightarrow>
    world_step E w (put_conn i Ws r w)"
| ws_update: "open_conn w i Ws c \<Longrightarrow>
    e_recv E (sent (s_manager (w_server w))) (conn_position c) = Some (u, pos) \<Longrightarrow>
    world_step E w (put_conn i Ws (ws_update (e_to_string E) ok u pos c (w_server w)) w)"
| store: "k < length (spawned (w_server w)) \<Longrightarrow> world_step E w (run_store E k w)"
| gc: "world_step E w (run_gc clock w)"

definition world_start :: "endpoint \<Rightarrow> endpoint \<Rightarrow> 'd \<Rightarrow> ('y, 'd) world" where
  "world_start tcp ws st = \<lparr>w_server = \<lparr>s_manager = manager_new, spawned = []\<rparr>, w_tcp = tcp, w_ws = ws,
     w_conns = [], w_storage = st\<rparr>"

end
