(* ===== verification/TransportLaws.thy ===== *)
theory TransportLaws imports Transport HandlerFrame begin

section \<open>Connections and the running server\<close>

text \<open>
  What one input does to a connection and to the shared state, and what holds in every state a running
  server reaches, however the connections, the storage tasks and the garbage collector are interleaved.
\<close>

lemma presence_clients_remove [simp]: "presence_clients (remove_presence cid m) = presence_clients m - {cid}"
  by (auto simp: presence_clients_def clients_in_def remove_presence_def)

lemma presence_clients_subscribe [simp]: "presence_clients (subscribe m) = presence_clients m"
  by (simp add: presence_clients_def subscribe_def)

lemma drop_receiver_manager [simp]:
  "manager_ok (s_manager (drop_receiver s)) = manager_ok (s_manager s)"
  "presence_clients (s_manager (drop_receiver s)) = presence_clients (s_manager s)"
  "documents (s_manager (drop_receiver s)) = documents (s_manager s)"
  "sent (s_manager (drop_receiver s)) = sent (s_manager s)" "spawned (drop_receiver s) = spawned s"
  by (simp_all add: drop_receiver_def manager_ok_def presence_clients_def)

lemma cleanup_manager [simp]:
  "manager_ok (s_manager s) \<Longrightarrow> manager_ok (s_manager (cleanup h s))"
  "presence_clients (s_manager (cleanup h s)) = presence_clients (s_manager s) - {client_id h}"
  "documents (s_manager (cleanup h s)) = documents (s_manager s)"
  "sent (s_manager (cleanup h s)) = sent (s_manager s)" "spawned (cleanup h s) = spawned s"
  by (simp_all add: cleanup_def manager_ok_remove_presence) (simp_all add: remove_presence_def)

text \<open>
  What serving one input keeps: the manager's invariant, the client's name; the client's presence is the
  only one that may appear, and it is gone when the connection has closed.
\<close>

definition served :: "connection \<Rightarrow> 'y server \<Rightarrow> connection \<times> 'y server \<Rightarrow> bool" where
  "served c s r \<longleftrightarrow> (manager_ok (s_manager s) \<longrightarrow> manager_ok (s_manager (snd r))) \<and>
     client_id (conn_handler (fst r)) = client_id (conn_handler c) \<and>
     presence_clients (s_manager (snd r)) \<subseteq> insert (client_id (conn_handler c)) (presence_clients (s_manager s)) \<and>
     (conn_state (fst r) = Closed \<longrightarrow> client_id (conn_handler c) \<notin> presence_clients (s_manager (snd r)))"

lemma served_leave:
  "client_id (conn_handler c') = client_id (conn_handler c) \<Longrightarrow>
   (manager_ok (s_manager s) \<Longrightarrow> manager_ok (s_manager s')) \<Longrightarrow>
   presence_clients (s_manager s') \<subseteq> insert (client_id (conn_handler c)) (presence_clients (s_manager s)) \<Longrightarrow>
   served c s (leave st c' s')"
  by (cases st) (auto simp: served_def leave_def)

lemma served_respond:
  assumes "respond enc quits fails L cks data c s = Some r"
  shows "served c s r"
proof -
  obtain rs h s' out st where p: "process L cks data (conn_handler c) s = Some (rs, h, s')"
    and w: "write_responses enc quits fails rs = (out, st)"
    and r: "r = leave st (c\<lparr>conn_handler := h, conn_out := conn_out c @ out\<rparr>) s'"
    using assms by (auto simp: respond_def split: option.splits prod.splits)
  from process_frame [OF p] process_steps [OF p] show ?thesis
    unfolding r own_presence_def srv_steps_def
    by (intro served_leave) (auto intro: mgr.run_inv)
qed

lemma served_refl: "conn_state c = Open \<Longrightarrow> served c s (c, s)"
  by (auto simp: served_def)

lemma tcp_read_served:
  "tcp_read L to_string cks fails inp c s = Some r \<Longrightarrow> served c s r"
  by (auto simp: tcp_read_def intro: served_respond served_leave split: tcp_input.splits if_splits)

lemma ws_read_served:
  "ws_read L to_string cks fails inp c s = Some r \<Longrightarrow> conn_state c = Open \<Longrightarrow> served c s r"
  by (auto simp: ws_read_def served_def [of _ _ "(c\<lparr>conn_out := x\<rparr>, s)" for x] intro: served_respond served_leave served_refl
      split: ws_input.splits if_splits)

lemma update_served:
  "conn_state c = Open \<Longrightarrow> served c s (tcp_update to_string ok u pos c s)"
  "conn_state c = Open \<Longrightarrow> served c s (ws_update to_string ok u pos c s)"
  by (auto simp: tcp_update_def ws_update_def Let_def intro!: served_leave split: sum.split)
     (auto simp: served_def)

subsection \<open>The invariant of the running server\<close>

text \<open>The clients whose connections have not gone through the cleanup.\<close>

definition present_clients :: "(transport \<times> connection) list \<Rightarrow> string set" where
  "present_clients cs = {client_id (conn_handler c) | t c. (t, c) \<in> set cs \<and> conn_state c \<noteq> Closed}"

definition world_ok :: "('y, 'd) world \<Rightarrow> bool" where
  "world_ok w \<longleftrightarrow> manager_ok (s_manager (w_server w)) \<and>
     presence_clients (s_manager (w_server w)) \<subseteq> present_clients (w_conns w)"

lemma present_clients_append [simp]: "present_clients (cs @ ds) = present_clients cs \<union> present_clients ds"
  by (auto simp: present_clients_def)

lemma world_ok_put:
  assumes "world_ok w" and "open_conn w i t c" and "served c (w_server w) r"
  shows "world_ok (put_conn i t r w)"
proof -
  let ?id = "client_id (conn_handler c)"
  have i: "i < length (w_conns w)" "w_conns w ! i = (t, c)" using assms(2) by (auto simp: open_conn_def)
  have keep: "x \<in> present_clients ((w_conns w)[i := (t, fst r)])" if "x \<in> present_clients (w_conns w)" and "x \<noteq> ?id" for x
  proof -
    from that obtain u d where d: "(u, d) \<in> set (w_conns w)" "conn_state d \<noteq> Closed" "x = client_id (conn_handler d)"
      by (auto simp: present_clients_def)
    then obtain j where j: "j < length (w_conns w)" "w_conns w ! j = (u, d)" by (meson in_set_conv_nth)
    with d(3) that(2) i have "j \<noteq> i" by auto
    with j have "(u, d) \<in> set ((w_conns w)[i := (t, fst r)])"
      by (metis length_list_update nth_list_update_neq nth_mem)
    with d show ?thesis by (auto simp: present_clients_def)
  qed
  have own: "?id \<in> present_clients ((w_conns w)[i := (t, fst r)])" if "conn_state (fst r) \<noteq> Closed"
  proof -
    have "client_id (conn_handler (fst r)) = ?id" using assms(3) by (simp add: served_def)
    with that set_update_memI [OF i(1), of "(t, fst r)"] show ?thesis
      unfolding present_clients_def by (metis (mono_tags, lifting) mem_Collect_eq)
  qed
  have "presence_clients (s_manager (snd r)) \<subseteq> present_clients ((w_conns w)[i := (t, fst r)])"
    using assms(1,3) keep own by (auto simp: world_ok_def served_def)
  with assms(1,3) show ?thesis by (simp add: world_ok_def put_conn_def served_def)
qed

lemma open_connection_server:
  "open_connection now ep cid s = (c, s') \<Longrightarrow> manager_ok (s_manager s') = manager_ok (s_manager s) \<and>
     presence_clients (s_manager s') = presence_clients (s_manager s)"
  by (auto simp: open_connection_def subscribe_updates_def manager_ok_def subscribe_def presence_clients_def)

lemma accept_server:
  "tcp_accept peer hs now ep s = (c, ep', s') \<Longrightarrow> manager_ok (s_manager s') = manager_ok (s_manager s) \<and>
     presence_clients (s_manager s') = presence_clients (s_manager s)"
  "ws_accept peer hs up now ep s = (c, ep', s') \<Longrightarrow> manager_ok (s_manager s') = manager_ok (s_manager s) \<and>
     presence_clients (s_manager s') = presence_clients (s_manager s)"
  by (auto simp: tcp_accept_def ws_accept_def Let_def dest: open_connection_server split: if_splits prod.splits)

lemma world_ok_add: "world_ok w' \<Longrightarrow> world_ok (add_conn t c w')"
  by (auto simp: add_conn_def world_ok_def split: option.splits)

lemma clients_in_remove: "clients_in (fold dm_remove ks l) \<subseteq> clients_in l"
proof -
  have "clients_in (dm_remove k l) \<subseteq> clients_in l" for k l
    by (induction l) (auto simp: clients_in_def)
  then show ?thesis by (induction ks arbitrary: l) (simp, fastforce)
qed

lemma world_step_ok: "world_step E w w' \<Longrightarrow> world_ok w \<Longrightarrow> world_ok w'"
proof (induction rule: world_step.induct)
  case (tcp_accept peer handshake now w c ep s)
  then show ?case by (intro world_ok_add) (auto simp: world_ok_def dest!: accept_server)
next
  case (ws_accept peer handshake upgrade now w c ep s)
  then show ?case by (intro world_ok_add) (auto simp: world_ok_def dest!: accept_server)
next
  case (gc w clock)
  have "manager_ok (snd (gc clock (s_manager (w_server w))))"
    using gc manager_step_ok [OF manager_step.gc [OF surjective_pairing]] by (auto simp: world_ok_def)
  moreover have "presence_clients (snd (gc clock (s_manager (w_server w)))) \<subseteq> presence_clients (s_manager (w_server w))"
    using clients_in_remove by (simp add: gc_def Let_def presence_clients_def)
  ultimately show ?case using gc by (auto simp: world_ok_def run_gc_def)
next
  case (store k w)
  then show ?case by (simp add: world_ok_def run_store_def split: prod.split)
next
  case (tcp_read w i c inp cks fails r)
  from world_ok_put [OF tcp_read(4,1) tcp_read_served [OF tcp_read(3)]] show ?case .
next
  case (tcp_update w i c u pos ok)
  then show ?case by (auto intro!: world_ok_put update_served simp: open_conn_def)
next
  case (ws_read w i c cks fails wsi r)
  then show ?case by (auto intro!: world_ok_put ws_read_served simp: open_conn_def)
next
  case (ws_update w i c u pos ok)
  then show ?case by (auto intro!: world_ok_put update_served simp: open_conn_def)
qed

interpretation world: invariant_system "world_step E" world_ok for E
  by unfold_locales (rule world_step_ok)

lemma world_ok_start: "world_ok (world_start tcp ws st)"
  by (simp add: world_ok_def world_start_def manager_ok_new) (simp add: presence_clients_def clients_in_def manager_new_def)

definition demo_env :: "(string, memory_storage) env" where
  "demo_env = \<lparr>e_libs = demo_libs, e_to_string = (\<lambda>v. None),
     e_recv = (\<lambda>log pos. if pos < length log then Some (Inr (log ! pos), Suc pos) else None),
     e_store = memory_store \<lparr>to_vec = (\<lambda>m. Inr []), from_slice = (\<lambda>b. Inl [])\<rparr>\<rparr>"


text \<open>A connection accepted by a server without password, storage, limits or TLS.\<close>

lemma tcp_accept_plain:
  "tcp_accept ''p'' True 0 tcp_server_new s =
     (Some \<lparr>conn_handler = handler_new ''tcp:p:0'', conn_position = length (sent (s_manager s)), conn_out = [], conn_state = Open\<rparr>,
      tcp_server_new\<lparr>client_counter := 1\<rparr>, subscribe_updates s)"
  by (simp add: tcp_accept_def tcp_server_new_def open_connection_def make_handler_def show_u64_def show_nat.simps digit_simps)


subsection \<open>How a connection ends\<close>



lemma write_responses_all:
  "write_responses enc quits None rs =
     (if \<exists>r\<in>set rs. quits r
      then (map enc (takeWhile (\<lambda>r. \<not> quits r) rs) @ [enc (hd (dropWhile (\<lambda>r. \<not> quits r) rs))], Closed)
      else (map enc rs, Open))"
  by (induction rs) auto

lemma process_quit_ping:
  "process L cks (''QUIT'' @ [CR, LF] @ ''PING'' @ [CR, LF]) (handler_new cid) s =
     Some ([Ok (Some ''Goodbye''), Pong], handler_new cid, s)"
proof -
  let ?cs = "[cmd_quit, cmd_ping]" and ?j = "\<lambda>j. []" and ?v = "\<lambda>v. []"
  have ok: "\<forall>c\<in>set ?cs. command_ok (l_from_str L) ?j ?v c"
    by (simp add: command_ok_def cmd_quit_def cmd_ping_def)
  have r: "concat (map (render_line True ?j ?v) ?cs) = ''QUIT'' @ [CR, LF] @ ''PING'' @ [CR, LF]"
    by (simp add: render_line_def render_command_def cmd_quit_def cmd_ping_def)
  have "run_commands L cks 0 ?cs (handler_new cid) s = Some ([Ok (Some ''Goodbye''), Pong], handler_new cid, s)"
    by (simp add: process_command_def ask_limiter_def limit_exempt_def cmd_quit_def cmd_ping_def
        handle_command_def ok_with_message_def)
  with process_loop_commands [OF ok, where cks = cks and n = 0 and h = "handler_new cid" and s = s and e = True]
  have "process_loop L cks 0 ((handler_new cid)\<lparr>h_parser := \<lparr>buffer = ''QUIT'' @ [CR, LF] @ ''PING'' @ [CR, LF]\<rparr>\<rparr>) s =
      Some ([Ok (Some ''Goodbye''), Pong], handler_new cid, s)"
    unfolding r by (simp add: handler_new_def parser_new_def)
  then show ?thesis
    by (simp add: process_def feed_def handler_new_def parser_new_def MAX_MESSAGE_SIZE_def)
qed

text \<open>
  C8. One read of a TCP connection whose writes succeed: without a QUIT in it every response is
  written, in order, and the connection stays open. With one, the responses up to the goodbye are
  written, the presence is removed and the connection closed; the commands behind the QUIT have been
  carried out all the same, only their responses are thrown away.
\<close>

theorem tcp_read_answers:
  assumes "process L cks data (conn_handler c) s = Some (rs, h', s')" and "data \<noteq> []"
  shows "(Ok (Some ''Goodbye'') \<notin> set rs \<longrightarrow>
      tcp_read L to_string cks None (TcpRead data) c s =
        Some (c\<lparr>conn_handler := h', conn_out := conn_out c @ map (tcp_frame to_string) rs, conn_state := Open\<rparr>, s')) \<and>
    (\<forall>pre post. rs = pre @ Ok (Some ''Goodbye'') # post \<and> Ok (Some ''Goodbye'') \<notin> set pre \<longrightarrow>
      tcp_read L to_string cks None (TcpRead data) c s =
        Some (c\<lparr>conn_handler := h', conn_out := conn_out c @ map (tcp_frame to_string) (pre @ [Ok (Some ''Goodbye'')]),
            conn_state := Closed\<rparr>, drop_receiver (cleanup h' s')))"
proof -
  have g: "(\<exists>r\<in>set rs. is_goodbye r) \<longleftrightarrow> Ok (Some ''Goodbye'') \<in> set rs" for rs
    by (auto simp: is_goodbye_def)
  have tw: "takeWhile (\<lambda>r. \<not> is_goodbye r) (pre @ Ok (Some ''Goodbye'') # post) = pre"
      "hd (dropWhile (\<lambda>r. \<not> is_goodbye r) (pre @ Ok (Some ''Goodbye'') # post)) = Ok (Some ''Goodbye'')"
    if "Ok (Some ''Goodbye'') \<notin> set pre" for pre post
    using that by (induction pre) (auto simp: is_goodbye_def)
  show ?thesis
    using assms by (auto simp: tcp_read_def respond_def write_responses_all g tw leave_def)
qed

lemma tcp_read_answers_witness:
  "\<exists>c' s'. tcp_read demo_libs (\<lambda>v. None) (\<lambda>_. demo_clocks) None (TcpRead (''QUIT'' @ [CR, LF] @ ''PING'' @ [CR, LF]))
      \<lparr>conn_handler = handler_new ''c'', conn_position = 0, conn_out = [], conn_state = Open\<rparr> server_new = Some (c', s') \<and>
    conn_out c' = [Raw (''+OK Goodbye'' @ [CR, LF])] \<and> conn_state c' = Closed"
proof -
  let ?c = "\<lparr>conn_handler = handler_new ''c'', conn_position = 0, conn_out = [], conn_state = Open\<rparr>"
  have "process demo_libs (\<lambda>_. demo_clocks) (''QUIT'' @ [CR, LF] @ ''PING'' @ [CR, LF]) (conn_handler ?c) (server_new :: string server) =
      Some ([Ok (Some ''Goodbye''), Pong], handler_new ''c'', server_new)"
    by (simp only: connection.simps process_quit_ping)
  from conjunct2 [OF tcp_read_answers [OF this, of "\<lambda>v. None"]] show ?thesis
    by (auto simp: tcp_frame_def encode_def CRLF_def dest!: spec [of _ "[]"])
qed

text \<open>
  C10. Not so on a WebSocket: after a QUIT in a binary message the connection stays open, with the
  client's presence; in a text message QUIT closes it as on TCP.
\<close>

theorem ws_quit_by_message_type:
  assumes "process L cks data (conn_handler c) s = Some (rs, h', s')" and "Ok (Some ''Goodbye'') \<in> set rs"
    and "ws_line text = data"
  shows "ws_read L to_string cks None (WsBinary data) c s =
      Some (c\<lparr>conn_handler := h', conn_out := conn_out c @ map (ws_binary_frame to_string) rs, conn_state := Open\<rparr>, s') \<and>
    (\<exists>c'. ws_read L to_string cks None (WsText text) c s = Some (c', drop_receiver (cleanup h' s')) \<and> conn_state c' = Closed)"
proof -
  have "\<exists>r\<in>set rs. is_goodbye r" using assms(2) by (auto simp: is_goodbye_def)
  with assms show ?thesis by (simp add: ws_read_def respond_def write_responses_all leave_def)
qed

lemma ws_quit_by_message_type_witness:
  "\<exists>c'. ws_read demo_libs (\<lambda>v. None) (\<lambda>_. demo_clocks) None (WsBinary (''QUIT'' @ [CR, LF] @ ''PING'' @ [CR, LF]))
      \<lparr>conn_handler = handler_new ''c'', conn_position = 0, conn_out = [], conn_state = Open\<rparr> server_new = Some (c', server_new) \<and>
    conn_state c' = Open \<and> length (conn_out c') = 2"
proof -
  let ?c = "\<lparr>conn_handler = handler_new ''c'', conn_position = 0, conn_out = [], conn_state = Open\<rparr>"
    and ?t = "''QUIT'' @ [CR, LF] @ ''PING''"
  have p: "process demo_libs (\<lambda>_. demo_clocks) (''QUIT'' @ [CR, LF] @ ''PING'' @ [CR, LF]) (conn_handler ?c) (server_new :: string server) =
      Some ([Ok (Some ''Goodbye''), Pong], handler_new ''c'', server_new)"
    by (simp only: connection.simps process_quit_ping)
  have l: "ws_line ?t = ''QUIT'' @ [CR, LF] @ ''PING'' @ [CR, LF]"
    by (simp add: ws_line_def CRLF_def suffix_def)
  from conjunct1 [OF ws_quit_by_message_type [OF p _ l, of "\<lambda>v. None"]] show ?thesis by simp
qed

subsection \<open>How the network cuts the stream\<close>

lemma render_line_LF:
  assumes "command_ok from_str jtxt vtxt c"
  shows "\<exists>t. render_line e jtxt vtxt c = t @ [LF] \<and> LF \<notin> set t"
  using parse_line_render [OF assms] by (intro exI [of _ "render_command jtxt vtxt c @ (if e then [CR] else [])"]) (simp add: render_line_def line_ok_def)

text \<open>What has arrived of a stream of command lines: some whole lines and a part of the next one.\<close>

lemma split_lines:
  assumes "\<forall>c\<in>set cs. command_ok from_str jtxt vtxt c" and "x @ y = concat (map (render_line e jtxt vtxt) cs)"
  shows "\<exists>done todo b. cs = done @ todo \<and> x = concat (map (render_line e jtxt vtxt) done) @ b \<and> LF \<notin> set b \<and>
    b @ y = concat (map (render_line e jtxt vtxt) todo)"
  using assms
proof (induction cs arbitrary: x)
  case Nil
  then show ?case by (intro exI [of _ "[]"]) simp
next
  case (Cons c cs)
  obtain t where t: "render_line e jtxt vtxt c = t @ [LF]" "LF \<notin> set t"
    using render_line_LF [of from_str jtxt vtxt c e] Cons.prems(1) by auto
  have eq: "x @ y = (t @ [LF]) @ concat (map (render_line e jtxt vtxt) cs)" using Cons.prems(2) t by simp
  show ?case
  proof (cases "length x \<le> length t")
    case True
    then have "x = take (length x) t" using eq by (metis append_eq_append_conv_if append_same_eq append_take_drop_id append.assoc)
    then have "LF \<notin> set x" using t(2) by (metis in_set_takeD)
    with Cons.prems(2) show ?thesis by (intro exI [of _ "[]"] exI [of _ "c # cs"] exI [of _ x]) simp
  next
    case False
    then obtain us where "x = t @ us" "us \<noteq> []" "us @ y = LF # concat (map (render_line e jtxt vtxt) cs)"
      using eq by (auto simp: append_eq_append_conv2)
    then obtain x' where x': "x = (t @ [LF]) @ x'" by (cases us) auto
    with eq have "x' @ y = concat (map (render_line e jtxt vtxt) cs)" by simp
    from Cons.IH [OF _ this] Cons.prems(1) obtain d f b where
      "cs = d @ f" "x' = concat (map (render_line e jtxt vtxt) d) @ b" "LF \<notin> set b" "b @ y = concat (map (render_line e jtxt vtxt) f)"
      by auto
    with x' t(1) show ?thesis by (intro exI [of _ "c # d"] exI [of _ f] exI [of _ b]) simp
  qed
qed

lemma run_commands_append:
  "run_commands L (\<lambda>_. ck) n (cs @ ds) h s =
     (case run_commands L (\<lambda>_. ck) n cs h s of
        None \<Rightarrow> None
      | Some (rs, h', s') \<Rightarrow>
          (case run_commands L (\<lambda>_. ck) m ds h' s' of
             None \<Rightarrow> None
           | Some (rs', h'', s'') \<Rightarrow> Some (rs @ rs', h'', s'')))"
proof -
  have any: "run_commands L (\<lambda>_. ck) n cs h s = run_commands L (\<lambda>_. ck) m cs h s" for n m cs h s
  proof (induction cs arbitrary: n m h s)
    case (Cons c cs)
    show ?case by (simp add: Cons [of "Suc n" _ _ "Suc m"] cong: option.case_cong prod.case_cong)
  qed simp
  show ?thesis
  proof (induction cs arbitrary: n h s)
    case Nil
    show ?case using any [of n ds h s m] by (auto split: option.split)
  next
    case (Cons c cs)
    show ?case using Cons by (auto split: option.split prod.split)
  qed
qed

text \<open>The task of a TCP connection while the client sends and every write succeeds, one read after the other.\<close>

fun tcp_reads ::
  "'y libs \<Rightarrow> (val \<Rightarrow> string option) \<Rightarrow> clocks \<Rightarrow> bytes list \<Rightarrow> connection \<Rightarrow> 'y server \<Rightarrow> (connection \<times> 'y server) option" where
  "tcp_reads L to_string ck [] c s = Some (c, s)"
| "tcp_reads L to_string ck (d # ds) c s =
     (case tcp_read L to_string (\<lambda>_. ck) None (TcpRead d) c s of
        None \<Rightarrow> None
      | Some (c', s') \<Rightarrow> if conn_state c' = Open then tcp_reads L to_string ck ds c' s' else Some (c', s'))"

lemma partial_line_short:
  assumes "\<forall>c\<in>set cs. command_ok from_str jtxt vtxt c \<and> length (render_line e jtxt vtxt c) \<le> n"
    and "b @ y = concat (map (render_line e jtxt vtxt) cs)" and "LF \<notin> set b"
  shows "length b \<le> n"
proof (cases cs)
  case (Cons c cs')
  obtain t where t: "render_line e jtxt vtxt c = t @ [LF]" "LF \<notin> set t"
    using render_line_LF [of from_str jtxt vtxt c e] assms(1) Cons by auto
  have eq: "b @ y = t @ LF # concat (map (render_line e jtxt vtxt) cs')" using assms(2) t Cons by simp
  have "length b \<le> length t"
  proof (rule ccontr)
    assume "\<not> length b \<le> length t"
    then obtain us where "b = t @ us" "us \<noteq> []" "us @ y = LF # concat (map (render_line e jtxt vtxt) cs')"
      using eq by (auto simp: append_eq_append_conv2)
    with assms(3) show False by (cases us) auto
  qed
  then show ?thesis using assms(1) t Cons by simp
qed (use assms(2) in simp)

lemma tcp_reads_lines:
  assumes "\<forall>c\<in>set cs. command_ok (l_from_str L) jtxt vtxt c \<and> length (render_line e jtxt vtxt c) \<le> MAX_MESSAGE_SIZE - READ_SIZE"
    and "\<forall>d\<in>set ds. d \<noteq> [] \<and> length d \<le> READ_SIZE"
    and "LF \<notin> set b" and "b @ concat ds = concat (map (render_line e jtxt vtxt) cs)"
    and "run_commands L (\<lambda>_. ck) 0 cs h s = Some (rs, h', s')" and "Ok (Some ''Goodbye'') \<notin> set rs"
    and "conn_state c = Open"
  shows "tcp_reads L to_string ck ds (c\<lparr>conn_handler := h\<lparr>h_parser := \<lparr>buffer = b\<rparr>\<rparr>\<rparr>) s =
    Some (c\<lparr>conn_handler := h'\<lparr>h_parser := \<lparr>buffer = []\<rparr>\<rparr>, conn_out := conn_out c @ map (tcp_frame to_string) rs\<rparr>, s')"
  using assms
proof (induction ds arbitrary: b cs h s c rs)
  case Nil
  have "cs = []"
  proof (rule ccontr)
    assume "cs \<noteq> []"
    then obtain x xs where "cs = x # xs" by (cases cs) auto
    with render_line_LF [of "l_from_str L" jtxt vtxt x e] Nil show False by auto
  qed
  with Nil show ?case by simp
next
  case (Cons d ds)
  let ?run = "run_commands L (\<lambda>_. ck)" and ?out = "map (tcp_frame to_string)"
  obtain fin todo b' where sp: "cs = fin @ todo" "b @ d = concat (map (render_line e jtxt vtxt) fin) @ b'" "LF \<notin> set b'"
    "b' @ concat ds = concat (map (render_line e jtxt vtxt) todo)"
    using split_lines [of cs "l_from_str L" jtxt vtxt "b @ d" "concat ds" e] Cons.prems(1,4) by auto
  obtain rs1 h1 s1 rs2 where r: "?run 0 fin h s = Some (rs1, h1, s1)" "?run 0 todo h1 s1 = Some (rs2, h', s')" "rs = rs1 @ rs2"
    using Cons.prems(5) run_commands_append [of L ck 0 fin todo h s 0] sp(1) by (auto split: option.splits)
  let ?c = "c\<lparr>conn_out := conn_out c @ ?out rs1\<rparr>"
  have "length b + length d \<le> MAX_MESSAGE_SIZE"
    using partial_line_short [OF Cons.prems(1,4,3)] Cons.prems(2) by (simp add: READ_SIZE_def MAX_MESSAGE_SIZE_def)
  then have "process L (\<lambda>_. ck) d (h\<lparr>h_parser := \<lparr>buffer = b\<rparr>\<rparr>) s = Some (rs1, h1\<lparr>h_parser := \<lparr>buffer = b'\<rparr>\<rparr>, s1)"
    using process_loop_lines [of fin L jtxt vtxt b', where cks = "\<lambda>_. ck" and n = 0 and h = h and s = s and e = e] Cons.prems(1) sp r(1)
    by (simp add: process_def feed_def)
  then have "tcp_read L to_string (\<lambda>_. ck) None (TcpRead d) (c\<lparr>conn_handler := h\<lparr>h_parser := \<lparr>buffer = b\<rparr>\<rparr>\<rparr>) s = Some (?c\<lparr>conn_handler := h1\<lparr>h_parser := \<lparr>buffer = b'\<rparr>\<rparr>\<rparr>, s1)"
    using r(3) Cons.prems(2,6,7) by (auto simp: tcp_read_def respond_def write_responses_all is_goodbye_def leave_def)
  moreover have "tcp_reads L to_string ck ds (?c\<lparr>conn_handler := h1\<lparr>h_parser := \<lparr>buffer = b'\<rparr>\<rparr>\<rparr>) s1 =
      Some (?c\<lparr>conn_handler := h'\<lparr>h_parser := \<lparr>buffer = []\<rparr>\<rparr>, conn_out := conn_out ?c @ ?out rs2\<rparr>, s')"
    by (rule Cons.IH [OF _ _ sp(3,4) r(2)]) (use Cons.prems sp(1) r(3) in auto)
  ultimately show ?case using r(3) Cons.prems(7) by simp
qed



subsection \<open>Client names\<close>

definition client_name :: "transport \<Rightarrow> bool \<Rightarrow> string \<Rightarrow> nat \<Rightarrow> string" where
  "client_name t tls peer k =
     (case t of Tcp \<Rightarrow> ''tcp:'' | Ws \<Rightarrow> if tls then ''wss:'' else ''ws:'') @ peer @ '':'' @ show_nat k"

lemma show_nat_inj: "show_nat k = show_nat j \<Longrightarrow> k = j"
  by (metis digits_val_show_nat option.inject)

lemma upto_mark: "xs @ x # ys = xs' @ x # ys' \<Longrightarrow> x \<notin> set xs \<Longrightarrow> x \<notin> set xs' \<Longrightarrow> xs = xs'"
proof (induction xs arbitrary: xs')
  case Nil
  then show ?case by (cases xs') auto
next
  case (Cons a xs)
  then show ?case by (cases xs') auto
qed

lemma show_nat_colon: "CHR '':'' \<notin> set (show_nat k)"
  using show_nat_digits [of k] by (auto simp: is_digit_def byte_def list_all_iff)

lemma client_name_inj:
  assumes "client_name t tls peer k = client_name t' tls peer' k'"
  shows "t = t' \<and> k = k'"
proof -
  have t: "t = t'" using assms by (cases t; cases t'; cases tls) (simp_all add: client_name_def)
  have "rev (show_nat k) @ CHR '':'' # rev (peer) = rev (show_nat k') @ CHR '':'' # rev (peer')"
    using arg_cong [OF assms, of rev] t by (cases t'; cases tls) (simp_all add: client_name_def)
  from upto_mark [OF this] have "rev (show_nat k) = rev (show_nat k')"
    using show_nat_colon [of k] show_nat_colon [of k'] by simp
  with t show ?thesis by (auto dest: show_nat_inj)
qed

definition counter_of :: "('y, 'd) world \<Rightarrow> transport \<Rightarrow> nat" where
  "counter_of w t = unat (client_counter (case t of Tcp \<Rightarrow> w_tcp w | Ws \<Rightarrow> w_ws w))"

definition conn_ids :: "('y, 'd) world \<Rightarrow> string list" where
  "conn_ids w = map (\<lambda>(t, c). client_id (conn_handler c)) (w_conns w)"

definition numbered :: "('y, 'd) world \<Rightarrow> bool" where
  "numbered w \<longleftrightarrow> (\<forall>i < length (w_conns w). \<exists>peer k. k < counter_of w (fst (w_conns w ! i)) \<and>
     conn_ids w ! i = client_name (fst (w_conns w ! i)) (ep_tls (w_ws w)) peer k)"

definition names_ok :: "nat \<Rightarrow> ('y, 'd) world \<Rightarrow> bool" where
  "names_ok n w \<longleftrightarrow> counter_of w Tcp \<le> n \<and> counter_of w Ws \<le> n \<and> numbered w \<and> distinct (conn_ids w)"

text \<open>Serving a connection changes neither the names nor the counters.\<close>

definition same_names :: "('y, 'd) world \<Rightarrow> ('y, 'd) world \<Rightarrow> bool" where
  "same_names w w' \<longleftrightarrow> conn_ids w' = conn_ids w \<and> map fst (w_conns w') = map fst (w_conns w) \<and>
     w_tcp w' = w_tcp w \<and> w_ws w' = w_ws w"

lemma names_ok_same:
  assumes s: "same_names w w'" and ok: "names_ok n w"
  shows "names_ok (Suc n) w'"
proof -
  from s have m: "map fst (w_conns w') = map fst (w_conns w)" by (simp add: same_names_def)
  have len: "length (w_conns w') = length (w_conns w)" using arg_cong [OF m, of length] by simp
  have fst: "fst (w_conns w' ! i) = fst (w_conns w ! i)" if "i < length (w_conns w)" for i
    using arg_cong [OF m, of "\<lambda>l. l ! i"] that len by simp
  have c: "counter_of w' = counter_of w" "ep_tls (w_ws w') = ep_tls (w_ws w)" "conn_ids w' = conn_ids w"
    using s by (simp_all add: same_names_def counter_of_def fun_eq_iff split: transport.split)
  have "numbered w'" using ok fst unfolding names_ok_def numbered_def c len by simp
  with ok show ?thesis unfolding names_ok_def c by simp
qed

lemma same_names_put:
  assumes "open_conn w i t c" and "served c (w_server w) r"
  shows "same_names w (put_conn i t r w)"
proof -
  have i: "i < length (w_conns w)" "w_conns w ! i = (t, c)" using assms(1) by (auto simp: open_conn_def)
  have "(conn_ids w)[i := client_id (conn_handler c)] = conn_ids w"
    using i by (metis (no_types, lifting) case_prod_conv conn_ids_def list_update_id nth_map)
  moreover have "(map fst (w_conns w))[i := t] = map fst (w_conns w)"
    using i by (metis fst_conv list_update_id nth_map)
  ultimately show ?thesis
    using assms(2) by (simp add: same_names_def put_conn_def conn_ids_def map_update served_def)
qed

lemma names_ok_add:
  assumes "names_ok n w" and "conn_ids w' = conn_ids w" and "w_conns w' = w_conns w"
    and "counter_of w' t = Suc (counter_of w t)" and "\<forall>u. u \<noteq> t \<longrightarrow> counter_of w' u = counter_of w u"
    and "ep_tls (w_ws w') = ep_tls (w_ws w)"
    and "\<forall>c. co = Some c \<longrightarrow> (\<exists>peer. client_id (conn_handler c) = client_name t (ep_tls (w_ws w)) peer (counter_of w t))"
  shows "names_ok (Suc n) (add_conn t co w')"
proof -
  have up: "counter_of w' u \<le> Suc n" "counter_of w u \<le> counter_of w' u" for u
    using assms(1,4,5) by (cases "u = t"; cases u; force simp: names_ok_def)+
  have num: "numbered w'"
    using assms(1) up(2) order_less_le_trans unfolding names_ok_def numbered_def assms(2,3,6) by blast
  show ?thesis
  proof (cases co)
    case None
    with assms(1,2) up num show ?thesis by (simp add: add_conn_def names_ok_def)
  next
    case (Some c)
    let ?w = "add_conn t co w'"
    obtain peer where name: "client_id (conn_handler c) = client_name t (ep_tls (w_ws w)) peer (counter_of w t)"
      using assms(7) Some by blast
    have ids: "conn_ids ?w = conn_ids w @ [client_id (conn_handler c)]" "w_conns ?w = w_conns w @ [(t, c)]"
      "counter_of ?w = counter_of w'" "ep_tls (w_ws ?w) = ep_tls (w_ws w)"
      using Some assms(2,3,6) by (auto simp: add_conn_def conn_ids_def counter_of_def fun_eq_iff split: transport.split)
    have len: "length (conn_ids w) = length (w_conns w)" by (simp add: conn_ids_def)
    have "client_id (conn_handler c) \<notin> set (conn_ids w)"
    proof
      assume "client_id (conn_handler c) \<in> set (conn_ids w)"
      then obtain i where i: "i < length (w_conns w)" "conn_ids w ! i = client_id (conn_handler c)"
        by (metis in_set_conv_nth len)
      with assms(1) obtain p k where "k < counter_of w (fst (w_conns w ! i))"
          "client_name (fst (w_conns w ! i)) (ep_tls (w_ws w)) p k = client_name t (ep_tls (w_ws w)) peer (counter_of w t)"
        unfolding names_ok_def numbered_def by (metis name)
      with client_name_inj [OF this(2)] show False by simp
    qed
    moreover have "numbered ?w"
      using num name assms(2-6) len
      by (auto simp: numbered_def ids nth_append less_Suc_eq)
    ultimately show ?thesis using assms(1) up by (simp add: names_ok_def ids)
  qed
qed

lemma names_ok_accept:
  assumes "names_ok n w" and "Suc n < 2 ^ 64"
  shows "tcp_accept peer hs now (w_tcp w) s = (c, ep, s') \<Longrightarrow>
      names_ok (Suc n) (add_conn Tcp c (w\<lparr>w_tcp := ep, w_server := s'\<rparr>))"
    and "ws_accept peer hs up now (w_ws w) s = (c, ep, s') \<Longrightarrow>
      names_ok (Suc n) (add_conn Ws c (w\<lparr>w_ws := ep, w_server := s'\<rparr>))"
proof -
  have "unat (client_counter (w_tcp w)) < 2 ^ 64 - 1" "unat (client_counter (w_ws w)) < 2 ^ 64 - 1"
    using assms by (auto simp: names_ok_def counter_of_def)
  then have inc: "unat (client_counter (w_tcp w) + 1) = Suc (counter_of w Tcp)"
      "unat (client_counter (w_ws w) + 1) = Suc (counter_of w Ws)"
    by (simp_all add: counter_of_def unat_word_ariths)
  have cid: "client_id (make_handler now ep cid) = cid" for now ep cid
    by (simp add: make_handler_def Let_def handler_new_def handler_with_auth_def with_storage_def with_rate_limit_def
        split: option.split)
  have ids: "conn_ids (w\<lparr>w_tcp := ep, w_server := s'\<rparr>) = conn_ids w" "conn_ids (w\<lparr>w_ws := ep, w_server := s'\<rparr>) = conn_ids w"
    for ep s' by (simp_all add: conn_ids_def)
  { assume a: "tcp_accept peer hs now (w_tcp w) s = (c, ep, s')"
    then have ep: "ep = (w_tcp w)\<lparr>client_counter := client_counter (w_tcp w) + 1\<rparr>"
      by (auto simp: tcp_accept_def Let_def split: if_splits prod.splits)
    show "names_ok (Suc n) (add_conn Tcp c (w\<lparr>w_tcp := ep, w_server := s'\<rparr>))"
      by (rule names_ok_add [OF assms(1) ids(1)])
         (use a inc(1) in \<open>auto simp: ep counter_of_def client_name_def show_u64_def tcp_accept_def open_connection_def cid Let_def
            split: if_splits transport.split\<close>) }
  { assume a: "ws_accept peer hs up now (w_ws w) s = (c, ep, s')"
    then have ep: "ep = (w_ws w)\<lparr>client_counter := client_counter (w_ws w) + 1\<rparr>"
      by (auto simp: ws_accept_def Let_def split: if_splits prod.splits)
    show "names_ok (Suc n) (add_conn Ws c (w\<lparr>w_ws := ep, w_server := s'\<rparr>))"
      by (rule names_ok_add [OF assms(1) ids(2)])
         (use a inc(2) in \<open>auto simp: ep counter_of_def client_name_def show_u64_def ws_accept_def open_connection_def ws_protocol_def cid Let_def
            split: if_splits transport.split\<close>) }
qed

lemma names_ok_step:
  assumes "world_step E w w'" and "names_ok n w" and "Suc n < 2 ^ 64"
  shows "names_ok (Suc n) w'"
  using assms
proof (induction rule: world_step.induct)
  case (tcp_read w i c inp cks fails r)
  then show ?case by (blast intro: names_ok_same same_names_put tcp_read_served)
next
  case (tcp_update w i c u pos ok)
  then show ?case by (intro names_ok_same [OF same_names_put]) (auto intro: update_served simp: open_conn_def)
next
  case (ws_read w i c cks fails wsi r)
  then show ?case by (intro names_ok_same [OF same_names_put]) (auto intro: ws_read_served simp: open_conn_def)
next
  case (ws_update w i c u pos ok)
  then show ?case by (intro names_ok_same [OF same_names_put]) (auto intro: update_served simp: open_conn_def)
next
  case (store k w)
  then show ?case
    by (intro names_ok_same [of w]) (simp_all add: same_names_def run_store_def conn_ids_def split: prod.split)
next
  case (gc w clock)
  then show ?case by (intro names_ok_same [of w]) (simp_all add: same_names_def run_gc_def conn_ids_def)
qed (blast intro: names_ok_accept)+

text \<open>
  C13. No two connections of a server process ever have the same client name, whichever listener
  accepted them and whatever their addresses, for the first 2 to the 64 steps of the process (then the
  counters may start again): the presence of one client is never taken for that of another.
\<close>

theorem client_names_distinct:
  assumes "(world_step E ^^ n) (world_start tcp ws st) w" and "n < 2 ^ 64"
    and "client_counter tcp = 0" and "client_counter ws = 0"
  shows "distinct (map (\<lambda>(t, c). client_id (conn_handler c)) (w_conns w))"
proof -
  have "names_ok n w"
    using assms(1,2)
  proof (induction n arbitrary: w)
    case 0
    with assms(3,4) show ?case
      by (auto simp: names_ok_def counter_of_def numbered_def conn_ids_def world_start_def)
  next
    case (Suc n)
    from Suc.prems(1) obtain v where "(world_step E ^^ n) (world_start tcp ws st) v" "world_step E v w" by auto
    with Suc.IH [of v] Suc.prems(2) show ?case by (intro names_ok_step) simp_all
  qed
  then show ?thesis by (simp add: names_ok_def conn_ids_def)
qed

lemma client_names_distinct_witness:
  "\<exists>w. (world_step demo_env ^^ 1) (world_start tcp_server_new ws_server_new memory_new) w \<and>
     map (\<lambda>(t, c). client_id (conn_handler c)) (w_conns w) = [''tcp:p:0''] \<and>
     distinct (map (\<lambda>(t, c). client_id (conn_handler c)) (w_conns w))"
proof -
  let ?w = "world_start tcp_server_new ws_server_new memory_new :: (string, memory_storage) world"
  let ?c = "\<lparr>conn_handler = handler_new ''tcp:p:0'', conn_position = 0, conn_out = [], conn_state = Open\<rparr>"
  let ?v = "add_conn Tcp (Some ?c) (?w\<lparr>w_tcp := tcp_server_new\<lparr>client_counter := 1\<rparr>, w_server := subscribe_updates (w_server ?w)\<rparr>)"
  have "tcp_accept ''p'' True 0 (w_tcp ?w) (w_server ?w) =
      (Some ?c, tcp_server_new\<lparr>client_counter := 1\<rparr>, subscribe_updates (w_server ?w))"
    by (simp add: world_start_def tcp_accept_plain manager_new_def)
  then have "world_step demo_env ?w ?v" by (rule world_step.tcp_accept)
  then have "(world_step demo_env ^^ 1) ?w ?v" by (auto simp: OO_def)
  moreover have "map (\<lambda>(t, c). client_id (conn_handler c)) (w_conns ?v) = [''tcp:p:0'']"
    by (simp add: add_conn_def world_start_def handler_new_def)
  ultimately obtain v where v: "(world_step demo_env ^^ 1) ?w v" "map (\<lambda>(t, c). client_id (conn_handler c)) (w_conns v) = [''tcp:p:0'']"
    by (rule that)
  have c: "client_counter tcp_server_new = 0" "client_counter ws_server_new = 0" "(1::nat) < 2 ^ 64"
    by (simp_all add: tcp_server_new_def ws_server_new_def)
  show ?thesis
    by (intro exI [of _ v] conjI) (rule v client_names_distinct [OF v(1) c(3,1,2)])+
qed

end
