(* ===== verification/ServerLaws.thy ===== *)
theory ServerLaws imports TransportLaws StorageLaws begin

section \<open>Security and durability of the running server\<close>

text \<open>
  What a client without the password can learn or do on a server that has one, and what reaches the
  storage.
\<close>

subsection \<open>Clients without the password\<close>

definition locked_ok :: "('y, 'd) world \<Rightarrow> bool" where
  "locked_ok w \<longleftrightarrow> ep_password (w_tcp w) \<noteq> None \<and> ep_password (w_ws w) \<noteq> None \<and>
     (\<forall>(t, c)\<in>set (w_conns w). authenticated (conn_handler c) \<or>
        locked (conn_handler c) \<and> subscriptions (conn_handler c) = [])"

definition still_locked :: "connection \<Rightarrow> connection \<Rightarrow> bool" where
  "still_locked c c' \<longleftrightarrow> (authenticated (conn_handler c) \<longrightarrow> authenticated (conn_handler c')) \<and>
     (locked (conn_handler c) \<and> subscriptions (conn_handler c) = [] \<and> \<not> authenticated (conn_handler c') \<longrightarrow>
        locked (conn_handler c') \<and> subscriptions (conn_handler c') = [])"

lemma still_locked_handler: "conn_handler c' = conn_handler c \<Longrightarrow> still_locked c c'"
  by (simp add: still_locked_def)

lemma leave_sel [simp]:
  "conn_handler (fst (leave st c s)) = conn_handler c" "conn_out (fst (leave st c s)) = conn_out c"
  "documents (s_manager (snd (leave st c s))) = documents (s_manager s)"
  "sent (s_manager (snd (leave st c s))) = sent (s_manager s)" "spawned (snd (leave st c s)) = spawned s"
  by (cases st; simp add: leave_def)+

lemma respond_locked:
  assumes "respond enc quits fails L cks data c s = Some r"
  shows "still_locked c (fst r)"
    and "locked (conn_handler c) \<Longrightarrow> \<not> authenticated (conn_handler (fst r)) \<Longrightarrow>
      documents (s_manager (snd r)) = documents (s_manager s) \<and> sent (s_manager (snd r)) = sent (s_manager s) \<and>
      spawned (snd r) = spawned s"
proof -
  obtain rs h s' out st where p: "process L cks data (conn_handler c) s = Some (rs, h, s')"
    and r: "r = leave st (c\<lparr>conn_handler := h, conn_out := conn_out c @ out\<rparr>) s'"
    using assms by (auto simp: respond_def split: option.splits prod.splits)
  show "still_locked c (fst r)" using process_locked [OF p] by (auto simp: r still_locked_def)
  show "documents (s_manager (snd r)) = documents (s_manager s) \<and> sent (s_manager (snd r)) = sent (s_manager s) \<and>
      spawned (snd r) = spawned s" if "locked (conn_handler c)" and "\<not> authenticated (conn_handler (fst r))"
    using process_locked(2) [OF p] that by (simp add: r)
qed

lemma tcp_read_locked:
  assumes "tcp_read L to_string cks fails i c s = Some r"
  shows "still_locked c (fst r)"
    and "locked (conn_handler c) \<Longrightarrow> \<not> authenticated (conn_handler (fst r)) \<Longrightarrow>
      documents (s_manager (snd r)) = documents (s_manager s) \<and> sent (s_manager (snd r)) = sent (s_manager s) \<and>
      spawned (snd r) = spawned s"
  using assms
  by (auto simp: tcp_read_def still_locked_handler dest: respond_locked split: tcp_input.splits if_splits)

lemma ws_read_locked:
  assumes "ws_read L to_string cks fails i c s = Some r"
  shows "still_locked c (fst r)"
    and "locked (conn_handler c) \<Longrightarrow> \<not> authenticated (conn_handler (fst r)) \<Longrightarrow>
      documents (s_manager (snd r)) = documents (s_manager s) \<and> sent (s_manager (snd r)) = sent (s_manager s) \<and>
      spawned (snd r) = spawned s"
  using assms
  by (auto simp: ws_read_def still_locked_handler dest: respond_locked split: ws_input.splits if_splits)

lemma update_locked:
  "still_locked c (fst (tcp_update to_string ok u pos c s))" "still_locked c (fst (ws_update to_string ok u pos c s))"
  by (auto simp: tcp_update_def ws_update_def Let_def intro!: still_locked_handler split: sum.split)

lemma locked_ok_put:
  "locked_ok w \<Longrightarrow> open_conn w i t c \<Longrightarrow> still_locked c (fst r) \<Longrightarrow> locked_ok (put_conn i t r w)"
  by (fastforce simp: locked_ok_def put_conn_def open_conn_def still_locked_def dest: nth_mem
      elim!: set_update_subset_insert [THEN subsetD, elim_format])

lemma make_handler_locked:
  "ep_password ep \<noteq> None \<Longrightarrow> locked (make_handler now ep cid) \<and> subscriptions (make_handler now ep cid) = []"
  by (auto simp: make_handler_def Let_def handler_with_auth_def with_storage_def with_rate_limit_def locked_def
      split: option.split)

lemma locked_ok_accept:
  assumes "locked_ok w"
  shows "tcp_accept peer hs now (w_tcp w) s = (c, ep, s') \<Longrightarrow> locked_ok (add_conn Tcp c (w\<lparr>w_tcp := ep, w_server := s'\<rparr>))"
    and "ws_accept peer hs up now (w_ws w) s = (c, ep, s') \<Longrightarrow> locked_ok (add_conn Ws c (w\<lparr>w_ws := ep, w_server := s'\<rparr>))"
proof -
  have new: "locked (make_handler now (w_tcp w) cid)" "subscriptions (make_handler now (w_tcp w) cid) = []"
      "locked (make_handler now (w_ws w) cid)" "subscriptions (make_handler now (w_ws w) cid) = []" for now cid
    using assms make_handler_locked by (auto simp: locked_ok_def)
  show "locked_ok (add_conn Tcp c (w\<lparr>w_tcp := ep, w_server := s'\<rparr>))" if "tcp_accept peer hs now (w_tcp w) s = (c, ep, s')"
    using that assms new
    by (auto simp: tcp_accept_def open_connection_def Let_def locked_ok_def add_conn_def split: if_splits)
  show "locked_ok (add_conn Ws c (w\<lparr>w_ws := ep, w_server := s'\<rparr>))" if "ws_accept peer hs up now (w_ws w) s = (c, ep, s')"
    using that assms new
    by (auto simp: ws_accept_def open_connection_def Let_def locked_ok_def add_conn_def split: if_splits)
qed

lemma locked_ok_step: "world_step E w w' \<Longrightarrow> locked_ok w \<Longrightarrow> locked_ok w'"
proof (induction rule: world_step.induct)
  case (tcp_read w i c inp cks fails r)
  then show ?case by (blast intro: locked_ok_put tcp_read_locked)
next
  case (tcp_update w i c u pos ok)
  then show ?case by (blast intro: locked_ok_put update_locked)
next
  case (ws_read w i c cks fails wsi r)
  then show ?case by (blast intro: locked_ok_put ws_read_locked)
next
  case (ws_update w i c u pos ok)
  then show ?case by (blast intro: locked_ok_put update_locked)
qed (simp_all add: locked_ok_accept locked_ok_def [of "run_store _ _ _"] locked_ok_def [of "run_gc _ _"] run_store_def run_gc_def
  split: prod.split, simp_all add: locked_ok_def)

interpretation locked_world: invariant_system "world_step E" locked_ok for E
  by unfold_locales (rule locked_ok_step)

text \<open>
  C6. On a server with a password, in every state it reaches: a connection that has not given the
  password has no subscription, no update is ever written to it, and whatever it sends without
  then being authenticated changes no document, publishes nothing and stores nothing.
\<close>

theorem no_password_no_access:
  assumes "(world_step E)\<^sup>*\<^sup>* (world_start tcp ws st) w" and "ep_password tcp \<noteq> None" and "ep_password ws \<noteq> None"
    and "(t, c) \<in> set (w_conns w)" and "\<not> authenticated (conn_handler c)"
  shows "subscriptions (conn_handler c) = [] \<and>
    tcp_update to_string ok u pos c s = (c\<lparr>conn_position := pos\<rparr>, s) \<and>
    ws_update to_string ok u pos c s = (c\<lparr>conn_position := pos\<rparr>, s) \<and>
    (\<forall>c' s'. (tcp_read L to_string cks fails i c s = Some (c', s') \<or> ws_read L to_string cks fails j c s = Some (c', s')) \<and>
       \<not> authenticated (conn_handler c') \<longrightarrow>
       documents (s_manager s') = documents (s_manager s) \<and> sent (s_manager s') = sent (s_manager s) \<and> spawned s' = spawned s)"
proof -
  have "locked_ok (world_start tcp ws st)" using assms(2,3) by (simp add: locked_ok_def world_start_def)
  from locked_world.run_inv [OF assms(1) this] have l: "locked (conn_handler c)" "subscriptions (conn_handler c) = []"
    using assms(4,5) by (auto simp: locked_ok_def)
  with assms(5) show ?thesis
    by (auto simp: tcp_update_def ws_update_def Let_def matches_subscription_def dest: tcp_read_locked ws_read_locked
        split: sum.split)
qed

lemma no_password_no_access_witness:
  "\<exists>w c. (world_step demo_env)\<^sup>*\<^sup>* (world_start (tcp_with_password ''pw'') (ws_with_password ''pw'') memory_new) w \<and>
     (Tcp, c) \<in> set (w_conns w) \<and> \<not> authenticated (conn_handler c) \<and> subscriptions (conn_handler c) = []"
proof -
  let ?w = "world_start (tcp_with_password ''pw'') (ws_with_password ''pw'') memory_new :: (string, memory_storage) world"
  obtain c ep s where a: "tcp_accept ''p'' True 0 (w_tcp ?w) (w_server ?w) = (Some c, ep, s)" "\<not> authenticated (conn_handler c)"
    by (simp add: tcp_accept_def world_start_def tcp_with_password_def open_connection_def make_handler_def handler_with_auth_def Let_def)
  let ?v = "add_conn Tcp (Some c) (?w\<lparr>w_tcp := ep, w_server := s\<rparr>)"
  have run: "(world_step demo_env)\<^sup>*\<^sup>* ?w ?v" by (rule r_into_rtranclp, rule world_step.tcp_accept [OF a(1)])
  have c: "(Tcp, c) \<in> set (w_conns ?v)" by (simp add: add_conn_def)
  have "ep_password (tcp_with_password ''pw'') \<noteq> None" "ep_password (ws_with_password ''pw'') \<noteq> None"
    by (simp_all add: tcp_with_password_def ws_with_password_def)
  from no_password_no_access [OF run this c a(2)] run c a(2) show ?thesis by blast
qed

subsection \<open>What reaches the storage\<close>

text \<open>Running the spawned stores, each at a place of the list as it then is, until none is left.\<close>

fun run_stores :: "('y, 'd) env \<Rightarrow> nat list \<Rightarrow> ('y, 'd) world \<Rightarrow> ('y, 'd) world" where
  "run_stores E [] w = w"
| "run_stores E (k # ks) w = run_stores E ks (run_store E k w)"

lemma run_stores_in_order:
  "w_storage (run_stores E (replicate (length (spawned (w_server w))) 0) w) =
     fold (\<lambda>(i, m, d) s. snd (e_store E i m d s)) (spawned (w_server w)) (w_storage w) \<and>
   spawned (w_server (run_stores E (replicate (length (spawned (w_server w))) 0) w)) = []"
proof (induction "spawned (w_server w)" arbitrary: w)
  case Nil
  then show ?case by (simp flip: Nil)
next
  case (Cons x xs)
  obtain i m d where x: "x = (i, m, d)" by (cases x) auto
  have s: "spawned (w_server (run_store E 0 w)) = xs" "w_storage (run_store E 0 w) = snd (e_store E i m d (w_storage w))"
    using Cons.hyps(2) [symmetric] x by (simp_all add: run_store_def)
  from Cons.hyps(1) [of "run_store E 0 w"] s show ?case
    unfolding Cons.hyps(2) [symmetric] x by simp
qed

text \<open>
  C14. Nothing orders the background stores of one document. Run in the order they were spawned, they
  leave in the storage what was spawned last; but two stores of one document may just as well run the
  other way round, and then the older state is what the storage keeps, though both stores succeeded.
\<close>

theorem stores_may_overtake:
  assumes "spawned (w_server w) = [(i, m1, d1), (i, m2, d2)]" and "e_store E = memory_store sd"
    and "to_vec sd m1 = Inr b1" and "to_vec sd m2 = Inr b2" and "from_slice sd b1 = Inr m1" and "from_slice sd b2 = Inr m2"
  shows "w_storage (run_stores E (replicate (length (spawned v)) 0) (u\<lparr>w_server := v\<rparr>)) =
      fold (\<lambda>(i, m, d) s. snd (e_store E i m d s)) (spawned v) (w_storage u) \<and>
    memory_load sd i (w_storage (run_stores E [0, 0] w)) = Inr (Some (m2, d2)) \<and>
    memory_load sd i (w_storage (run_stores E [1, 0] w)) = Inr (Some (m1, d1)) \<and>
    spawned (w_server (run_stores E [1, 0] w)) = [] \<and>
    (world_step E)\<^sup>*\<^sup>* w (run_stores E [0, 0] w) \<and> (world_step E)\<^sup>*\<^sup>* w (run_stores E [1, 0] w)"
proof -
  have r: "spawned (w_server (run_store E 0 w)) = [(i, m2, d2)]" "spawned (w_server (run_store E (Suc 0) w)) = [(i, m1, d1)]"
    using assms(1) by (simp_all add: run_store_def)
  have steps: "world_step E w (run_store E k w)" "world_step E (run_store E k w) (run_store E 0 (run_store E k w))" if "k < 2" for k
    using that assms(1) r by (auto intro!: world_step.store simp: less_2_cases_iff)
  have "(world_step E)\<^sup>*\<^sup>* w (run_stores E [k, 0] w)" if "k < 2" for k
    using steps [OF that] by simp
  then have runs: "(world_step E)\<^sup>*\<^sup>* w (run_stores E [0, 0] w)" "(world_step E)\<^sup>*\<^sup>* w (run_stores E [1, 0] w)" by simp_all
  have "memory_load sd i (snd (memory_store sd i m2 d2 s)) = Inr (Some (m2, d2))"
      "memory_load sd i (snd (memory_store sd i m1 d1 s)) = Inr (Some (m1, d1))" for s
    using assms(3-6) mem.load_stored [of sd m2 d2 i i s] mem.load_stored [of sd m1 d1 i i s]
    by (simp_all add: mem.storable_def mem.stored_def memory_store_def memory_reread_def Let_def)
  with runs assms(1,2) run_stores_in_order [of E "u\<lparr>w_server := v\<rparr>"] show ?thesis by (simp add: run_store_def)
qed

lemma stores_may_overtake_witness:
  "\<exists>sd w. \<exists>E :: (string, memory_storage) env. e_store E = memory_store sd \<and> length (spawned (w_server w)) = 2 \<and>
     memory_load sd (DocumentId ''d'') (w_storage (run_stores E [1, 0] w)) = Inr (Some (meta_new 0 (DocumentId ''d'') Lww, ''old''))"
proof -
  let ?m = "meta_new 0 (DocumentId ''d'') Lww"
  let ?sd = "\<lparr>to_vec = (\<lambda>m. Inr []), from_slice = (\<lambda>b. Inr ?m)\<rparr> :: meta_serde"
  let ?E = "demo_env\<lparr>e_store := memory_store ?sd\<rparr>"
  let ?w = "(world_start tcp_server_new ws_server_new memory_new)
    \<lparr>w_server := \<lparr>s_manager = manager_new, spawned = [(DocumentId ''d'', ?m, ''old''), (DocumentId ''d'', ?m, ''new'')]\<rparr>\<rparr>
    :: (string, memory_storage) world"
  have "memory_load ?sd (DocumentId ''d'') (w_storage (run_stores ?E [1, 0] ?w)) = Inr (Some (?m, ''old''))"
    using stores_may_overtake [of ?w "DocumentId ''d''" ?m "''old''" ?m "''new''" ?E ?sd] by simp
  then show ?thesis by (intro exI [of _ ?sd] exI [of _ ?w] exI [of _ ?E]) simp
qed

end
