(* ===== verification/Daemon.thy ===== *)
theory Daemon imports ServerLaws RateLimitLaws begin

section \<open>The daemon (usld: main.rs)\<close>

text \<open>
  \<open>main\<close> reads its arguments, opens the storage and the certificates, and starts the listeners. What the
  environment answers is given from outside: whether the database opens, what loading the certificates
  gives (\<open>Inl\<close> its error), and whether a text is a socket address. Log output and the banner are left out.
\<close>

record args =
  tcp_port :: "16 word"
  ws_port :: "16 word"
  bind_address :: string
  config_file :: "string option"
  log_level :: string
  no_tcp :: bool
  no_ws :: bool
  db_path :: "string option"
  arg_password :: "string option"
  tls_cert :: "string option"
  tls_key :: "string option"
  rate_limit :: u32
  rate_burst :: "u32 option"
  metrics_port :: "16 word"

definition args_default :: args where
  "args_default = \<lparr>tcp_port = 6380, ws_port = 6381, bind_address = ''0.0.0.0'', config_file = None, log_level = ''info'',
     no_tcp = False, no_ws = False, db_path = None, arg_password = None, tls_cert = None, tls_key = None,
     rate_limit = 0, rate_burst = None, metrics_port = 0\<rparr>"

datatype level = TRACE | DEBUG | INFO | WARN | ERROR

definition parse_level :: "string \<Rightarrow> level" where
  "parse_level s =
     (let l = to_lowercase s in
      if l = ''trace'' then TRACE else if l = ''debug'' then DEBUG else if l = ''info'' then INFO
      else if l = ''warn'' then WARN else if l = ''error'' then ERROR else INFO)"

record environment =
  opens_database :: "string \<Rightarrow> bool"
  loads_tls :: "string \<Rightarrow> string \<Rightarrow> string + unit"
  socket_addr :: "string \<Rightarrow> bool"

text \<open>A database that does not open is only warned about: the server then runs without storage.\<close>

definition open_storage :: "environment \<Rightarrow> args \<Rightarrow> bool" where
  "open_storage E a = (case db_path a of Some p \<Rightarrow> opens_database E p | None \<Rightarrow> False)"

definition load_tls :: "environment \<Rightarrow> args \<Rightarrow> string + bool" where
  "load_tls E a =
     (case (tls_cert a, tls_key a) of
        (Some c, Some k) \<Rightarrow>
          (case loads_tls E c k of
             Inr _ \<Rightarrow> Inr True
           | Inl e \<Rightarrow> Inl (''Failed to load TLS certificates: '' @ e))
      | _ \<Rightarrow> Inr False)"

definition limit_config :: "args \<Rightarrow> rate_limit_config option" where
  "limit_config a =
     (if rate_limit a > 0
      then let burst = (case rate_burst a of Some b \<Rightarrow> b | None \<Rightarrow> rate_limit a * 2)
           in Some (rate_limit_new (rate_limit a) burst)
      else None)"

text \<open>What runs when \<open>main\<close> has started everything; the collection task runs in any case.\<close>

record daemon =
  d_metrics :: bool
  d_tcp :: "endpoint option"
  d_ws :: "endpoint option"

definition listen_addr :: "environment \<Rightarrow> args \<Rightarrow> 16 word \<Rightarrow> bool" where
  "listen_addr E a port \<longleftrightarrow> socket_addr E (bind_address a @ '':'' @ show_nat (unat port))"

definition addr_error :: string where
  "addr_error = ''invalid socket address syntax''"

definition tcp_endpoint :: "args \<Rightarrow> bool \<Rightarrow> bool \<Rightarrow> endpoint" where
  "tcp_endpoint a storage tls =
     (let ep = (case arg_password a of Some pwd \<Rightarrow> tcp_with_password pwd | None \<Rightarrow> tcp_server_new);
          ep = (if storage then tcp_with_storage ep else ep);
          ep = (if tls then tcp_with_tls ep else ep)
      in (case limit_config a of Some rl \<Rightarrow> tcp_with_rate_limit rl ep | None \<Rightarrow> ep))"

definition ws_endpoint :: "args \<Rightarrow> bool \<Rightarrow> bool \<Rightarrow> endpoint" where
  "ws_endpoint a storage tls =
     (let ep = (case arg_password a of Some pwd \<Rightarrow> ws_with_password pwd | None \<Rightarrow> ws_server_new);
          ep = (if storage then ws_with_storage ep else ep);
          ep = (if tls then ws_with_tls ep else ep)
      in (case limit_config a of Some rl \<Rightarrow> ws_with_rate_limit rl ep | None \<Rightarrow> ep))"

definition start_listeners :: "environment \<Rightarrow> args \<Rightarrow> bool \<Rightarrow> bool \<Rightarrow> string + daemon" where
  "start_listeners E a storage tls =
     (if metrics_port a > 0 \<and> \<not> listen_addr E a (metrics_port a) then Inl addr_error
      else if \<not> no_tcp a \<and> \<not> listen_addr E a (tcp_port a) then Inl addr_error
      else if \<not> no_ws a \<and> \<not> listen_addr E a (ws_port a) then Inl addr_error
      else if metrics_port a = 0 \<and> no_tcp a \<and> no_ws a then Inl ''At least one transport must be enabled''
      else Inr \<lparr>d_metrics = (metrics_port a > 0),
             d_tcp = (if no_tcp a then None else Some (tcp_endpoint a storage tls)),
             d_ws = (if no_ws a then None else Some (ws_endpoint a storage tls))\<rparr>)"

definition main :: "environment \<Rightarrow> args \<Rightarrow> string + daemon" where
  "main E a =
     (case load_tls E a of
        Inl e \<Rightarrow> Inl e
      | Inr tls \<Rightarrow> start_listeners E a (open_storage E a) tls)"

subsection \<open>What the arguments promise\<close>

lemma endpoint_sel [simp]:
  "ep_password (tcp_endpoint a storage tls) = arg_password a" "ep_password (ws_endpoint a storage tls) = arg_password a"
  "ep_storage (tcp_endpoint a storage tls) = storage" "ep_storage (ws_endpoint a storage tls) = storage"
  "ep_tls (tcp_endpoint a storage tls) = tls" "ep_tls (ws_endpoint a storage tls) = tls"
  "ep_rate_limit (tcp_endpoint a storage tls) = limit_config a" "ep_rate_limit (ws_endpoint a storage tls) = limit_config a"
  "client_counter (tcp_endpoint a storage tls) = 0" "client_counter (ws_endpoint a storage tls) = 0"
  by (simp_all add: tcp_endpoint_def ws_endpoint_def Let_def tcp_with_password_def tcp_server_new_def tcp_with_storage_def
      tcp_with_tls_def tcp_with_rate_limit_def ws_with_password_def ws_server_new_def ws_with_storage_def
      ws_with_tls_def ws_with_rate_limit_def split: option.split)


definition demo_environment :: environment where
  "demo_environment = \<lparr>opens_database = (\<lambda>p. p = ''data.db''), loads_tls = (\<lambda>c k. Inl ''no such file''), socket_addr = (\<lambda>s. True)\<rparr>"


text \<open>
  The check that at least one transport is enabled counts the metrics listener: with both transports
  disabled the daemon refuses to start only when there is no metrics port either; with one it starts and
  serves no client at all.
\<close>

theorem no_transport_starts_with_metrics:
  assumes "no_tcp a" and "no_ws a" and "load_tls E a = Inr tls" and "\<forall>port. listen_addr E a port"
  shows "(metrics_port a = 0 \<longrightarrow> main E a = Inl ''At least one transport must be enabled'') \<and>
    (metrics_port a \<noteq> 0 \<longrightarrow> main E a = Inr \<lparr>d_metrics = True, d_tcp = None, d_ws = None\<rparr>)"
  using assms by (simp add: main_def start_listeners_def word_neq_0_conv)

lemma no_transport_starts_with_metrics_witness:
  "main demo_environment (args_default\<lparr>no_tcp := True, no_ws := True, metrics_port := 9090\<rparr>) =
     Inr \<lparr>d_metrics = True, d_tcp = None, d_ws = None\<rparr>"
  using no_transport_starts_with_metrics [of "args_default\<lparr>no_tcp := True, no_ws := True, metrics_port := 9090\<rparr>" demo_environment False]
  by (simp add: load_tls_def args_default_def listen_addr_def demo_environment_def)

lemma refill_empty: "max_tokens l = 0 \<Longrightarrow> tokens l = 0 \<Longrightarrow> tokens (refill t l) = 0 \<and> max_tokens (refill t l) = 0"
  by (simp add: refill_def Let_def)

lemma acquire_empty:
  "max_tokens l = 0 \<Longrightarrow> tokens l = 0 \<Longrightarrow> fst (acquire_all ts l) = replicate (length ts) False"
proof (induction ts arbitrary: l)
  case (Cons t ts)
  have "fst (acquire_all ts (refill t l)) = replicate (length ts) False"
    using refill_empty [of l t] Cons.prems by (intro Cons.IH) simp_all
  with refill_empty [of l t] Cons.prems show ?case by (auto simp: try_acquire_def Let_def split: prod.split)
qed simp

text \<open>
  The default burst is twice the rate in 32 bits: with a rate of exactly 2 to the 31 and no burst
  given, it is 0, and the limiter of every connection refuses every request for ever; for lower rates the
  default burst is the double, and a connection may begin with that many requests.
\<close>

theorem default_burst_overflows:
  assumes "rate_limit a > 0" and "rate_burst a = None"
  shows "\<exists>c. limit_config a = Some c \<and>
    (rate_limit a < 2147483648 \<longrightarrow> unat (burst_size c) = 2 * unat (rate_limit a)) \<and>
    (rate_limit a = 2147483648 \<longrightarrow> (\<forall>now ts. fst (acquire_all ts (limiter_new now c)) = replicate (length ts) False))"
proof -
  let ?c = "rate_limit_new (rate_limit a) (rate_limit a * 2)"
  have c: "limit_config a = Some ?c" using assms by (simp add: limit_config_def)
  have "unat (rate_limit a * 2) = 2 * unat (rate_limit a)" if "rate_limit a < 2147483648"
  proof -
    have "unat (rate_limit a) < 2147483648" using that by (simp add: word_less_nat_alt)
    then show ?thesis by (simp add: unat_word_ariths)
  qed
  moreover have "fst (acquire_all ts (limiter_new now ?c)) = replicate (length ts) False" if "rate_limit a = 2147483648" for now ts
    by (rule acquire_empty) (simp_all add: limiter_new_def rate_limit_new_def that Let_def)
  ultimately show ?thesis using c by (auto simp: rate_limit_new_def)
qed

lemma default_burst_overflows_witness:
  "\<exists>c. limit_config (args_default\<lparr>rate_limit := 2147483648\<rparr>) = Some c \<and>
     (\<forall>ts. fst (acquire_all ts (limiter_new 0 c)) = replicate (length ts) False)"
proof -
  let ?a = "args_default\<lparr>rate_limit := 2147483648\<rparr>"
  have "rate_limit ?a > 0" "rate_burst ?a = None" "rate_limit ?a = 2147483648" by (simp_all add: args_default_def)
  with default_burst_overflows [of ?a] show ?thesis by blast
qed

end
