(* ===== verification/Tls.thy ===== *)
theory Tls imports Daemon begin

section \<open>Loading certificates and keys (ussl-transport: tls.rs)\<close>

text \<open>
  Opening a file, the PEM reader and the making of a TLS configuration are outside the repository, as
  the record \<open>pem_lib\<close>. The loop over the items of a key file ends if each item read leaves less of the
  file, which is a hypothesis; without it the loop is partial.
\<close>

datatype tls_error =
    CertLoad string
  | KeyLoad string
  | Config string
  | Handshake string

fun tls_error_msg :: "tls_error \<Rightarrow> string" where
  "tls_error_msg (CertLoad s) = ''Failed to load certificate: '' @ s"
| "tls_error_msg (KeyLoad s) = ''Failed to load private key: '' @ s"
| "tls_error_msg (Config s) = ''TLS configuration error: '' @ s"
| "tls_error_msg (Handshake s) = ''TLS handshake failed: '' @ s"

datatype pem_item = Pkcs1Key bytes | Pkcs8Key bytes | Sec1Key bytes | OtherItem

datatype private_key = Pkcs1 bytes | Pkcs8 bytes | Sec1 bytes

record ('r, 'c) pem_lib =
  open_file :: "string \<Rightarrow> string + 'r"
  pem_certs :: "'r \<Rightarrow> (string + bytes) list"
  read_one :: "'r \<Rightarrow> (string + pem_item option) \<times> 'r"
  with_single_cert :: "bytes list \<Rightarrow> private_key \<Rightarrow> string + 'c"

text \<open>\<^verbatim>\<open>collect\<close> into a result stops at the first error.\<close>

fun collect_results :: "(string + 'a) list \<Rightarrow> string + 'a list" where
  "collect_results [] = Inr []"
| "collect_results (Inl e # xs) = Inl e"
| "collect_results (Inr x # xs) = (case collect_results xs of Inl e \<Rightarrow> Inl e | Inr ys \<Rightarrow> Inr (x # ys))"

definition load_certs :: "('r, 'c) pem_lib \<Rightarrow> string \<Rightarrow> tls_error + bytes list" where
  "load_certs P path =
     (case open_file P path of
        Inl e \<Rightarrow> Inl (CertLoad (path @ '': '' @ e))
      | Inr reader \<Rightarrow>
          (case collect_results (pem_certs P reader) of
             Inl e \<Rightarrow> Inl (CertLoad (''Failed to parse certificates: '' @ e))
           | Inr certs \<Rightarrow>
               if certs = [] then Inl (CertLoad ''No certificates found in file'') else Inr certs))"

partial_function (option) key_loop :: "('r, 'c) pem_lib \<Rightarrow> 'r \<Rightarrow> (tls_error + private_key) option" where
  "key_loop P reader =
     (case read_one P reader of
        (Inr (Some (Pkcs1Key k)), r) \<Rightarrow> Some (Inr (Pkcs1 k))
      | (Inr (Some (Pkcs8Key k)), r) \<Rightarrow> Some (Inr (Pkcs8 k))
      | (Inr (Some (Sec1Key k)), r) \<Rightarrow> Some (Inr (Sec1 k))
      | (Inr (Some OtherItem), r) \<Rightarrow> key_loop P r
      | (Inr None, r) \<Rightarrow> Some (Inl (KeyLoad ''No private key found in file''))
      | (Inl e, r) \<Rightarrow> Some (Inl (KeyLoad (''Failed to parse key: '' @ e))))"

definition load_private_key :: "('r, 'c) pem_lib \<Rightarrow> string \<Rightarrow> (tls_error + private_key) option" where
  "load_private_key P path =
     (case open_file P path of
        Inl e \<Rightarrow> Some (Inl (KeyLoad (path @ '': '' @ e)))
      | Inr reader \<Rightarrow> key_loop P reader)"

definition from_pem :: "('r, 'c) pem_lib \<Rightarrow> string \<Rightarrow> string \<Rightarrow> (tls_error + 'c) option" where
  "from_pem P cert_path key_path =
     (case load_certs P cert_path of
        Inl e \<Rightarrow> Some (Inl e)
      | Inr certs \<Rightarrow> do {
          k \<leftarrow> load_private_key P key_path;
          Some (case k of
             Inl e \<Rightarrow> Inl e
           | Inr key \<Rightarrow> (case with_single_cert P certs key of Inl e \<Rightarrow> Inl (Config e) | Inr c \<Rightarrow> Inr c))
        })"

subsection \<open>What loading gives\<close>

text \<open>The items that reading one after the other gives, up to the end of the file or an error.\<close>

inductive items :: "('r, 'c) pem_lib \<Rightarrow> 'r \<Rightarrow> pem_item list \<Rightarrow> string + unit \<Rightarrow> bool" for P where
  finish: "read_one P r = (Inr None, r') \<Longrightarrow> items P r [] (Inr ())"
| fails: "read_one P r = (Inl e, r') \<Longrightarrow> items P r [] (Inl e)"
| item: "read_one P r = (Inr (Some it), r') \<Longrightarrow> items P r' its e \<Longrightarrow> items P r (it # its) e"

definition consumes :: "('r, 'c) pem_lib \<Rightarrow> ('r \<Rightarrow> nat) \<Rightarrow> bool" where
  "consumes P left \<longleftrightarrow> (\<forall>r it r'. read_one P r = (Inr (Some it), r') \<longrightarrow> left r' < left r)"

fun key_of :: "pem_item \<Rightarrow> private_key option" where
  "key_of (Pkcs1Key k) = Some (Pkcs1 k)"
| "key_of (Pkcs8Key k) = Some (Pkcs8 k)"
| "key_of (Sec1Key k) = Some (Sec1 k)"
| "key_of OtherItem = None"

definition key_result :: "pem_item list \<Rightarrow> string + unit \<Rightarrow> tls_error + private_key" where
  "key_result its e =
     (case List.find (\<lambda>it. key_of it \<noteq> None) its of
        Some it \<Rightarrow> Inr (the (key_of it))
      | None \<Rightarrow> Inl (KeyLoad (case e of Inl x \<Rightarrow> ''Failed to parse key: '' @ x | Inr _ \<Rightarrow> ''No private key found in file'')))"

lemma items_exist: "consumes P left \<Longrightarrow> \<exists>its e. items P r its e"
proof (induction "left r" arbitrary: r rule: less_induct)
  case less
  obtain x r' where x: "read_one P r = (x, r')" by (cases "read_one P r")
  show ?case
  proof (cases x)
    case (Inl e)
    with x show ?thesis by (blast intro: items.fails)
  next
    case (Inr o')
    show ?thesis
    proof (cases o')
      case None
      with x Inr show ?thesis by (blast intro: items.finish)
    next
      case (Some it)
      with x Inr have r: "read_one P r = (Inr (Some it), r')" by simp
      with less.prems have "left r' < left r" by (simp add: consumes_def)
      from less.hyps [OF this less.prems] r show ?thesis by (blast intro: items.item)
    qed
  qed
qed

lemma key_loop_items: "items P r its e \<Longrightarrow> key_loop P r = Some (key_result its e)"
proof (induction rule: items.induct)
  case (item r it r' its e)
  then show ?case by (cases it) (simp_all add: key_loop.simps [of P r] key_result_def)
qed (simp_all add: key_loop.simps key_result_def)


text \<open>A library whose files are lists of items.\<close>

definition demo_pem :: "(pem_item list, private_key) pem_lib" where
  "demo_pem = \<lparr>open_file = (\<lambda>p. if p = ''cert.pem'' then Inr [OtherItem]
       else if p = ''key.pem'' then Inr [OtherItem, Sec1Key ''k'', Pkcs8Key ''l''] else Inl ''No such file or directory (os error 2)''),
     pem_certs = (\<lambda>r. map (\<lambda>it. Inr ''c'') (filter (\<lambda>it. it = OtherItem) r)),
     read_one = (\<lambda>r. case r of [] \<Rightarrow> (Inr None, []) | it # r \<Rightarrow> (Inr (Some it), r)),
     with_single_cert = (\<lambda>cs k. Inr k)\<rparr>"

lemma demo_pem_consumes: "consumes demo_pem length"
  by (simp add: consumes_def demo_pem_def split: list.split)

lemma demo_items_all: "items demo_pem r its e \<Longrightarrow> its = r \<and> e = Inr ()"
  by (induction rule: items.induct) (auto simp: demo_pem_def split: list.splits)


text \<open>The daemon, with the certificates loaded as above.\<close>

definition tls_environment :: "('r, 'c) pem_lib \<Rightarrow> environment \<Rightarrow> environment" where
  "tls_environment P E = E\<lparr>loads_tls := (\<lambda>c k. case from_pem P c k of Some (Inl e) \<Rightarrow> Inl (tls_error_msg e) | _ \<Rightarrow> Inr ())\<rparr>"

text \<open>
  A daemon that is given a certificate and a key file does not start when the key file holds no key,
  whatever else it is told; the message names the reason.
\<close>

theorem daemon_needs_key:
  assumes "consumes P left" and "open_file P cp = Inr rc" and "open_file P kp = Inr rk"
    and "collect_results (pem_certs P rc) = Inr (c # cs)" and "items P rk its (Inr ())" and "\<forall>it\<in>set its. it = OtherItem"
    and "tls_cert a = Some cp" and "tls_key a = Some kp"
  shows "main (tls_environment P E) a =
    Inl (''Failed to load TLS certificates: '' @ ''Failed to load private key: '' @ ''No private key found in file'')"
proof -
  have "List.find (\<lambda>it. key_of it \<noteq> None) its = None" using assms(6) by (auto simp: find_None_iff)
  then have "load_private_key P kp = Some (Inl (KeyLoad ''No private key found in file''))"
    using assms(3) key_loop_items [OF assms(5)] by (simp add: load_private_key_def key_result_def)
  then have "from_pem P cp kp = Some (Inl (KeyLoad ''No private key found in file''))"
    using assms(2,4) by (simp add: from_pem_def load_certs_def)
  then show ?thesis using assms(7,8) by (simp add: main_def load_tls_def tls_environment_def)
qed

lemma daemon_needs_key_witness:
  "main (tls_environment demo_pem demo_environment) (args_default\<lparr>tls_cert := Some ''cert.pem'', tls_key := Some ''cert.pem''\<rparr>) =
     Inl (''Failed to load TLS certificates: '' @ ''Failed to load private key: '' @ ''No private key found in file'')"
proof -
  have o: "open_file demo_pem ''cert.pem'' = Inr [OtherItem]" "collect_results (pem_certs demo_pem [OtherItem]) = Inr (''c'' # [])"
    by (simp_all add: demo_pem_def)
  have i: "items demo_pem [OtherItem] [OtherItem] (Inr ())"
    by (rule items.item [of _ _ _ "[]"], simp add: demo_pem_def) (rule items.finish, simp add: demo_pem_def)
  show ?thesis
    by (rule daemon_needs_key [OF demo_pem_consumes o(1,1,2) i]) simp_all
qed

end
