(* ===== verification/Metrics.thy ===== *)
theory Metrics imports RustStd begin

section \<open>Metrics (ussl-transport: metrics.rs)\<close>

text \<open>
  The metrics that the server defines, their registration, their updates and the HTTP endpoint.
  The registry of the library prometheus and its text format are parameters; a counter is a 64-bit word
  per list of label values.
\<close>

datatype metric_kind = CounterKind | GaugeKind | HistogramKind

record metric_spec =
  metric_name :: string
  metric_help :: string
  metric_kind :: metric_kind
  metric_labels :: "string list"

definition spec :: "metric_kind \<Rightarrow> string \<Rightarrow> string \<Rightarrow> string list \<Rightarrow> metric_spec" where
  "spec k name help labels = \<lparr>metric_name = name, metric_help = help, metric_kind = k, metric_labels = labels\<rparr>"

text \<open>All metrics, in the order in which they are made and registered.\<close>

definition METRICS :: "metric_spec list" where
  "METRICS = [
     spec CounterKind ''ussl_connections_total'' ''Total number of connections'' [''transport''],
     spec GaugeKind ''ussl_connections_active'' ''Number of active connections'' [''transport''],
     spec CounterKind ''ussl_commands_total'' ''Total number of commands processed'' [''command''],
     spec CounterKind ''ussl_commands_errors_total'' ''Total number of command errors'' [''command'', ''error_type''],
     spec HistogramKind ''ussl_command_duration_seconds'' ''Command processing duration'' [''command''],
     spec GaugeKind ''ussl_documents_total'' ''Total number of documents in memory'' [],
     spec CounterKind ''ussl_documents_created_total'' ''Total documents created'' [],
     spec CounterKind ''ussl_documents_deleted_total'' ''Total documents deleted'' [],
     spec CounterKind ''ussl_bytes_received_total'' ''Total bytes received from clients'' [],
     spec CounterKind ''ussl_bytes_sent_total'' ''Total bytes sent to clients'' [],
     spec GaugeKind ''ussl_subscriptions_active'' ''Number of active subscriptions'' [],
     spec CounterKind ''ussl_updates_published_total'' ''Total updates published to subscribers'' [],
     spec CounterKind ''ussl_rate_limited_requests_total'' ''Total requests rejected due to rate limiting'' [],
     spec CounterKind ''ussl_compactions_total'' ''Total document compactions performed'' [],
     spec CounterKind ''ussl_compaction_bytes_saved_total'' ''Total bytes saved by compaction'' [],
     spec CounterKind ''ussl_backups_total'' ''Total backups performed'' [],
     spec CounterKind ''ussl_restores_total'' ''Total restores performed'' []]"

record 'g prometheus =
  empty_registry :: 'g
  makes :: "metric_spec \<Rightarrow> bool"
  register :: "metric_spec \<Rightarrow> 'g \<Rightarrow> 'g option"

text \<open>Making and registering are unwrapped: \<open>None\<close> is a panic.\<close>

fun register_all :: "'g prometheus \<Rightarrow> metric_spec list \<Rightarrow> 'g \<Rightarrow> 'g option" where
  "register_all P [] g = Some g"
| "register_all P (m # ms) g = (case register P m g of None \<Rightarrow> None | Some g' \<Rightarrow> register_all P ms g')"

definition metrics_registry :: "'g prometheus \<Rightarrow> 'g option" where
  "metrics_registry P = (if list_all (makes P) METRICS then register_all P METRICS (empty_registry P) else None)"

subsection \<open>The values\<close>

record metrics =
  connections_total :: "string \<Rightarrow> u64"
  connections_active :: "string \<Rightarrow> i64"
  commands_total :: "string \<Rightarrow> u64"
  commands_errors :: "string \<times> string \<Rightarrow> u64"
  command_durations :: "string \<Rightarrow> f64 list"
  documents_total :: i64
  documents_created :: u64
  documents_deleted :: u64
  bytes_received :: u64
  bytes_sent :: u64
  subscriptions_active :: i64
  updates_published :: u64
  rate_limited_requests :: u64
  compactions_total :: u64
  compaction_bytes_saved :: u64
  backups_total :: u64
  restores_total :: u64

definition metrics_zero :: metrics where
  "metrics_zero = \<lparr>connections_total = (\<lambda>_. 0), connections_active = (\<lambda>_. 0), commands_total = (\<lambda>_. 0),
     commands_errors = (\<lambda>_. 0), command_durations = (\<lambda>_. []), documents_total = 0,
     documents_created = 0, documents_deleted = 0, bytes_received = 0, bytes_sent = 0, subscriptions_active = 0,
     updates_published = 0, rate_limited_requests = 0, compactions_total = 0, compaction_bytes_saved = 0,
     backups_total = 0, restores_total = 0\<rparr>"

definition record_connection :: "string \<Rightarrow> metrics \<Rightarrow> metrics" where
  "record_connection transport m = m\<lparr>
     connections_total := (connections_total m)(transport := connections_total m transport + 1),
     connections_active := (connections_active m)(transport := connections_active m transport + 1)\<rparr>"

definition record_disconnection :: "string \<Rightarrow> metrics \<Rightarrow> metrics" where
  "record_disconnection transport m = m\<lparr>
     connections_active := (connections_active m)(transport := connections_active m transport - 1)\<rparr>"

definition record_command :: "string \<Rightarrow> f64 \<Rightarrow> metrics \<Rightarrow> metrics" where
  "record_command command duration_secs m = m\<lparr>
     commands_total := (commands_total m)(command := commands_total m command + 1),
     command_durations := (command_durations m)(command := command_durations m command @ [duration_secs])\<rparr>"

definition record_error :: "string \<Rightarrow> string \<Rightarrow> metrics \<Rightarrow> metrics" where
  "record_error command error_type m = m\<lparr>
     commands_errors := (commands_errors m)((command, error_type) := commands_errors m (command, error_type) + 1)\<rparr>"

definition set_document_count :: "i64 \<Rightarrow> metrics \<Rightarrow> metrics" where
  "set_document_count n m = m\<lparr>documents_total := n\<rparr>"

definition record_bytes :: "u64 \<Rightarrow> u64 \<Rightarrow> metrics \<Rightarrow> metrics" where
  "record_bytes received sent_bytes m = m\<lparr>bytes_received := bytes_received m + received, bytes_sent := bytes_sent m + sent_bytes\<rparr>"

subsection \<open>The HTTP endpoint\<close>

text \<open>What is answered to the bytes of the one read of a connection; \<open>body\<close> is the export of the registry.\<close>

definition NL :: string where
  "NL = [CHR 0x0D, CHR 0x0A]"

definition METRICS_HEAD :: string where
  "METRICS_HEAD = ''HTTP/1.1 200 OK'' @ NL @ ''Content-Type: text/plain; version=0.0.4; charset=utf-8'' @ NL @ ''Content-Length: ''"

definition HEALTH_REPLY :: string where
  "HEALTH_REPLY = ''HTTP/1.1 200 OK'' @ NL @ ''Content-Type: text/plain'' @ NL @ ''Content-Length: 2'' @ NL @ NL @ ''OK''"

definition NOT_FOUND_REPLY :: string where
  "NOT_FOUND_REPLY = ''HTTP/1.1 404 Not Found'' @ NL @ ''Content-Length: 0'' @ NL @ NL"

definition REQUEST_SIZE :: nat where
  "REQUEST_SIZE = 1024"

definition metrics_reply :: "string \<Rightarrow> bytes \<Rightarrow> bytes option" where
  "metrics_reply body piece =
     (if piece = [] then None
      else let request = from_utf8_lossy (take REQUEST_SIZE piece) in
        Some (if prefix ''GET /metrics'' request \<or> prefix ''GET / '' request
              then METRICS_HEAD @ show_nat (length body) @ NL @ NL @ body
              else if prefix ''GET /health'' request then HEALTH_REPLY
              else NOT_FOUND_REPLY))"

subsection \<open>Registration never panics\<close>

text \<open>What prometheus documents: names and labels of the usual form are accepted, a name once in a registry.\<close>

definition name_start :: "char \<Rightarrow> bool" where
  "name_start c \<longleftrightarrow> 65 \<le> byte c \<and> byte c \<le> 90 \<or> 97 \<le> byte c \<and> byte c \<le> 122 \<or> c = CHR ''_''"

definition good_name :: "string \<Rightarrow> bool" where
  "good_name s \<longleftrightarrow> s \<noteq> [] \<and> name_start (hd s) \<and> list_all (\<lambda>c. name_start c \<or> is_digit c) s"

definition prometheus_documented :: "'g prometheus \<Rightarrow> ('g \<Rightarrow> string set) \<Rightarrow> bool" where
  "prometheus_documented P names \<longleftrightarrow> names (empty_registry P) = {} \<and>
     (\<forall>m. good_name (metric_name m) \<and> metric_help m \<noteq> [] \<and> list_all good_name (metric_labels m) \<and> distinct (metric_labels m) \<longrightarrow> makes P m) \<and>
     (\<forall>m g. metric_name m \<notin> names g \<longrightarrow> (\<exists>g'. register P m g = Some g' \<and> names g' = insert (metric_name m) (names g)))"

lemma register_distinct:
  "prometheus_documented P names \<Longrightarrow> distinct (map metric_name ms) \<Longrightarrow> set (map metric_name ms) \<inter> names g = {} \<Longrightarrow>
    \<exists>g'. register_all P ms g = Some g' \<and> names g' = set (map metric_name ms) \<union> names g"
proof (induction ms arbitrary: g)
  case (Cons m ms)
  then obtain g1 where g1: "register P m g = Some g1" "names g1 = insert (metric_name m) (names g)"
    unfolding prometheus_documented_def by (metis IntI empty_iff list.set_intros(1) list.simps(9))
  from Cons.IH [of g1] Cons.prems g1 show ?case by auto
qed simp

lemma METRICS_distinct: "distinct (map metric_name METRICS)"
  by (simp add: METRICS_def spec_def)

lemma METRICS_good:
  "list_all (\<lambda>m. good_name (metric_name m) \<and> metric_help m \<noteq> [] \<and> list_all good_name (metric_labels m) \<and> distinct (metric_labels m)) METRICS"
  by (simp add: METRICS_def spec_def good_name_def name_start_def is_digit_def byte_def)

text \<open>
  Setting up the metrics never panics: every metric has a valid name and valid, distinct labels, no two
  have the same name, and all of them are registered.
\<close>

theorem metrics_registered:
  assumes "prometheus_documented P names"
  shows "\<exists>g. metrics_registry P = Some g \<and> names g = set (map metric_name METRICS)"
proof -
  have "list_all (makes P) METRICS"
    using METRICS_good assms unfolding prometheus_documented_def list_all_iff by blast
  moreover have "names (empty_registry P) = {}" using assms by (simp add: prometheus_documented_def)
  ultimately show ?thesis
    using register_distinct [OF assms METRICS_distinct, of "empty_registry P"] by (simp add: metrics_registry_def)
qed

lemma metrics_registered_witness:
  "\<exists>g. metrics_registry \<lparr>empty_registry = {}, makes = (\<lambda>m. metric_help m \<noteq> []),
       register = (\<lambda>m g. if metric_name m \<in> g then None else Some (insert (metric_name m) g))\<rparr> = Some g \<and>
     ''ussl_backups_total'' \<in> g"
proof -
  let ?P = "\<lparr>empty_registry = {}, makes = (\<lambda>m. metric_help m \<noteq> []),
       register = (\<lambda>m g. if metric_name m \<in> g then None else Some (insert (metric_name m) g))\<rparr> :: string set prometheus"
  have "prometheus_documented ?P (\<lambda>g. g)" by (simp add: prometheus_documented_def)
  from metrics_registered [OF this] show ?thesis by (auto simp: METRICS_def spec_def)
qed

subsection \<open>Every reply is a complete HTTP response\<close>

text \<open>A reader of responses as a client would write it: the head ends at an empty line, and the body has the announced length.\<close>

fun split_head :: "bytes \<Rightarrow> (bytes \<times> bytes) option" where
  "split_head [] = None"
| "split_head (c # s) =
     (if prefix (NL @ NL) (c # s) then Some ([], drop 3 s) else map_option (\<lambda>(h, b). (c # h, b)) (split_head s))"

fun header_value :: "string \<Rightarrow> bytes \<Rightarrow> string option" where
  "header_value name [] = None"
| "header_value name (c # s) =
     (if prefix (NL @ name) (c # s) then Some (takeWhile (\<lambda>x. x \<noteq> CHR 0x0D) (drop (length (NL @ name)) (c # s)))
      else header_value name s)"

definition http_body :: "bytes \<Rightarrow> (bytes \<times> bytes) option" where
  "http_body resp =
     (case split_head resp of
        None \<Rightarrow> None
      | Some (h, b) \<Rightarrow>
          (case Option.bind (header_value ''Content-Length: '' h) parse_usize of
             None \<Rightarrow> None
           | Some n \<Rightarrow> if n \<le> length b then Some (take n b, drop n b) else None))"

lemma split_head_digits: "CHR 0x0D \<notin> set ds \<Longrightarrow> split_head (ds @ NL @ NL @ b) = Some (ds, b)"
proof (induction ds)
  case Nil
  show ?case by (simp add: NL_def)
next
  case (Cons c ds)
  then show ?case by (simp add: NL_def)
qed

lemma show_nat_no_CR: "CHR 0x0D \<notin> set (show_nat n)"
  using show_nat_digits [of n] by (auto simp: list_all_iff is_digit_def byte_def)

lemma split_metrics_head:
  "split_head (METRICS_HEAD @ ds @ NL @ NL @ b) = map_option (\<lambda>(h, b). (METRICS_HEAD @ h, b)) (split_head (ds @ NL @ NL @ b))"
  by (cases "split_head (ds @ NL @ NL @ b)") (auto simp: METRICS_HEAD_def NL_def)

lemma metrics_head_value:
  "header_value ''Content-Length: '' (METRICS_HEAD @ ds) = Some (takeWhile (\<lambda>x. x \<noteq> CHR 0x0D) ds)"
  by (simp add: METRICS_HEAD_def NL_def)



text \<open>
  The endpoint reads once: a request for the metrics whose first piece ends within the path is
  answered with not found.
\<close>

theorem metrics_request_cut:
  assumes "0 < n" and "n < 12"
  shows "metrics_reply body (take n ''GET /metrics HTTP/1.1'') = Some NOT_FOUND_REPLY"
proof -
  have "n \<in> {1, 2, 3, 4, 5, 6, 7, 8, 9, 10, 11}" using assms by simp arith
  then show ?thesis
    by (elim insertE emptyE) (simp_all add: metrics_reply_def Let_def REQUEST_SIZE_def utf8_chunk_ascii byte_def)
qed

lemma metrics_request_cut_witness: "metrics_reply ''x'' (take 8 ''GET /metrics HTTP/1.1'') = Some NOT_FOUND_REPLY"
  using metrics_request_cut [of 8 "''x''"] by simp

subsection \<open>What the values count\<close>

datatype metrics_event = Connected string | Disconnected string

fun apply_event :: "metrics_event \<Rightarrow> metrics \<Rightarrow> metrics" where
  "apply_event (Connected t) m = record_connection t m"
| "apply_event (Disconnected t) m = record_disconnection t m"

text \<open>
  The connection metrics count what they are told: after any sequence of connections and
  disconnections the total of a transport is its number of connections and the active ones are those
  less its disconnections, each modulo 2 to the 64; other metrics stay.
\<close>

theorem connections_counted:
  "let m = fold apply_event es metrics_zero;
       opened = length (filter (\<lambda>e. e = Connected t) es); closed = length (filter (\<lambda>e. e = Disconnected t) es)
   in connections_total m t = word_of_nat opened \<and>
     connections_active m t = word_of_int (int opened - int closed) \<and>
     commands_total m = commands_total metrics_zero \<and> documents_total m = 0"
proof (induction es rule: rev_induct)
  case (snoc e es)
  then show ?case
    by (cases e) (auto simp: Let_def record_connection_def record_disconnection_def)
qed (simp add: metrics_zero_def)

end
