(* ===== verification/Benchmark.thy ===== *)
theory Benchmark imports Cli begin

section \<open>The benchmark (examples/benchmark.rs)\<close>

text \<open>
  The load generator: many clients that are made ready, wait for one another at a barrier, and then send
  commands and count the answers. The server is given as the replies it will make to each client.
  Elapsed times are readings handed in; the two quotients that the report prints in floating point and
  its layout are left out.
\<close>

record bench_config =
  clients :: nat
  ops_per_client :: nat
  bench_password :: "string option"

subsection \<open>A client\<close>

text \<open>
  A client keeps its reader: \<open>unread\<close> is what it has received and not read. The server answers each
  command in turn with the next of \<open>replies\<close>, bytes or a failure; behind the last the stream has ended.
\<close>

record bench_client =
  unread :: bytes
  replies :: "(string + bytes) list"
  written :: bytes

definition next_line :: "bench_client \<Rightarrow> (string + string) \<times> bench_client" where
  "next_line c =
     (if LF \<in> set (unread c) then (case split_line (unread c) of (l, r) \<Rightarrow> (utf8_line l, c\<lparr>unread := r\<rparr>))
      else (utf8_line (unread c), c\<lparr>unread := []\<rparr>))"

definition bench_send :: "string \<Rightarrow> bench_client \<Rightarrow> (string + string) \<times> bench_client" where
  "bench_send cmd c =
     (let c = c\<lparr>written := written c @ cmd @ CRLF\<rparr> in
      case replies c of
        [] \<Rightarrow> next_line c
      | Inl e # rs \<Rightarrow> (Inl e, c\<lparr>replies := rs\<rparr>)
      | Inr b # rs \<Rightarrow> next_line (c\<lparr>replies := rs, unread := unread c @ b\<rparr>))"

definition bench_auth :: "string \<Rightarrow> bench_client \<Rightarrow> (string + unit) \<times> bench_client" where
  "bench_auth pwd c =
     (case bench_send (''AUTH '' @ pwd) c of
        (Inl e, c') \<Rightarrow> (Inl e, c')
      | (Inr resp, c') \<Rightarrow> if prefix ''+OK'' resp then (Inr (), c') else (Inl (''Auth failed: '' @ resp), c'))"

fun send_all :: "string list \<Rightarrow> bench_client \<Rightarrow> bench_client" where
  "send_all [] c = c"
| "send_all (cmd # cmds) c = send_all cmds (snd (bench_send cmd c))"

subsection \<open>The four kinds of load\<close>

text \<open>
  What differs between the four benchmarks: the title, the commands that make a client ready, the command of
  each operation, and the answers that count as successful.
\<close>

record bench_kind =
  title :: string
  prepare_cmds :: "nat \<Rightarrow> string list"
  op_cmd :: "nat \<Rightarrow> nat \<Rightarrow> string"
  counts_ok :: "string \<Rightarrow> bool"

definition quoted :: "string \<Rightarrow> string" where
  "quoted s = [CHR 0x22] @ s @ [CHR 0x22]"

definition SET_KIND :: bench_kind where
  "SET_KIND = \<lparr>title = ''SET Benchmark'',
     prepare_cmds = (\<lambda>i. [''CREATE bench:set:'' @ show_nat i @ '' STRATEGY lww'']),
     op_cmd = (\<lambda>i k. ''SET bench:set:'' @ show_nat i @ '' key'' @ show_nat k @ '' '' @ quoted (''value'' @ show_nat k)),
     counts_ok = (\<lambda>resp. prefix ''+OK'' resp)\<rparr>"

definition GET_KIND :: bench_kind where
  "GET_KIND = \<lparr>title = ''GET Benchmark'',
     prepare_cmds = (\<lambda>i. [''CREATE bench:get:'' @ show_nat i @ '' STRATEGY lww'',
       ''SET bench:get:'' @ show_nat i @ '' data '' @ quoted ''test-value'']),
     op_cmd = (\<lambda>i k. ''GET bench:get:'' @ show_nat i),
     counts_ok = (\<lambda>resp. \<not> prefix ''-ERR'' resp)\<rparr>"

definition INC_KIND :: bench_kind where
  "INC_KIND = \<lparr>title = ''INC Benchmark'',
     prepare_cmds = (\<lambda>i. [''CREATE bench:inc:'' @ show_nat i @ '' STRATEGY crdt-counter'']),
     op_cmd = (\<lambda>i k. ''INC bench:inc:'' @ show_nat i @ '' counter 1''),
     counts_ok = (\<lambda>resp. prefix '':'' resp \<or> prefix ''+OK'' resp)\<rparr>"

definition MIXED_KIND :: bench_kind where
  "MIXED_KIND = \<lparr>title = ''MIXED Benchmark'',
     prepare_cmds = (\<lambda>i. [''CREATE bench:mixed:lww:'' @ show_nat i @ '' STRATEGY lww'',
       ''CREATE bench:mixed:counter:'' @ show_nat i @ '' STRATEGY crdt-counter'']),
     op_cmd = (\<lambda>i k.
       if k mod 5 \<le> 1 then ''SET bench:mixed:lww:'' @ show_nat i @ '' key'' @ show_nat k @ '' '' @ quoted (''value'' @ show_nat k)
       else if k mod 5 \<le> 3 then ''GET bench:mixed:lww:'' @ show_nat i
       else ''INC bench:mixed:counter:'' @ show_nat i @ '' counter 1''),
     counts_ok = (\<lambda>resp. \<not> prefix ''-ERR'' resp)\<rparr>"

subsection \<open>One task\<close>

text \<open>Making a client ready; \<open>None\<close> when the task returns early, before the barrier.\<close>

definition bench_setup :: "bench_kind \<Rightarrow> string option \<Rightarrow> nat \<Rightarrow> string + bench_client \<Rightarrow> bench_client option" where
  "bench_setup K pw i conn =
     (case conn of
        Inl e \<Rightarrow> None
      | Inr c \<Rightarrow>
          (case pw of
             None \<Rightarrow> Some (send_all (prepare_cmds K i) c)
           | Some pass \<Rightarrow>
               (case bench_auth pass c of
                  (Inl e, c') \<Rightarrow> None
                | (Inr _, c') \<Rightarrow> Some (send_all (prepare_cmds K i) c'))))"

text \<open>One operation: whether it counts as successful, and the client behind it.\<close>

definition bench_op :: "bench_kind \<Rightarrow> nat \<Rightarrow> nat \<Rightarrow> bench_client \<Rightarrow> bool \<times> bench_client" where
  "bench_op K i k c =
     (case bench_send (op_cmd K i k) c of
        (Inr resp, c') \<Rightarrow> (counts_ok K resp, c')
      | (Inl e, c') \<Rightarrow> (False, c'))"

subsection \<open>All tasks\<close>

datatype worker = Starting | AtBarrier bench_client | Working bench_client nat | Finished

record bench_state =
  workers :: "worker list"
  arrived :: nat
  successful :: u64
  failed :: u64
  latency_ns :: u64

definition bench_start :: "bench_config \<Rightarrow> bench_state" where
  "bench_start cfg = \<lparr>workers = replicate (clients cfg) Starting, arrived = 0, successful = 0, failed = 0, latency_ns = 0\<rparr>"

definition count_op :: "bool \<Rightarrow> u64 \<Rightarrow> bench_state \<Rightarrow> bench_state" where
  "count_op ok elapsed s =
     (if ok then s\<lparr>successful := successful s + 1, latency_ns := latency_ns s + elapsed\<rparr> else s\<lparr>failed := failed s + 1\<rparr>)"

definition set_worker :: "nat \<Rightarrow> worker \<Rightarrow> bench_state \<Rightarrow> bench_state" where
  "set_worker i w s = s\<lparr>workers := (workers s)[i := w]\<rparr>"

definition is_worker :: "bench_state \<Rightarrow> nat \<Rightarrow> worker \<Rightarrow> bool" where
  "is_worker s i w \<longleftrightarrow> i < length (workers s) \<and> workers s ! i = w"

text \<open>Any task moves next; the barrier lets its waiters through once as many have arrived as there are clients.\<close>

inductive bench_step ::
  "bench_kind \<Rightarrow> bench_config \<Rightarrow> (nat \<Rightarrow> string + bench_client) \<Rightarrow> bench_state \<Rightarrow> bench_state \<Rightarrow> bool" for K cfg conns where
  early: "is_worker s i Starting \<Longrightarrow> bench_setup K (bench_password cfg) i (conns i) = None \<Longrightarrow>
    bench_step K cfg conns s (set_worker i Finished s)"
| ready: "is_worker s i Starting \<Longrightarrow> bench_setup K (bench_password cfg) i (conns i) = Some c \<Longrightarrow>
    bench_step K cfg conns s (set_worker i (AtBarrier c) (s\<lparr>arrived := Suc (arrived s)\<rparr>))"
| release: "is_worker s i (AtBarrier c) \<Longrightarrow> clients cfg \<le> arrived s \<Longrightarrow>
    bench_step K cfg conns s (set_worker i (Working c 0) s)"
| op: "is_worker s i (Working c k) \<Longrightarrow> k < ops_per_client cfg \<Longrightarrow> bench_op K i k c = (ok, c') \<Longrightarrow>
    bench_step K cfg conns s (set_worker i (Working c' (Suc k)) (count_op ok elapsed s))"
| finish: "is_worker s i (Working c k) \<Longrightarrow> ops_per_client cfg \<le> k \<Longrightarrow>
    bench_step K cfg conns s (set_worker i Finished s)"

inductive_cases bench_stepE: "bench_step K cfg conns s t"

definition all_finished :: "bench_state \<Rightarrow> bool" where
  "all_finished s \<longleftrightarrow> (\<forall>w\<in>set (workers s). w = Finished)"

subsection \<open>A benchmark as a function\<close>

text \<open>
  What the report says: the totals, or \<open>None\<close> if the benchmark never returns because some clients are
  made ready and others are not. That this is what every schedule gives is proved in the laws.
\<close>

record bench_results =
  result_title :: string
  total_ops :: u64
  result_ok :: u64
  result_failed :: u64

fun work :: "bench_kind \<Rightarrow> nat \<Rightarrow> nat \<Rightarrow> nat \<Rightarrow> bench_client \<Rightarrow> nat" where
  "work K i k 0 c = 0"
| "work K i k (Suc n) c = (case bench_op K i k c of (ok, c') \<Rightarrow> (if ok then 1 else 0) + work K i (Suc k) n c')"

definition setups :: "bench_kind \<Rightarrow> bench_config \<Rightarrow> (nat \<Rightarrow> string + bench_client) \<Rightarrow> bench_client option list" where
  "setups K cfg conns = map (\<lambda>i. bench_setup K (bench_password cfg) i (conns i)) [0..<clients cfg]"

definition client_successes :: "bench_kind \<Rightarrow> bench_config \<Rightarrow> (nat \<Rightarrow> string + bench_client) \<Rightarrow> nat \<Rightarrow> nat" where
  "client_successes K cfg conns i =
     (case bench_setup K (bench_password cfg) i (conns i) of
        None \<Rightarrow> 0
      | Some c \<Rightarrow> work K i 0 (ops_per_client cfg) c)"

definition client_ops :: "bench_kind \<Rightarrow> bench_config \<Rightarrow> (nat \<Rightarrow> string + bench_client) \<Rightarrow> nat \<Rightarrow> nat" where
  "client_ops K cfg conns i =
     (case bench_setup K (bench_password cfg) i (conns i) of None \<Rightarrow> 0 | Some c \<Rightarrow> ops_per_client cfg)"

definition bench_results_of :: "bench_kind \<Rightarrow> bench_config \<Rightarrow> bench_state \<Rightarrow> bench_results" where
  "bench_results_of K cfg s = \<lparr>result_title = title K @ '' ('' @ show_nat (clients cfg) @ '' clients '' @ [CHR 0xC3, CHR 0x97] @ '' '' @
       show_nat (ops_per_client cfg) @ '' ops)'',
     total_ops = word_of_nat (clients cfg * ops_per_client cfg), result_ok = successful s, result_failed = failed s\<rparr>"

definition bench_run :: "bench_kind \<Rightarrow> bench_config \<Rightarrow> (nat \<Rightarrow> string + bench_client) \<Rightarrow> bench_results option" where
  "bench_run K cfg conns =
     (if (\<forall>c\<in>set (setups K cfg conns). c = None) \<or> (\<forall>c\<in>set (setups K cfg conns). c \<noteq> None)
      then let ok = sum_list (map (client_successes K cfg conns) [0..<clients cfg]);
               n = sum_list (map (client_ops K cfg conns) [0..<clients cfg])
           in Some (bench_results_of K cfg ((bench_start cfg)\<lparr>successful := word_of_nat ok, failed := word_of_nat (n - ok)\<rparr>))
      else None)"

definition bench_set :: "bench_config \<Rightarrow> (nat \<Rightarrow> string + bench_client) \<Rightarrow> bench_results option" where
  "bench_set = bench_run SET_KIND"

definition bench_get :: "bench_config \<Rightarrow> (nat \<Rightarrow> string + bench_client) \<Rightarrow> bench_results option" where
  "bench_get = bench_run GET_KIND"

definition bench_inc :: "bench_config \<Rightarrow> (nat \<Rightarrow> string + bench_client) \<Rightarrow> bench_results option" where
  "bench_inc = bench_run INC_KIND"

definition bench_mixed :: "bench_config \<Rightarrow> (nat \<Rightarrow> string + bench_client) \<Rightarrow> bench_results option" where
  "bench_mixed = bench_run MIXED_KIND"

subsection \<open>Connections, arguments and the whole program\<close>

definition ping_ok :: "string option \<Rightarrow> string + bench_client \<Rightarrow> bool" where
  "ping_ok pw conn =
     (case conn of
        Inl e \<Rightarrow> False
      | Inr c \<Rightarrow>
          (case (case pw of None \<Rightarrow> (Inr (), c) | Some pass \<Rightarrow> bench_auth pass c) of
             (Inl e, c') \<Rightarrow> False
           | (Inr _, c') \<Rightarrow> (case fst (bench_send ''PING'' c') of Inl e \<Rightarrow> False | Inr resp \<Rightarrow> sublist ''PONG'' resp)))"

definition bench_connections :: "nat \<Rightarrow> string option \<Rightarrow> (nat \<Rightarrow> string + bench_client) \<Rightarrow> bench_results" where
  "bench_connections max_clients pw conns =
     (let ok = length (filter (\<lambda>i. ping_ok pw (conns i)) [0..<max_clients])
      in \<lparr>result_title = ''Connection Benchmark ('' @ show_nat max_clients @ '' clients)'', total_ops = word_of_nat max_clients,
           result_ok = word_of_nat ok, result_failed = word_of_nat (max_clients - ok)\<rparr>)"

text \<open>The value behind the first occurrence of an option.\<close>

fun arg_value :: "string \<Rightarrow> string \<Rightarrow> string list \<Rightarrow> string option" where
  "arg_value short long [] = None"
| "arg_value short long (a # as) =
     (if a = short \<or> a = long then (case as of [] \<Rightarrow> None | v # _ \<Rightarrow> Some v) else arg_value short long as)"

record bench_options =
  opt_host :: string
  opt_port :: nat
  opt_config :: bench_config

definition bench_options :: "string list \<Rightarrow> bench_options" where
  "bench_options as =
     \<lparr>opt_host = (case arg_value ''-H'' ''--host'' as of Some h \<Rightarrow> h | None \<Rightarrow> ''127.0.0.1''),
      opt_port = (case Option.bind (arg_value ''-p'' ''--port'' as) (parse_unsigned 16) of Some p \<Rightarrow> p | None \<Rightarrow> 6380),
      opt_config = \<lparr>clients = (case Option.bind (arg_value ''-c'' ''--clients'' as) parse_usize of Some n \<Rightarrow> n | None \<Rightarrow> 10),
        ops_per_client = (case Option.bind (arg_value ''-n'' ''--ops'' as) parse_usize of Some n \<Rightarrow> n | None \<Rightarrow> 1000),
        bench_password = arg_value ''-a'' ''--password'' as\<rparr>\<rparr>"

definition cleanup_cmds :: "nat \<Rightarrow> string list" where
  "cleanup_cmds n = concat (map (\<lambda>i.
     [''DEL bench:set:'' @ show_nat i, ''DEL bench:get:'' @ show_nat i, ''DEL bench:inc:'' @ show_nat i,
      ''DEL bench:mixed:lww:'' @ show_nat i, ''DEL bench:mixed:counter:'' @ show_nat i]) [0..<n])"

definition bench_cleanup :: "nat \<Rightarrow> string option \<Rightarrow> string + bench_client \<Rightarrow> bench_client option" where
  "bench_cleanup n pw conn =
     (case conn of
        Inl e \<Rightarrow> None
      | Inr c \<Rightarrow> Some (send_all (cleanup_cmds n)
          (case pw of None \<Rightarrow> c | Some pass \<Rightarrow> snd (bench_auth pass c))))"

text \<open>The check of the connection before anything else: what it reports, and whether the program goes on.\<close>

definition bench_check :: "string option \<Rightarrow> string + bench_client \<Rightarrow> string + unit" where
  "bench_check pw conn =
     (case conn of
        Inl e \<Rightarrow> Inl (''FAILED: '' @ e)
      | Inr c \<Rightarrow>
          (case (case pw of None \<Rightarrow> (Inr (), c) | Some pass \<Rightarrow> bench_auth pass c) of
             (Inl e, c') \<Rightarrow> Inl (''AUTH FAILED: '' @ e)
           | (Inr _, c') \<Rightarrow>
               (case fst (bench_send ''PING'' c') of
                  Inl e \<Rightarrow> Inl (''ERROR: '' @ e)
                | Inr resp \<Rightarrow> if sublist ''PONG'' resp then Inr () else Inl ''ERROR: Unexpected response'')))"

text \<open>
  The whole program, for given connections of its check, its five benchmarks and its cleaning up at an address:
  the reports, or \<open>None\<close> if one of the benchmarks does not return. \<open>parse_addr\<close> reads a socket address, or
  gives the error that the program then ends with.
\<close>

definition bench_main ::
  "(string \<Rightarrow> string + 'a) \<Rightarrow> string list \<Rightarrow> ('a \<Rightarrow> string + bench_client) \<Rightarrow> ('a \<Rightarrow> nat \<Rightarrow> nat \<Rightarrow> string + bench_client) \<Rightarrow>
     ('a \<Rightarrow> string + bench_client) \<Rightarrow> (string + bench_results list \<times> bench_client option) option" where
  "bench_main parse_addr as conn conns last_conn =
     (let opts = bench_options as; cfg = opt_config opts; pw = bench_password cfg in
      case parse_addr (opt_host opts @ '':'' @ show_nat (opt_port opts)) of
        Inl e \<Rightarrow> Some (Inl e)
      | Inr addr \<Rightarrow>
          (case bench_check pw (conn addr) of
             Inl e \<Rightarrow> Some (Inl e)
           | Inr _ \<Rightarrow> do {
               let r1 = bench_connections (clients cfg * 2) pw (conns addr 0);
               r2 \<leftarrow> bench_set cfg (conns addr 1);
               r3 \<leftarrow> bench_get cfg (conns addr 2);
               r4 \<leftarrow> bench_inc cfg (conns addr 3);
               r5 \<leftarrow> bench_mixed cfg (conns addr 4);
               Some (Inr ([r1, r2, r3, r4, r5], bench_cleanup (clients cfg) pw (last_conn addr)))
             }))"

end
