(* ===== verification/BenchmarkLaws.thy ===== *)
theory BenchmarkLaws imports Benchmark CliLaws begin

section \<open>What the benchmark measures\<close>

text \<open>
  Every schedule of the tasks gives the totals that \<open>bench_run\<close> computes; a benchmark returns unless some
  clients are made ready and others are not, and then it never does. The answers that GET is given credit
  for are not its own.
\<close>

subsection \<open>What is still to be done\<close>

fun left_ok :: "bench_kind \<Rightarrow> bench_config \<Rightarrow> (nat \<Rightarrow> string + bench_client) \<Rightarrow> nat \<Rightarrow> worker \<Rightarrow> nat" where
  "left_ok K cfg conns i Starting = client_successes K cfg conns i"
| "left_ok K cfg conns i (AtBarrier c) = work K i 0 (ops_per_client cfg) c"
| "left_ok K cfg conns i (Working c k) = work K i k (ops_per_client cfg - k) c"
| "left_ok K cfg conns i Finished = 0"

fun left_ops :: "bench_kind \<Rightarrow> bench_config \<Rightarrow> (nat \<Rightarrow> string + bench_client) \<Rightarrow> nat \<Rightarrow> worker \<Rightarrow> nat" where
  "left_ops K cfg conns i Starting = client_ops K cfg conns i"
| "left_ops K cfg conns i (AtBarrier c) = ops_per_client cfg"
| "left_ops K cfg conns i (Working c k) = ops_per_client cfg - k"
| "left_ops K cfg conns i Finished = 0"

definition total :: "(nat \<Rightarrow> worker \<Rightarrow> nat) \<Rightarrow> worker list \<Rightarrow> nat" where
  "total f ws = (\<Sum>i<length ws. f i (ws ! i))"

lemma total_update:
  assumes "i < length ws"
  shows "total f (ws[i := w]) + f i (ws ! i) = total f ws + f i w"
proof -
  have "(\<Sum>j\<in>{..<length ws} - {i}. f j (ws[i := w] ! j)) = (\<Sum>j\<in>{..<length ws} - {i}. f j (ws ! j))"
    by (rule sum.cong) auto
  then show ?thesis
    using assms sum.remove [of "{..<length ws}" i "\<lambda>j. f j (ws ! j)"] sum.remove [of "{..<length ws}" i "\<lambda>j. f j (ws[i := w] ! j)"]
    by (simp add: total_def)
qed

lemma total_finished: "\<forall>w\<in>set ws. w = Finished \<Longrightarrow> \<forall>i. f i Finished = 0 \<Longrightarrow> total f ws = 0"
  by (simp add: total_def all_set_conv_all_nth)

lemma work_le: "work K i k n c \<le> n"
proof (induction n arbitrary: k c)
  case (Suc n)
  obtain ok c' where "bench_op K i k c = (ok, c')" by (cases "bench_op K i k c")
  with Suc.IH [of "Suc k" c'] show ?case by simp
qed simp

lemma successes_le: "client_successes K cfg conns i \<le> client_ops K cfg conns i"
  by (simp add: client_successes_def client_ops_def work_le split: option.split)

subsection \<open>The invariant\<close>

definition has_setup :: "bench_kind \<Rightarrow> bench_config \<Rightarrow> (nat \<Rightarrow> string + bench_client) \<Rightarrow> nat \<Rightarrow> bool" where
  "has_setup K cfg conns i \<longleftrightarrow> bench_setup K (bench_password cfg) i (conns i) \<noteq> None"

definition arrivals :: "bench_kind \<Rightarrow> bench_config \<Rightarrow> (nat \<Rightarrow> string + bench_client) \<Rightarrow> worker list \<Rightarrow> nat set" where
  "arrivals K cfg conns ws = {i. i < length ws \<and> ws ! i \<noteq> Starting \<and> has_setup K cfg conns i}"

definition counters_ok :: "bench_kind \<Rightarrow> bench_config \<Rightarrow> (nat \<Rightarrow> string + bench_client) \<Rightarrow> bench_state \<Rightarrow> bool" where
  "counters_ok K cfg conns s \<longleftrightarrow>
     successful s + word_of_nat (total (left_ok K cfg conns) (workers s)) =
       word_of_nat (\<Sum>i<clients cfg. client_successes K cfg conns i) \<and>
     successful s + failed s + word_of_nat (total (left_ops K cfg conns) (workers s)) =
       word_of_nat (\<Sum>i<clients cfg. client_ops K cfg conns i)"

fun worker_ok :: "bool \<Rightarrow> bool \<Rightarrow> worker \<Rightarrow> bool" where
  "worker_ok setup released Starting = True"
| "worker_ok setup released (AtBarrier c) = setup"
| "worker_ok setup released (Working c k) = (setup \<and> released)"
| "worker_ok setup released Finished = (setup \<longrightarrow> released)"

definition barrier_ok :: "bench_kind \<Rightarrow> bench_config \<Rightarrow> (nat \<Rightarrow> string + bench_client) \<Rightarrow> bench_state \<Rightarrow> bool" where
  "barrier_ok K cfg conns s \<longleftrightarrow> length (workers s) = clients cfg \<and> arrived s = card (arrivals K cfg conns (workers s)) \<and>
     (\<forall>i<length (workers s). worker_ok (has_setup K cfg conns i) (clients cfg \<le> arrived s) (workers s ! i))"

lemma worker_ok_mono: "worker_ok a b w \<Longrightarrow> (b \<Longrightarrow> b') \<Longrightarrow> worker_ok a b' w"
  by (cases w) auto

lemma arrivals_update:
  assumes "i < length ws"
  shows "arrivals K cfg conns (ws[i := w]) =
    (if w \<noteq> Starting \<and> has_setup K cfg conns i then insert i (arrivals K cfg conns ws) else arrivals K cfg conns ws - {i})"
  using assms by (auto simp: arrivals_def nth_list_update split: if_splits)

lemma set_worker_sel [simp]:
  "workers (set_worker i w s) = (workers s)[i := w]" "arrived (set_worker i w s) = arrived s"
  "successful (set_worker i w s) = successful s" "failed (set_worker i w s) = failed s"
  by (simp_all add: set_worker_def)

lemma count_op_sel [simp]:
  "workers (count_op ok e s) = workers s" "arrived (count_op ok e s) = arrived s"
  "successful (count_op ok e s) = successful s + (if ok then 1 else 0)"
  "failed (count_op ok e s) = failed s + (if ok then 0 else 1)"
  by (simp_all add: count_op_def)

lemma finite_arrivals [simp]: "finite (arrivals K cfg conns ws)"
  by (simp add: arrivals_def)

text \<open>A worker that moves on keeps the barrier's accounts.\<close>

lemma barrier_ok_move:
  assumes "barrier_ok K cfg conns s" and "is_worker s i w" and "workers t = (workers s)[i := w']" and "arrived t = arrived s"
    and "w \<noteq> Starting" and "w' \<noteq> Starting" and "worker_ok (has_setup K cfg conns i) (clients cfg \<le> arrived s) w'"
  shows "barrier_ok K cfg conns t"
proof -
  have i: "i < length (workers s)" "workers s ! i = w" using assms(2) by (simp_all add: is_worker_def)
  have "arrivals K cfg conns (workers t) = arrivals K cfg conns (workers s)"
    using i assms(5,6) unfolding assms(3) by (auto simp: arrivals_def nth_list_update split: if_splits)
  with assms i show ?thesis by (auto simp: barrier_ok_def nth_list_update)
qed

lemma barrier_ok_step: "bench_step K cfg conns s t \<Longrightarrow> barrier_ok K cfg conns s \<Longrightarrow> barrier_ok K cfg conns t"
proof (induction rule: bench_step.induct)
  case (early s i)
  then have i: "i < length (workers s)" "workers s ! i = Starting" "\<not> has_setup K cfg conns i"
    by (simp_all add: is_worker_def has_setup_def)
  then have "arrivals K cfg conns ((workers s)[i := Finished]) = arrivals K cfg conns (workers s)"
    by (auto simp: arrivals_def nth_list_update split: if_splits)
  with early.prems i show ?case by (auto simp: barrier_ok_def nth_list_update)
next
  case (ready s i c)
  then have i: "i < length (workers s)" "workers s ! i = Starting" "has_setup K cfg conns i"
    by (simp_all add: is_worker_def has_setup_def)
  have "i \<notin> arrivals K cfg conns (workers s)" using i by (simp add: arrivals_def)
  moreover have "arrivals K cfg conns ((workers s)[i := AtBarrier c]) = insert i (arrivals K cfg conns (workers s))"
    using i arrivals_update [OF i(1)] by simp
  moreover have "worker_ok (has_setup K cfg conns j) (clients cfg \<le> Suc (arrived s)) (workers s ! j)" if "j < length (workers s)" for j
    using ready.prems that by (auto simp: barrier_ok_def intro: worker_ok_mono [where b = "clients cfg \<le> arrived s"])
  ultimately show ?case using ready.prems i by (auto simp: barrier_ok_def nth_list_update)
next
  case (release s i c)
  then have "has_setup K cfg conns i" by (force simp: barrier_ok_def is_worker_def)
  with release show ?case by (intro barrier_ok_move [OF release.prems release.hyps(1), where w' = "Working c 0"]) simp_all
next
  case (op s i c k ok c' elapsed)
  then have "has_setup K cfg conns i \<and> clients cfg \<le> arrived s" by (force simp: barrier_ok_def is_worker_def)
  with op show ?case by (intro barrier_ok_move [OF op.prems op.hyps(1), where w' = "Working c' (Suc k)"]) simp_all
next
  case (finish s i c k)
  then have "has_setup K cfg conns i \<and> clients cfg \<le> arrived s" by (force simp: barrier_ok_def is_worker_def)
  with finish show ?case by (intro barrier_ok_move [OF finish.prems finish.hyps(1), where w' = Finished]) simp_all
qed

lemma counters_ok_move:
  assumes "counters_ok K cfg conns s" and "is_worker s i w" and "workers t = (workers s)[i := w']"
    and "left_ok K cfg conns i w = left_ok K cfg conns i w' + a"
    and "left_ops K cfg conns i w = left_ops K cfg conns i w' + a + b"
    and "successful t = successful s + word_of_nat a" and "failed t = failed s + word_of_nat b"
  shows "counters_ok K cfg conns t"
proof -
  have i: "i < length (workers s)" "workers s ! i = w" using assms(2) by (simp_all add: is_worker_def)
  have "total (left_ok K cfg conns) (workers s) = total (left_ok K cfg conns) (workers t) + a"
    using total_update [OF i(1), of "left_ok K cfg conns" w'] i(2) assms(3,4) by simp
  moreover have "total (left_ops K cfg conns) (workers s) = total (left_ops K cfg conns) (workers t) + a + b"
    using total_update [OF i(1), of "left_ops K cfg conns" w'] i(2) assms(3,5) by simp
  ultimately show ?thesis using assms(1,6,7) by (simp add: counters_ok_def algebra_simps)
qed

lemma counters_ok_step: "bench_step K cfg conns s t \<Longrightarrow> counters_ok K cfg conns s \<Longrightarrow> counters_ok K cfg conns t"
proof (induction rule: bench_step.induct)
  case (early s i)
  then show ?case
    by (intro counters_ok_move [OF early.prems early.hyps(1), where w' = Finished and a = 0 and b = 0])
      (simp_all add: client_successes_def client_ops_def)
next
  case (ready s i c)
  then show ?case
    by (intro counters_ok_move [OF ready.prems ready.hyps(1), where w' = "AtBarrier c" and a = 0 and b = 0])
      (simp_all add: client_successes_def client_ops_def)
next
  case (release s i c)
  then show ?case
    by (intro counters_ok_move [OF release.prems release.hyps(1), where w' = "Working c 0" and a = 0 and b = 0]) simp_all
next
  case (op s i c k ok c' elapsed)
  from op.hyps(2) have "ops_per_client cfg - k = Suc (ops_per_client cfg - Suc k)" by simp
  with op show ?case
    by (intro counters_ok_move [OF op.prems op.hyps(1), where w' = "Working c' (Suc k)" and a = "if ok then 1 else 0" and b = "if ok then 0 else 1"])
      simp_all
next
  case (finish s i c k)
  then show ?case
    by (intro counters_ok_move [OF finish.prems finish.hyps(1), where w' = Finished and a = 0 and b = 0]) simp_all
qed

definition bench_ok :: "bench_kind \<Rightarrow> bench_config \<Rightarrow> (nat \<Rightarrow> string + bench_client) \<Rightarrow> bench_state \<Rightarrow> bool" where
  "bench_ok K cfg conns s \<longleftrightarrow> barrier_ok K cfg conns s \<and> counters_ok K cfg conns s"

lemma bench_ok_start: "bench_ok K cfg conns (bench_start cfg)"
  by (simp add: bench_ok_def barrier_ok_def counters_ok_def bench_start_def arrivals_def total_def cong: conj_cong)

interpretation bench: invariant_system "bench_step K cfg conns" "bench_ok K cfg conns" for K cfg conns
  by unfold_locales (auto simp: bench_ok_def intro: barrier_ok_step counters_ok_step)

subsection \<open>When a benchmark is over\<close>

definition ready_clients :: "bench_kind \<Rightarrow> bench_config \<Rightarrow> (nat \<Rightarrow> string + bench_client) \<Rightarrow> nat set" where
  "ready_clients K cfg conns = {i. i < clients cfg \<and> has_setup K cfg conns i}"

lemma bench_run_returns:
  "bench_run K cfg conns \<noteq> None \<longleftrightarrow> ready_clients K cfg conns = {} \<or> ready_clients K cfg conns = {..<clients cfg}"
proof -
  have "(\<forall>c\<in>set (setups K cfg conns). c = None) \<longleftrightarrow> ready_clients K cfg conns = {}"
    by (auto simp: setups_def ready_clients_def has_setup_def)
  moreover have "(\<forall>c\<in>set (setups K cfg conns). c \<noteq> None) \<longleftrightarrow> ready_clients K cfg conns = {..<clients cfg}"
    by (auto simp: setups_def ready_clients_def has_setup_def set_eq_iff)
  ultimately show ?thesis by (simp add: bench_run_def Let_def)
qed

lemma arrivals_ready:
  "length ws = clients cfg \<Longrightarrow> \<forall>w\<in>set ws. w \<noteq> Starting \<Longrightarrow> arrivals K cfg conns ws = ready_clients K cfg conns"
  by (auto simp: arrivals_def ready_clients_def)

lemma ready_full: "card (ready_clients K cfg conns) \<ge> clients cfg \<Longrightarrow> ready_clients K cfg conns = {..<clients cfg}"
  by (rule card_seteq [where B = "{..<clients cfg}"]) (auto simp: ready_clients_def)

text \<open>All tasks can only have ended if all clients were made ready or none was.\<close>

lemma finished_returns:
  assumes "bench_ok K cfg conns s" and "all_finished s"
  shows "bench_run K cfg conns = Some (bench_results_of K cfg s)"
proof -
  note ok = assms(1) [unfolded bench_ok_def barrier_ok_def]
  have fin: "w = Finished" if "w \<in> set (workers s)" for w using assms(2) that by (simp add: all_finished_def)
  have arr: "arrived s = card (ready_clients K cfg conns)"
    using ok fin arrivals_ready [of "workers s" cfg K conns] by (metis worker.distinct(5))
  have "ready_clients K cfg conns = {..<clients cfg}" if "i \<in> ready_clients K cfg conns" for i
  proof -
    from that have "i < length (workers s)" "has_setup K cfg conns i" using ok by (auto simp: ready_clients_def)
    moreover from this have "workers s ! i = Finished" by (intro fin) simp
    ultimately have "clients cfg \<le> arrived s" using ok by auto
    with arr show ?thesis by (intro ready_full) simp
  qed
  then have "bench_run K cfg conns \<noteq> None" unfolding bench_run_returns by blast
  moreover have "successful s = word_of_nat (\<Sum>i<clients cfg. client_successes K cfg conns i)"
    and sum: "successful s + failed s = word_of_nat (\<Sum>i<clients cfg. client_ops K cfg conns i)"
    using assms by (auto simp: bench_ok_def counters_ok_def all_finished_def total_finished)
  moreover have "(\<Sum>i<clients cfg. client_successes K cfg conns i) \<le> (\<Sum>i<clients cfg. client_ops K cfg conns i)"
    by (intro sum_mono successes_le)
  ultimately have "failed s = word_of_nat ((\<Sum>i<clients cfg. client_ops K cfg conns i) - (\<Sum>i<clients cfg. client_successes K cfg conns i))"
    by (simp add: of_nat_diff algebra_simps)
  with \<open>bench_run K cfg conns \<noteq> None\<close> \<open>successful s = _\<close> show ?thesis
    by (auto simp: bench_run_def Let_def bench_results_of_def bench_start_def sum_list_sum_nth atLeast0LessThan split: if_splits)
qed

text \<open>Where the benchmark can return, a state that cannot move on is one where all have ended.\<close>

lemma moves_on:
  assumes "bench_ok K cfg conns s" and "bench_run K cfg conns \<noteq> None" and "\<not> all_finished s"
  shows "\<exists>t. bench_step K cfg conns s t"
proof (rule ccontr)
  assume stuck: "\<nexists>t. bench_step K cfg conns s t"
  note ok = assms(1) [unfolded bench_ok_def barrier_ok_def]
  obtain i where i: "i < length (workers s)" "workers s ! i \<noteq> Finished"
    using assms(3) by (auto simp: all_finished_def in_set_conv_nth)
  have no_start: "workers s ! j \<noteq> Starting" if "j < length (workers s)" for j
    using stuck that early [of s j K cfg conns] ready [of s j K cfg conns]
    by (cases "bench_setup K (bench_password cfg) j (conns j)") (auto simp: is_worker_def)
  have "workers s ! i \<noteq> Working c k" for c k
    using stuck i op [of s i c k cfg K] finish [of s i c k cfg K conns]
    by (cases "k < ops_per_client cfg"; cases "bench_op K i k c") (auto simp: is_worker_def)
  then obtain c where w: "workers s ! i = AtBarrier c" using i no_start by (cases "workers s ! i") auto
  then have "i \<in> ready_clients K cfg conns" using ok i by (fastforce simp: ready_clients_def)
  then have "ready_clients K cfg conns = {..<clients cfg}" using assms(2) by (metis bench_run_returns empty_iff)
  moreover have "arrivals K cfg conns (workers s) = ready_clients K cfg conns"
    using ok no_start by (intro arrivals_ready) (auto simp: in_set_conv_nth)
  ultimately have "clients cfg \<le> arrived s" using ok by simp
  with stuck w i release [of s i c cfg K conns] show False by (auto simp: is_worker_def)
qed

subsection \<open>How long it takes\<close>

fun steps_left :: "bench_config \<Rightarrow> worker \<Rightarrow> nat" where
  "steps_left cfg Starting = ops_per_client cfg + 3"
| "steps_left cfg (AtBarrier c) = ops_per_client cfg + 2"
| "steps_left cfg (Working c k) = Suc (ops_per_client cfg - k)"
| "steps_left cfg Finished = 0"

lemma total_less: "i < length ws \<Longrightarrow> g w < g (ws ! i) \<Longrightarrow> total (\<lambda>_. g) (ws[i := w]) < total (\<lambda>_. g) ws"
  using total_update [of i ws "\<lambda>_. g" w] by simp

lemma bench_step_shorter: "bench_step K cfg conns s t \<Longrightarrow> total (\<lambda>_. steps_left cfg) (workers t) < total (\<lambda>_. steps_left cfg) (workers s)"
  by (induction rule: bench_step.induct) (auto simp: is_worker_def intro!: total_less)

lemma bench_steps_bounded:
  "(bench_step K cfg conns ^^ n) s t \<Longrightarrow> n + total (\<lambda>_. steps_left cfg) (workers t) \<le> total (\<lambda>_. steps_left cfg) (workers s)"
  by (induction n arbitrary: t) (fastforce dest: bench_step_shorter)+

lemma bench_start_bound: "(bench_step K cfg conns ^^ n) (bench_start cfg) s \<Longrightarrow> n \<le> clients cfg * (ops_per_client cfg + 3)"
  by (drule bench_steps_bounded) (simp add: total_def bench_start_def)

lemma bench_ok_reached: "(bench_step K cfg conns ^^ n) (bench_start cfg) s \<Longrightarrow> bench_ok K cfg conns s"
  using bench.run_inv [OF _ bench_ok_start] by (blast intro: relpowp_imp_rtranclp)

subsection \<open>Every schedule\<close>

text \<open>
  C12. A benchmark always comes to its end where its clients are all made ready or all turned away:
  whatever the order of the tasks, a run of it has at most that many steps, it can move on until every task
  has ended, and the totals it then reports are always the same, those of \<open>bench_run\<close>.
\<close>

theorem bench_finishes:
  assumes "bench_run K cfg conns = Some r" and "(bench_step K cfg conns ^^ n) (bench_start cfg) s"
  shows "n \<le> clients cfg * (ops_per_client cfg + 3) \<and>
    (if all_finished s then bench_results_of K cfg s = r else \<exists>t. bench_step K cfg conns s t)"
proof -
  note ok = bench_ok_reached [OF assms(2)]
  show ?thesis
    using bench_start_bound [OF assms(2)] finished_returns [OF ok] moves_on [OF ok] assms(1) by (auto split: if_splits)
qed

definition oks :: "nat \<Rightarrow> bench_client" where
  "oks n = \<lparr>unread = [], replies = replicate n (Inr (''+OK'' @ CRLF)), written = []\<rparr>"

definition one_client :: bench_config where
  "one_client = \<lparr>clients = 1, ops_per_client = 1, bench_password = None\<rparr>"

lemma oks_send: "bench_send cmd (oks (Suc n)) = (Inr (''+OK'' @ CRLF), (oks n)\<lparr>written := cmd @ CRLF\<rparr>)"
  by (simp add: oks_def bench_send_def next_line_def split_line_def utf8_line_def CRLF_def utf8_chunk_ascii byte_def)

lemma one_client_setup:
  "bench_setup SET_KIND None 0 (Inr (oks (Suc n))) = Some ((oks n)\<lparr>written := ''CREATE bench:set:0 STRATEGY lww'' @ CRLF\<rparr>)"
  by (simp add: bench_setup_def SET_KIND_def oks_send show_nat.simps)

lemma bench_finishes_witness:
  "bench_run SET_KIND one_client (\<lambda>i. Inr (oks 2)) \<noteq> None \<and> \<not> all_finished (bench_start one_client) \<and>
     (\<exists>t. bench_step SET_KIND one_client (\<lambda>i. Inr (oks 2)) (bench_start one_client) t)"
proof -
  have "bench_run SET_KIND one_client (\<lambda>i. Inr (oks 2)) \<noteq> None"
    unfolding bench_run_returns using one_client_setup [of 1]
    by (auto simp: ready_clients_def has_setup_def one_client_def numeral_2_eq_2)
  then obtain r where r: "bench_run SET_KIND one_client (\<lambda>i. Inr (oks 2)) = Some r" by blast
  have u: "\<not> all_finished (bench_start one_client)" by (simp add: all_finished_def bench_start_def one_client_def)
  from bench_finishes [OF r, of 0 "bench_start one_client"] u r show ?thesis by simp
qed

text \<open>
  C38. If one client is turned away before the barrier and another reaches it, the benchmark never returns: every
  run ends after finitely many steps with tasks waiting at the barrier for good, as its count includes
  the client that is gone.
\<close>

theorem bench_hangs:
  assumes "i < clients cfg" and "bench_setup K (bench_password cfg) i (conns i) = None"
    and "j < clients cfg" and "bench_setup K (bench_password cfg) j (conns j) \<noteq> None"
  shows "bench_run K cfg conns = None \<and>
    ((bench_step K cfg conns ^^ n) (bench_start cfg) s \<longrightarrow> n \<le> clients cfg * (ops_per_client cfg + 3) \<and> \<not> all_finished s)"
proof -
  have "i \<notin> ready_clients K cfg conns" "j \<in> ready_clients K cfg conns"
    using assms by (simp_all add: ready_clients_def has_setup_def)
  with assms(1) have "bench_run K cfg conns = None" using bench_run_returns [of K cfg conns] by auto
  then show ?thesis
    using bench_start_bound [of n K cfg conns s] bench_ok_reached [of n K cfg conns s] finished_returns [of K cfg conns s] by auto
qed

lemma bench_hangs_witness:
  "bench_run SET_KIND \<lparr>clients = 2, ops_per_client = 1, bench_password = None\<rparr>
     (\<lambda>i. if i = 0 then Inr (oks 2) else Inl ''Connection refused'') = None"
  by (rule bench_hangs [where i = 1 and j = 0, THEN conjunct1])
    (simp_all add: one_client_setup [of 1, simplified] bench_setup_def numeral_2_eq_2)

subsection \<open>What GET is given credit for\<close>

lemma next_line_clean:
  "unread c = l @ CRLF @ r \<Longrightarrow> clean l \<Longrightarrow> next_line c = (Inr (l @ CRLF), c\<lparr>unread := r\<rparr>)"
  using clean_line [of l] split_line_at [of "l @ [CR]" r] by (simp add: next_line_def utf8_line_def CRLF_def)

lemma bench_send_clean:
  assumes "replies c = Inr b # rs" and "unread c @ b = l @ CRLF @ r" and "clean l"
  shows "bench_send cmd c = (Inr (l @ CRLF), c\<lparr>written := written c @ cmd @ CRLF, replies := rs, unread := r\<rparr>)"
  using assms next_line_clean [of "c\<lparr>written := written c @ cmd @ CRLF, replies := rs, unread := l @ CRLF @ r\<rparr>" l r]
  by (simp add: bench_send_def)

definition not_error :: "string \<Rightarrow> bool" where
  "not_error l \<longleftrightarrow> clean l \<and> \<not> prefix ''-ERR'' l"

lemma not_error_counts: "not_error l \<Longrightarrow> counts_ok GET_KIND (l @ CRLF)"
proof -
  assume l: "not_error l"
  have "\<not> prefix ''-ERR'' (l @ [CR, LF])"
  proof
    assume "prefix ''-ERR'' (l @ [CR, LF])"
    with l obtain us where us: "''-ERR'' = l @ us" "prefix us [CR, LF]" by (auto simp: prefix_append not_error_def)
    from us(2) consider "us = []" | v where "us = CR # v" by (auto simp: prefix_Cons)
    then show False
    proof cases
      case 1
      with us l show False by (simp add: not_error_def)
    next
      case 2
      with us(1) have "CR \<in> set ''-ERR''" by (metis in_set_conv_decomp)
      then show False by simp
    qed
  qed
  then show ?thesis by (simp add: GET_KIND_def CRLF_def)
qed

lemma bulk_bytes_lines: "bulk_bytes d = wire_lines (array_lines [d])"
  by (simp add: bulk_bytes_def)

lemma array_lines_not_error: "not_error d \<Longrightarrow> \<forall>l\<in>set (array_lines [d]). not_error l"
proof
  fix l assume d: "not_error d" and l: "l \<in> set (array_lines [d])"
  have "clean (''$'' @ show_nat (length d))" 
    using clean_digits [of "show_nat (length d)" "CHR ''$''"] show_nat_digits by (simp add: byte_def)
  with d l show "not_error l" by (auto simp: not_error_def)
qed

lemma get_reads_lines:
  assumes "unread c = wire_lines ls @ junk" and "replies c = map (\<lambda>d. Inr (bulk_bytes d)) ds @ map Inr bs" and "ds \<noteq> [] \<longrightarrow> junk = []"
    and "\<forall>l\<in>set ls. not_error l" and "\<forall>d\<in>set ds. not_error d"
    and "n \<le> length ls + 2 * length ds" and "n \<le> length ds + length bs"
  shows "work GET_KIND i k n c = n"
  using assms
proof (induction n arbitrary: k c ls junk ds bs)
  case (Suc n)
  let ?cmd = "op_cmd GET_KIND i k"
  show ?case
  proof (cases ds)
    case Nil
    obtain b bs' where bs: "bs = b # bs'" using Suc.prems(7) Nil by (cases bs) auto
    obtain l ls' where ls: "ls = l # ls'" using Suc.prems(6) Nil by (cases ls) auto
    let ?c = "c\<lparr>written := written c @ ?cmd @ CRLF, replies := map Inr bs', unread := wire_lines ls' @ junk @ b\<rparr>"
    have l: "not_error l" using Suc.prems(4) ls by simp
    have "bench_send ?cmd c = (Inr (l @ CRLF), ?c)"
      by (rule bench_send_clean) (use Suc.prems(1,2) bs ls Nil l in \<open>simp_all add: not_error_def\<close>)
    moreover have "work GET_KIND i (Suc k) n ?c = n"
      by (rule Suc.IH [where ls = ls' and ds = "[]" and bs = bs' and junk = "junk @ b"]) (use Suc.prems bs ls Nil in simp_all)
    ultimately show ?thesis using not_error_counts [OF l] by (simp add: bench_op_def)
  next
    case (Cons d ds')
    obtain l ls' where ls: "ls @ array_lines [d] = l # ls'" by (cases ls) auto
    then have all: "\<forall>x\<in>set (l # ls'). not_error x" "length ls + 1 = length ls'"
      using Suc.prems(4,5) Cons array_lines_not_error [of d] by (metis (no_types, lifting) Un_iff list.set_intros(1) set_append)
        (use arg_cong [OF ls, of length] in simp)
    let ?c = "c\<lparr>written := written c @ ?cmd @ CRLF, replies := map (\<lambda>d. Inr (bulk_bytes d)) ds' @ map Inr bs, unread := wire_lines ls'\<rparr>"
    have "unread c @ bulk_bytes d = wire_lines (ls @ array_lines [d])"
      using Suc.prems(1,3) Cons unfolding bulk_bytes_lines by simp
    then have u: "unread c @ bulk_bytes d = l @ CRLF @ wire_lines ls'" unfolding ls by simp
    have "bench_send ?cmd c = (Inr (l @ CRLF), ?c)"
      by (rule bench_send_clean [OF _ u]) (use Suc.prems(2) Cons all(1) in \<open>simp_all add: not_error_def\<close>)
    moreover have "work GET_KIND i (Suc k) n ?c = n"
      by (rule Suc.IH [where ls = ls' and ds = ds' and bs = bs and junk = "[]"]) (use Suc.prems Cons all in simp_all)
    ultimately show ?thesis using not_error_counts [of l] all by (simp add: bench_op_def)
  qed
qed simp

text \<open>
  The GET benchmark reads one line for every command while the answer to each has two: if the server answers
  the first half of a client's commands with documents, all of its commands are counted as successful whatever
  the server answers to the other half, errors included.
\<close>

theorem bench_get_reads_half:
  assumes "unread c = []" and "replies c = map (\<lambda>d. Inr (bulk_bytes d)) ds @ map Inr bs"
    and "\<forall>d\<in>set ds. clean d \<and> \<not> prefix ''-ERR'' d" and "length bs = length ds"
  shows "work GET_KIND i 0 (2 * length ds) c = 2 * length ds"
  using assms by (intro get_reads_lines [where ls = "[]" and junk = "[]" and ds = ds and bs = bs]) (simp_all add: not_error_def)

lemma bench_get_reads_half_witness:
  "work GET_KIND 0 0 2 \<lparr>unread = [], replies = [Inr (bulk_bytes ''{}''), Inr (''-ERR RATE_LIMIT'' @ CRLF)], written = []\<rparr> = 2"
  using bench_get_reads_half [of "\<lparr>unread = [], replies = [Inr (bulk_bytes ''{}''), Inr (''-ERR RATE_LIMIT'' @ CRLF)], written = []\<rparr>"
    "[''{}'']" "[''-ERR RATE_LIMIT'' @ CRLF]" 0]
  by (simp add: clean_def utf8_chunk_ascii byte_def)

end
