(* ===== verification/Basic.thy ===== *)
theory Basic imports Benchmark DocumentLaws Manager begin

section \<open>The basic example (examples/basic.rs)\<close>

text \<open>
  The library used directly, and a client over TCP. What is printed is given as values: their debug format
  is left out. \<open>now\<close> gives the clock reading of each call. The client is that of the benchmark.
\<close>

datatype shown = Shown string val | Listed document_id strategy | Sent string | Received string

text \<open>A call on a document whose error ends the example, and a reading one.\<close>

definition and_then :: "((error + 'a) \<times> 'd) option \<Rightarrow> ('d \<Rightarrow> (error + 'b) option) \<Rightarrow> (error + 'b) option" where
  "and_then r f = Option.bind r (\<lambda>(v, d). case v of Inl e \<Rightarrow> Some (Inl e) | Inr _ \<Rightarrow> f d)"

definition and_show :: "string \<Rightarrow> (error + val) option \<Rightarrow> (shown list \<Rightarrow> (error + 'b) option) \<Rightarrow> (error + 'b) option" where
  "and_show l r f = Option.bind r (\<lambda>v. case v of Inl e \<Rightarrow> Some (Inl e) | Inr x \<Rightarrow> f [Shown l x])"

definition alice_example :: "'y yrs \<Rightarrow> (nat \<Rightarrow> u64) \<Rightarrow> 'y document \<Rightarrow> (error + shown list \<times> 'y document) option" where
  "alice_example y now d =
     and_then (doc_set y (now 1) d ''name'' (VString ''Alice'')) (\<lambda>d.
     and_then (doc_set y (now 2) d ''age'' (VNumber (NInteger 30))) (\<lambda>d.
     and_then (doc_set y (now 3) d ''settings.theme'' (VString ''dark'')) (\<lambda>d.
     and_show ''Name: '' (doc_get y d (Some ''name'')) (\<lambda>s1.
     and_show ''Age: '' (doc_get y d (Some ''age'')) (\<lambda>s2.
     and_show ''Theme: '' (doc_get y d (Some ''settings.theme'')) (\<lambda>s3.
     and_show ''Full doc: '' (doc_get y d None) (\<lambda>s4. Some (Inr (s1 @ s2 @ s3 @ s4, d)))))))))"

definition views_example :: "'y yrs \<Rightarrow> (nat \<Rightarrow> u64) \<Rightarrow> 'y document \<Rightarrow> (error + shown list \<times> 'y document) option" where
  "views_example y now d =
     and_then (doc_increment (now 5) d ''total'' 1) (\<lambda>d.
     and_then (doc_increment (now 6) d ''total'' 5) (\<lambda>d.
     and_show ''Counter value: '' (doc_get y d (Some ''total'')) (\<lambda>s. Some (Inr (s, d)))))"

definition embedded_example :: "'y yrs \<Rightarrow> (nat \<Rightarrow> u64) \<Rightarrow> (error + shown list) option" where
  "embedded_example y now =
     (case document_id_new ''user:alice'' of Inl e \<Rightarrow> Some (Inl e) | Inr i \<Rightarrow>
      case manager_create y (now 0) manager_new i Lww None of (Inl e, _) \<Rightarrow> Some (Inl e) | (Inr d, m) \<Rightarrow>
      Option.bind (alice_example y now d) (\<lambda>r. case r of Inl e \<Rightarrow> Some (Inl e) | Inr (s1, d) \<Rightarrow>
      let m = manager_put i d m in
      case document_id_new ''counter:views'' of Inl e \<Rightarrow> Some (Inl e) | Inr i2 \<Rightarrow>
      case manager_create y (now 4) m i2 CrdtCounter None of (Inl e, _) \<Rightarrow> Some (Inl e) | (Inr d2, m) \<Rightarrow>
      Option.bind (views_example y now d2) (\<lambda>r. case r of Inl e \<Rightarrow> Some (Inl e) | Inr (s2, d2) \<Rightarrow>
      let m = manager_put i2 d2 m in
      Some (Inr (s1 @ s2 @ map (\<lambda>x. Listed (meta_id x) (meta_strategy x)) (manager_list m None))))))"

subsection \<open>The client over TCP\<close>

definition send_cmd :: "string \<Rightarrow> bench_client \<Rightarrow> (string + string) \<times> bench_client \<times> shown list" where
  "send_cmd cmd c =
     (case bench_send cmd c of
        (Inl e, c') \<Rightarrow> (Inl e, c', [Sent cmd])
      | (Inr resp, c') \<Rightarrow> (Inr resp, c', [Sent cmd, Received (trim resp)]))"

fun run_cmds :: "string list \<Rightarrow> bench_client \<Rightarrow> (string + unit) \<times> bench_client \<times> shown list" where
  "run_cmds [] c = (Inr (), c, [])"
| "run_cmds (cmd # cmds) c =
     (case send_cmd cmd c of
        (Inl e, c', es) \<Rightarrow> (Inl e, c', es)
      | (Inr _, c', es) \<Rightarrow> (case run_cmds cmds c' of (r, c'', es') \<Rightarrow> (r, c'', es @ es')))"

definition example_cmds :: "string list" where
  "example_cmds =
     [''PING'', ''CREATE user:bob STRATEGY lww'', ''SET user:bob name '' @ quoted ''Bob'',
      ''SET user:bob email '' @ quoted ''bob@example.com'', ''GET user:bob'', ''GET user:bob PATH name'',
      ''INC visits:home count 1'', ''INC visits:home count 1'', ''INC visits:home count 1'',
      ''KEYS'', ''INFO'', ''QUIT'']"

definition tcp_client_example :: "string + bench_client \<Rightarrow> (string + unit) \<times> shown list" where
  "tcp_client_example conn =
     (case conn of
        Inl e \<Rightarrow> (Inl e, [])
      | Inr c \<Rightarrow> (case run_cmds example_cmds c of (r, _, es) \<Rightarrow> (r, es)))"

subsection \<open>What the example prints\<close>

lemma example_paths:
  "path_collect ''name'' = Some [Key ''name'']" "path_collect ''age'' = Some [Key ''age'']"
  "path_collect ''settings.theme'' = Some [Key ''settings'', Key ''theme'']" "path_collect ''total'' = Some [Key ''total'']"
  by (simp_all add: path_collect.simps path_next.simps key_end_Cons key_end_def find_char_def)

definition alice_data :: val where
  "alice_data = VObject (fmap_of_list
     [(''name'', VString ''Alice''), (''age'', VNumber (NInteger 30)), (''settings'', VObject (fmap_of_list [(''theme'', VString ''dark'')]))])"

lemma alice_segs:
  "set_segs (set_segs (set_segs (VObject fmempty) [Key ''name''] (VString ''Alice'')) [Key ''age''] (VNumber (NInteger 30)))
     [Key ''settings'', Key ''theme''] (VString ''dark'') = alice_data"
  by (auto simp: alice_data_def or_object_def fmlookup_of_list intro!: fmap_ext)

lemma alice_prints:
  assumes "doc_strategy d = Lww" and "lww_data d = VObject fmempty"
  shows "\<exists>d'. alice_example y now d = Some (Inr
    ([Shown ''Name: '' (VString ''Alice''), Shown ''Age: '' (VNumber (NInteger 30)), Shown ''Theme: '' (VString ''dark''),
      Shown ''Full doc: '' alice_data], d')) \<and> meta_id (meta d') = meta_id (meta d) \<and> doc_strategy d' = Lww"
  using assms alice_segs
  by (simp add: alice_example_def and_then_def and_show_def doc_set_def doc_get_def set_path_segs get_path_segs example_paths
    update_version_def alice_data_def)

lemma views_prints:
  assumes "doc_strategy d = CrdtCounter" and "lww_data d = VObject fmempty"
  shows "\<exists>d'. views_example y now d = Some (Inr
    ([Shown ''Counter value: '' (VObject (fmap_of_list [(''total'', VNumber (NInteger 6))]))], d')) \<and>
     meta_id (meta d') = meta_id (meta d) \<and> doc_strategy d' = CrdtCounter"
  using assms
  by (simp add: views_example_def and_then_def and_show_def doc_increment_def doc_get_def set_path_segs get_path_segs example_paths
    update_version_def or_object_def)

text \<open>
  The embedded example runs to its end without an error, whatever the CRDT library and the clock do: it
  reads back what it wrote and lists both documents. The counter's value, asked for at its path, comes out
  as the whole document, for reading a counter ignores the path.
\<close>

theorem embedded_example_prints:
  "\<exists>ls. embedded_example y now = Some (Inr
     ([Shown ''Name: '' (VString ''Alice''), Shown ''Age: '' (VNumber (NInteger 30)), Shown ''Theme: '' (VString ''dark''),
       Shown ''Full doc: '' alice_data, Shown ''Counter value: '' (VObject (fmap_of_list [(''total'', VNumber (NInteger 6))]))] @ ls)) \<and>
     length ls = 2 \<and> set ls = {Listed (DocumentId ''user:alice'') Lww, Listed (DocumentId ''counter:views'') CrdtCounter}"
proof -
  let ?d1 = "document_new y (now 0) (DocumentId ''user:alice'') Lww"
  let ?d2 = "document_new y (now 4) (DocumentId ''counter:views'') CrdtCounter"
  obtain e1 where e1: "alice_example y now ?d1 = Some (Inr
    ([Shown ''Name: '' (VString ''Alice''), Shown ''Age: '' (VNumber (NInteger 30)), Shown ''Theme: '' (VString ''dark''),
      Shown ''Full doc: '' alice_data], e1))" "meta_id (meta e1) = DocumentId ''user:alice''" "doc_strategy e1 = Lww"
    using alice_prints [of ?d1 y now] by (auto simp: document_new_def meta_new_def)
  obtain e2 where e2: "views_example y now ?d2 = Some (Inr
    ([Shown ''Counter value: '' (VObject (fmap_of_list [(''total'', VNumber (NInteger 6))]))], e2))"
    "meta_id (meta e2) = DocumentId ''counter:views''" "doc_strategy e2 = CrdtCounter"
    using views_prints [of ?d2 y now] by (auto simp: document_new_def meta_new_def)
  have ids: "document_id_new ''user:alice'' = Inr (DocumentId ''user:alice'')" "document_id_new ''counter:views'' = Inr (DocumentId ''counter:views'')"
    by (simp_all add: document_id_new_def id_char_def byte_def)
  show ?thesis
    by (simp add: embedded_example_def ids manager_create_def manager_new_def manager_put_def manager_list_def Let_def e1 e2 insert_commute)
qed

end
