(* ===== verification/ReplyLaws.thy ===== *)
theory ReplyLaws imports HandlerLaws begin

section \<open>The type of every reply\<close>

text \<open>
  What a client can be answered to each command: the kind of response of its success, and the error codes
  that can come instead. A client that matches on these misses no case.
\<close>

fun reply_kind :: "command_kind \<Rightarrow> response \<Rightarrow> bool" where
  "reply_kind (Auth pwd) r = (r = Ok None \<or> r = Ok (Some ''No authentication required''))"
| "reply_kind (Create st t) r = (r = Ok None)"
| "reply_kind (Get path) r = (r = Null \<or> (\<exists>v. r = Value v))"
| "reply_kind (Set path x) r = (r = Ok None)"
| "reply_kind (Delete path) r = (r = Ok None)"
| "reply_kind (Subscribe p path) r = (r = Ok (Some (''Subscribed to '' @ p)))"
| "reply_kind (Unsubscribe p) r = (r = Ok (Some (''Unsubscribed from '' @ p)))"
| "reply_kind (Push path x) r = (r = Ok None)"
| "reply_kind (Increment path n) r = (\<exists>k. r = Integer k)"
| "reply_kind (Presence data) r = (if data = None then \<exists>b. r = Bulk b else r = Ok None)"
| "reply_kind Ping r = (r = Pong)"
| "reply_kind Quit r = (r = Ok (Some ''Goodbye''))"
| "reply_kind Info r = (\<exists>b. r = Bulk b)"
| "reply_kind (Keys p) r = (\<exists>ids. r = Array (map Bulk ids))"
| "reply_kind Compact r = (\<exists>k. r = Integer k)"
| "reply_kind (Expire t) r = (r = Ok None)"
| "reply_kind Ttl r = (\<exists>k. r = Integer k \<and> -2 \<le> sint k)"
| "reply_kind Backup r = (\<exists>b. r = Bulk b)"
| "reply_kind (Restore data) r = (\<exists>k. r = Integer k)"

definition ID_CODES :: "string list" where
  "ID_CODES = [''MISSING_ARG'', ''INVALID_ID'']"

fun own_codes :: "command_kind \<Rightarrow> string list" where
  "own_codes (Auth pwd) = [''WRONGPASS'']"
| "own_codes (Create st t) = ID_CODES @ [''CREATE_ERROR'']"
| "own_codes (Get path) = (if path = None then ID_CODES else ID_CODES @ [''GET_ERROR''])"
| "own_codes (Set path x) = ID_CODES @ [''SET_ERROR'']"
| "own_codes (Delete path) = ID_CODES @ [if path = None then ''DELETE_ERROR'' else ''NOT_FOUND'']"
| "own_codes (Push path x) = ID_CODES @ [''PUSH_ERROR'']"
| "own_codes (Increment path n) = ID_CODES"
| "own_codes (Presence data) = ID_CODES"
| "own_codes Compact = ID_CODES @ [''NOT_FOUND'', ''COMPACT_ERROR'']"
| "own_codes (Expire t) = ID_CODES @ [''EXPIRE_ERROR'']"
| "own_codes Ttl = ID_CODES @ [''NOT_FOUND'']"
| "own_codes Backup = [''BACKUP_ERROR'']"
| "own_codes (Restore data) = [''INVALID_JSON'', ''RESTORE_ERROR'']"
| "own_codes _ = []"

definition reply_type :: "string list \<Rightarrow> command_kind \<Rightarrow> response \<Rightarrow> bool" where
  "reply_type codes k r = (case r of Error c m \<Rightarrow> c \<in> set codes | _ \<Rightarrow> reply_kind k r)"

lemma reply_type_mono: "reply_type codes k r \<Longrightarrow> set codes \<subseteq> set codes' \<Longrightarrow> reply_type codes' k r"
  by (auto simp: reply_type_def split: response.splits)

lemma checked_id_error: "checked_id i = Inl r \<Longrightarrow> \<exists>c m. r = Error c m \<and> c \<in> set ID_CODES"
  by (auto simp: checked_id_def response_error_def ID_CODES_def split: option.splits sum.splits)

definition typed :: "command_kind \<Rightarrow> response \<Rightarrow> bool" where
  "typed k r \<longleftrightarrow> reply_type (own_codes k) k r"

lemma checked_id_type: "checked_id i = Inl r \<Longrightarrow> set ID_CODES \<subseteq> set (own_codes k) \<Longrightarrow> typed k r"
  using checked_id_error [of i r] by (auto simp: typed_def reply_type_def)

lemmas reply_defs = typed_def reply_type_def response_ok_def response_error_def ok_with_message_def not_found_def

named_theorems reply_typed

lemma create_typed [reply_typed]: "handle_create L ck i st t s = (r, s') \<Longrightarrow> typed (Create st t) r"
  by (auto simp: handle_create_def reply_defs dest!: checked_id_error split: sum.split_asm prod.splits)

lemma doc_get_error: "doc_get y d path = Some (Inl e) \<Longrightarrow> path \<noteq> None"
  by (auto simp: doc_get_def split: strategy.splits option.split_asm)

lemma get_typed [reply_typed]:
  assumes "handle_get L i path s = Some r"
  shows "typed (Get path) r"
proof (cases "checked_id i")
  case (Inr j)
  show ?thesis
  proof (cases "manager_get (s_manager s) j")
    case (Inr d)
    with assms \<open>checked_id i = Inr j\<close> obtain x where x: "doc_get (l_yrs L) d path = Some x"
      "r = (case x of Inr v \<Rightarrow> Value v | Inl e \<Rightarrow> response_error ''GET_ERROR'' (error_msg e))"
      by (auto simp: handle_get_def bind_eq_Some_conv)
    then show ?thesis using doc_get_error [of "l_yrs L" d path] by (cases x) (auto simp: reply_defs)
  qed (use assms Inr in \<open>simp add: handle_get_def reply_defs\<close>)
qed (use assms in \<open>auto simp: handle_get_def intro: checked_id_type\<close>)

lemma set_typed [reply_typed]:
  assumes "handle_set L ck h i path x s = Some (r, s')"
  shows "typed (Set path x) r"
proof (cases "checked_id i")
  case (Inr j)
  obtain d m where "manager_get_or_create (l_yrs L) (c_create ck) (s_manager s) j strategy_default = (d, m)" by fastforce
  with assms Inr obtain res d1 where "doc_set (l_yrs L) (c_update ck) d path x = Some (res, d1)"
    by (auto simp: handle_set_def bind_eq_Some_conv)
  with assms Inr \<open>_ = (d, m)\<close> show ?thesis by (cases res) (auto simp: handle_set_def Let_def reply_defs)
qed (use assms in \<open>auto simp: handle_set_def intro: checked_id_type\<close>)

lemma doc_delete_ok: "doc_delete now d path = Some (r, d') \<Longrightarrow> r = Inr ()"
  by (auto simp: doc_delete_def split: option.split_asm)

lemma delete_typed [reply_typed]:
  assumes "handle_delete ck i path s = Some (r, s')"
  shows "typed (Delete path) r"
proof (cases "checked_id i")
  case (Inr j)
  show ?thesis
  proof (cases path)
    case None
    obtain x m where "manager_delete (s_manager s) j = (x, m)" by fastforce
    with assms Inr None show ?thesis by (cases x) (auto simp: handle_delete_def reply_defs)
  next
    case (Some p)
    with assms Inr show ?thesis
      by (cases "manager_get (s_manager s) j") (auto simp: handle_delete_def reply_defs bind_eq_Some_conv dest!: doc_delete_ok)
  qed
qed (use assms in \<open>auto simp: handle_delete_def intro: checked_id_type\<close>)

lemma push_typed [reply_typed]:
  assumes "handle_push L ck h i path x s = Some (r, s')"
  shows "typed (Push path x) r"
proof (cases "checked_id i")
  case (Inr j)
  obtain d m where "manager_get_or_create (l_yrs L) (c_create ck) (s_manager s) j strategy_default = (d, m)" by fastforce
  with assms Inr obtain res d1 where "doc_push (c_update ck) d path x = Some (res, d1)"
    by (auto simp: handle_push_def bind_eq_Some_conv)
  with assms Inr \<open>_ = (d, m)\<close> show ?thesis by (cases res) (auto simp: handle_push_def Let_def reply_defs)
qed (use assms in \<open>auto simp: handle_push_def intro: checked_id_type\<close>)

lemma doc_increment_ok: "doc_increment now d path n = Some (r, d') \<Longrightarrow> \<exists>k. r = Inr k"
  by (auto simp: doc_increment_def Let_def)

lemma increment_typed [reply_typed]:
  assumes "handle_increment L ck h i path n s = Some (r, s')"
  shows "typed (Increment path n) r"
proof (cases "checked_id i")
  case (Inr j)
  obtain d m where "manager_get_or_create (l_yrs L) (c_create ck) (s_manager s) j CrdtCounter = (d, m)" by fastforce
  with assms Inr obtain res d1 where "doc_increment (c_update ck) d path n = Some (res, d1)"
    by (auto simp: handle_increment_def bind_eq_Some_conv)
  with assms Inr \<open>_ = (d, m)\<close> show ?thesis by (cases res) (auto simp: handle_increment_def Let_def reply_defs dest: doc_increment_ok)
qed (use assms in \<open>auto simp: handle_increment_def intro: checked_id_type\<close>)

lemma presence_typed [reply_typed]: "handle_presence L h i data s = Some (r, s') \<Longrightarrow> typed (Presence data) r"
  by (auto simp: handle_presence_def reply_defs dest!: checked_id_error split: sum.split_asm option.split_asm)

lemma info_typed [reply_typed]: "typed Info (handle_info L h s)"
  by (simp add: handle_info_def reply_defs Let_def)

lemma keys_typed [reply_typed]: "typed (Keys p) (handle_keys p s)"
  by (auto simp: handle_keys_def reply_defs intro!: exI [of _ "map (\<lambda>m. id_str (meta_id m)) (manager_list (s_manager s) p)"])

lemma compact_typed [reply_typed]: "handle_compact L i s = (r, s') \<Longrightarrow> typed Compact r"
  by (auto simp: handle_compact_def reply_defs dest!: checked_id_error split: sum.split_asm prod.splits)

lemma expire_typed [reply_typed]: "handle_expire i t s = (r, s') \<Longrightarrow> typed (Expire t) r"
  by (auto simp: handle_expire_def Let_def reply_defs dest!: checked_id_error split: sum.split_asm prod.splits)

lemma ttl_typed [reply_typed]: "typed Ttl (handle_ttl ck i s)"
proof (cases "checked_id i")
  case (Inl r)
  then show ?thesis by (auto simp: handle_ttl_def intro: checked_id_type)
next
  case (Inr j)
  then show ?thesis by (cases "manager_ttl (c_update ck) (s_manager s) j") (auto simp: handle_ttl_def reply_defs split: option.split)
qed

lemma backup_typed [reply_typed]: "typed Backup (handle_backup L ck s)"
  by (auto simp: handle_backup_def reply_defs split: sum.split)

lemma restore_typed [reply_typed]: "handle_restore L ck h data s = (r, s') \<Longrightarrow> typed (Restore data) r"
  by (auto simp: handle_restore_def reply_defs Let_def split: sum.split_asm prod.splits)

lemma authorized_typed:
  assumes "handle_authorized L ck cmd h s = Some (r, h', s')"
  shows "typed (cmd_kind cmd) r"
proof (cases "cmd_kind cmd")
  case (Subscribe p path)
  with assms show ?thesis by (auto simp: handle_authorized_def handle_subscribe_def reply_defs)
next
  case (Unsubscribe p)
  with assms show ?thesis by (auto simp: handle_authorized_def handle_unsubscribe_def reply_defs)
qed (use assms in \<open>auto simp: handle_authorized_def bind_eq_Some_conv intro: reply_typed\<close>)

lemma handle_auth_typed: "handle_auth h pwd = (r, h') \<Longrightarrow> typed (Auth pwd) r"
  by (auto simp: handle_auth_def reply_defs split: option.split_asm if_splits)

definition all_codes :: "handler \<Rightarrow> command_kind \<Rightarrow> string list" where
  "all_codes h k = own_codes k @
     (if limiter h = None \<or> k = Ping \<or> k = Quit then [] else [''RATE_LIMITED'']) @
     (if \<not> require_auth h \<or> authenticated h \<or> k = Ping \<or> k = Quit \<or> (\<exists>pwd. k = Auth pwd) then [] else [''NOAUTH''])"

lemma command_typed:
  assumes "handle_command L ck cmd h s = Some (r, h', s')"
  shows "reply_type (all_codes h (cmd_kind cmd)) (cmd_kind cmd) r"
proof -
  consider pwd where "cmd_kind cmd = Auth pwd" | "cmd_kind cmd = Ping" | "cmd_kind cmd = Quit"
    | "\<nexists>pwd. cmd_kind cmd = Auth pwd" "cmd_kind cmd \<noteq> Ping" "cmd_kind cmd \<noteq> Quit" by blast
  then show ?thesis
  proof cases
    case 1
    with assms handle_auth_typed [of h pwd r h'] show ?thesis
      by (auto simp: handle_command_def typed_def all_codes_def intro: reply_type_mono split: prod.split_asm)
  next
    case 4
    then have "handle_command L ck cmd h s = (if require_auth h \<and> \<not> authenticated h
      then Some (response_error ''NOAUTH'' ''Authentication required. Use AUTH <password>'', h, s) else handle_authorized L ck cmd h s)"
      by (auto simp: handle_command_def split: command_kind.split)
    with assms 4 authorized_typed [of L ck cmd h s r h' s'] show ?thesis
      by (auto simp: reply_defs all_codes_def intro: reply_type_mono [unfolded reply_defs] split: if_splits response.splits)
  qed (use assms in \<open>auto simp: handle_command_def reply_defs all_codes_def\<close>)
qed

text \<open>
  C3. Every reply to a command has the type of that command: its own kind of response, or an error whose code is
  one of the command's own; besides, NOAUTH only from a connection that still owes the password, and
  RATE_LIMITED only under a limit, neither to PING and QUIT. A TTL is at least -2, and INC never fails but for
  the identifier.
\<close>

theorem replies_typed:
  assumes "process_command L ck cmd h s = Some (r, h', s')"
  shows "case r of Error c m \<Rightarrow> c \<in> set (all_codes h (cmd_kind cmd)) | _ \<Rightarrow> reply_kind (cmd_kind cmd) r"
proof -
  obtain ok h1 where a: "ask_limiter (c_instant ck) cmd h = (ok, h1)" by fastforce
  show ?thesis
  proof (cases ok)
    case True
    with a have "all_codes h1 = all_codes h"
      by (auto simp: all_codes_def fun_eq_iff ask_limiter_def split: if_splits option.split_asm prod.split_asm)
    with assms a True command_typed [of L ck cmd h1 s r h' s'] show ?thesis by (simp add: process_command_def reply_type_def)
  next
    case False
    with a have "limiter h \<noteq> None" "cmd_kind cmd \<noteq> Ping" "cmd_kind cmd \<noteq> Quit"
      by (auto simp: ask_limiter_def limit_exempt_def split: if_splits option.split_asm)
    with assms a False show ?thesis by (auto simp: process_command_def response_error_def all_codes_def)
  qed
qed

lemma replies_typed_witness:
  "\<exists>r h' s'. process_command demo_libs demo_clocks \<lparr>cmd_kind = Ttl, cmd_document_id = Some ''d''\<rparr> (handler_new ''c'') (server_new :: string server) = Some (r, h', s') \<and>
     (case r of Error c m \<Rightarrow> c \<in> {''MISSING_ARG'', ''INVALID_ID'', ''NOT_FOUND''} | _ \<Rightarrow> reply_kind Ttl r)"
proof -
  let ?c = "\<lparr>cmd_kind = Ttl, cmd_document_id = Some ''d''\<rparr>"
  have "process_command demo_libs demo_clocks ?c (handler_new ''c'') (server_new :: string server) =
    Some (handle_ttl demo_clocks (Some ''d'') (server_new :: string server), handler_new ''c'', server_new)"
    by (simp add: process_command_def ask_limiter_def handler_new_def limit_exempt_def handle_command_def handle_authorized_def)
  with replies_typed [OF this] show ?thesis
    by (auto simp: all_codes_def handler_new_def ID_CODES_def split: response.splits)
qed

end
