(* ===== verification/RaceLaws.thy ===== *)
theory RaceLaws imports ServerLaws begin

section \<open>Operations that take several accesses\<close>

text \<open>
  Creating a document and storing one take two accesses to a shared table each, and other threads may come between:
  what can then go wrong. And what the storage can never do, which is to be read.
\<close>

subsection \<open>Two stores of one document\<close>

text \<open>How far the account of the size is off.\<close>

definition drift :: "memory_storage \<Rightarrow> u64" where
  "drift s = total_size s - word_of_nat (entries_size (mem_data s))"

definition drifted :: "u64 \<Rightarrow> memory_storage \<Rightarrow> bool" where
  "drifted d s \<longleftrightarrow> dm_ok (mem_data s) \<and> drift s = d"

lemma memory_ok_drift: "memory_ok s \<longleftrightarrow> drifted 0 s"
  by (auto simp: memory_ok_def drifted_def drift_def)

lemma store_account_total:
  "total_size (store_account i n s) = total_size s - word_of_nat (size_at (mem_data s) (id_str i)) + word_of_nat n"
  by (simp add: store_account_def size_at_def split: option.split)

lemma store_account_data [simp]: "mem_data (store_account i n s) = mem_data s"
  by (simp add: store_account_def)

lemma store_entry_sel [simp]:
  "total_size (store_entry i e s) = total_size s" "mem_data (store_entry i e s) = dm_insert (id_str i) e (mem_data s)"
  by (simp_all add: store_entry_def)

lemma entries_size_insert_word:
  "dm_ok m \<Longrightarrow> (word_of_nat (entries_size (dm_insert k e m)) :: u64) =
     word_of_nat (entries_size m) - word_of_nat (size_at m k) + word_of_nat (entry_size e)"
  by (rule word_of_nat_insert) (rule entries_size_insert)

lemma drifted_store: "drifted d s \<Longrightarrow> drifted d (store_entry i e (store_account i (entry_size e) s))"
  by (simp add: drifted_def drift_def store_account_total entries_size_insert_word dm_ok_insert)

lemma drifted_delete: "drifted d s \<Longrightarrow> memory_delete i s = (r, s') \<Longrightarrow> drifted d s'"
proof -
  assume s: "drifted d s" and m: "memory_delete i s = (r, s')"
  show "drifted d s'"
  proof (cases "dm_get (mem_data s) (id_str i)")
    case (Some e)
    have "(word_of_nat (entries_size (dm_remove (id_str i) (mem_data s))) :: u64) + word_of_nat (entry_size e) =
        word_of_nat (entries_size (mem_data s))"
      using entries_size_remove [of "mem_data s" "id_str i"] s Some by (simp add: drifted_def size_at_def flip: of_nat_add)
    with s m Some show ?thesis by (auto simp: memory_delete_def drifted_def drift_def dm_ok_remove algebra_simps)
  qed (use s m in \<open>auto simp: memory_delete_def\<close>)
qed

interpretation drifting: invariant_system "memory_step sd" "drifted d" for sd d
proof unfold_locales
  fix s t assume "memory_step sd s t" and d: "drifted d s"
  then show "drifted d t"
  proof cases
    case (store i m b r)
    then show ?thesis using drifted_store [OF d] d by (auto simp: memory_store_accesses split: sum.split_asm)
  next
    case (delete i r)
    with drifted_delete [OF d] show ?thesis by blast
  qed
qed

text \<open>
  C39. The statistics of the in-memory storage are exact only if its stores do not overlap. If two tasks store the same
  document at once, so that both account for it before either writes it, the first one's size stays in the
  account for good: the total is off by that size less the old one, and whatever is stored or deleted
  afterwards, it stays off by as much.
\<close>

theorem overlapping_stores_miscount:
  assumes "memory_ok s"
    and "(memory_step sd)\<^sup>*\<^sup>*
      (store_entry i e2 (store_entry i e1 (store_account i (entry_size e2) (store_account i (entry_size e1) s)))) t"
  shows "total_size t = word_of_nat (entries_size (mem_data t)) +
    (word_of_nat (entry_size e1) - word_of_nat (size_at (mem_data s) (id_str i)))"
proof -
  let ?d = "word_of_nat (entry_size e1) - word_of_nat (size_at (mem_data s) (id_str i)) :: u64"
  have "size_at (dm_insert (id_str i) e1 (mem_data s)) (id_str i) = entry_size e1" by (simp add: size_at_def)
  then have "drifted ?d (store_entry i e2 (store_entry i e1 (store_account i (entry_size e2) (store_account i (entry_size e1) s))))"
    using assms(1) by (simp add: memory_ok_def drifted_def drift_def store_account_total entries_size_insert_word dm_ok_insert)
  from drifting.run_inv [OF assms(2) this] show ?thesis by (simp add: drifted_def drift_def algebra_simps)
qed

lemma overlapping_stores_miscount_witness:
  "\<exists>t. mem_data t = [] \<and> total_size t = 5 \<and> (memory_step \<lparr>to_vec = (\<lambda>m. Inl []), from_slice = (\<lambda>b. Inl [])\<rparr>)\<^sup>*\<^sup>*
     (store_entry (DocumentId ''a'') (''mm'', ''xyz'') (store_entry (DocumentId ''a'') (''mm'', ''abc'')
       (store_account (DocumentId ''a'') 5 (store_account (DocumentId ''a'') 5 memory_new)))) t"
proof -
  let ?i = "DocumentId ''a''" and ?sd = "\<lparr>to_vec = (\<lambda>m. Inl []), from_slice = (\<lambda>b. Inl [])\<rparr> :: meta_serde"
  let ?s = "store_entry ?i (''mm'', ''xyz'') (store_entry ?i (''mm'', ''abc'') (store_account ?i 5 (store_account ?i 5 memory_new)))"
  obtain r t where d: "memory_delete ?i ?s = (r, t)" and t: "mem_data t = []"
    by (simp add: memory_delete_def store_entry_def store_account_def memory_new_def)
  have run: "(memory_step ?sd)\<^sup>*\<^sup>* ?s t" using memory_step.delete [OF d] by (rule r_into_rtranclp)
  have e: "entry_size (''mm'', ''xyz'') = 5" "entry_size (''mm'', ''abc'') = 5" by (simp_all add: entry_size_def)
  have "total_size t = 5"
    using overlapping_stores_miscount [of memory_new ?sd ?i "(''mm'', ''xyz'')" "(''mm'', ''abc'')" t, unfolded e, OF memory_ok_new run] t
    by (simp add: entries_size_def size_at_def memory_new_def)
  with run t show ?thesis by blast
qed

subsection \<open>Two creations of one document\<close>

text \<open>
  A creation whose check came before another's insertion, but whose own comes after, succeeds too and replaces
  the document, whatever clients have written to it since, by an empty one; had its check come then, it
  would have been refused.
\<close>

theorem overlapping_creates_lose_document:
  assumes "create_check m i = None" and "create_insert y now m i st t = (d1, m1)"
    and "manager_get m2 i = Inr d" and "create_insert y now' m2 i st' t' = (d2, m3)"
  shows "manager_create y now m i st t = (Inr d1, m1) \<and> manager_get m3 i = Inr d2 \<and>
    lww_data d2 = VObject fmempty \<and> ydoc d2 = y_new y \<and> version (meta d2) = 1 \<and>
    manager_create y now' m2 i st' t' = (Inl (DocumentExists (id_str i)), m2)"
proof -
  have "manager_create y now m i st t = (Inr d1, m1)" using assms(1,2) by (simp add: manager_create_accesses)
  moreover have "manager_create y now' m2 i st' t' = (Inl (DocumentExists (id_str i)), m2)"
    using assms(3) by (simp add: manager_create_accesses create_check_def manager_get_def split: option.split_asm)
  moreover have "manager_get m3 i = Inr d2" "d2 = (case t' of Some x \<Rightarrow> document_with_ttl y now' i st' x | None \<Rightarrow> document_new y now' i st')"
    using assms(4) by (auto simp: create_insert_def Let_def manager_get_def)
  ultimately show ?thesis
    by (simp add: document_new_def document_with_ttl_def meta_new_def meta_with_ttl_def split: option.split)
qed

subsection \<open>The storage is never read\<close>

text \<open>What clients and the server's own state see of a world: all of it but the storage.\<close>

definition with_store :: "'e \<Rightarrow> ('y, 'd) world \<Rightarrow> ('y, 'e) world" where
  "with_store st w = \<lparr>w_server = w_server w, w_tcp = w_tcp w, w_ws = w_ws w, w_conns = w_conns w, w_storage = st\<rparr>"

definition same_libs :: "('y, 'd) env \<Rightarrow> ('y, 'e) env \<Rightarrow> bool" where
  "same_libs E E' \<longleftrightarrow> e_libs E' = e_libs E \<and> e_to_string E' = e_to_string E \<and> e_recv E' = e_recv E"

lemma with_store_sel [simp]:
  "w_server (with_store st w) = w_server w" "w_tcp (with_store st w) = w_tcp w" "w_ws (with_store st w) = w_ws w"
  "w_conns (with_store st w) = w_conns w" "w_storage (with_store st w) = st" "open_conn (with_store st w) i t c = open_conn w i t c"
  by (simp_all add: with_store_def open_conn_def)

lemma with_store_put [simp]: "put_conn i t r (with_store st w) = with_store st (put_conn i t r w)"
  by (simp add: put_conn_def with_store_def)

lemma with_store_step:
  assumes "world_step E w v" and "same_libs E E'"
  shows "\<exists>st'. world_step E' (with_store st w) (with_store st' v)"
  using assms(1)
proof cases
  case (tcp_accept peer handshake now c ep s)
  have "with_store st v = add_conn Tcp c ((with_store st w)\<lparr>w_tcp := ep, w_server := s\<rparr>)"
    unfolding tcp_accept(1) by (simp add: with_store_def add_conn_def split: option.split)
  with tcp_accept(2) world_step.tcp_accept [of peer handshake now "with_store st w" c ep s E'] show ?thesis
    by (intro exI [of _ st]) simp
next
  case (ws_accept peer handshake upgrade now c ep s)
  have "with_store st v = add_conn Ws c ((with_store st w)\<lparr>w_ws := ep, w_server := s\<rparr>)"
    unfolding ws_accept(1) by (simp add: with_store_def add_conn_def split: option.split)
  with ws_accept(2) world_step.ws_accept [of peer handshake upgrade now "with_store st w" c ep s E'] show ?thesis
    by (intro exI [of _ st]) simp
next
  case (tcp_read i c inp cks fails r)
  with assms(2) world_step.tcp_read [of "with_store st w" i c inp E' cks fails r] show ?thesis
    by (intro exI [of _ st]) (simp add: same_libs_def)
next
  case (tcp_update i c u pos ok)
  with assms(2) world_step.tcp_update [of "with_store st w" i c E' u pos ok] show ?thesis
    by (intro exI [of _ st]) (simp add: same_libs_def)
next
  case (ws_read i c cks fails wsi r)
  with assms(2) world_step.ws_read [of "with_store st w" i c E' cks fails wsi r] show ?thesis
    by (intro exI [of _ st]) (simp add: same_libs_def)
next
  case (ws_update i c u pos ok)
  with assms(2) world_step.ws_update [of "with_store st w" i c E' u pos ok] show ?thesis
    by (intro exI [of _ st]) (simp add: same_libs_def)
next
  case (store k)
  have "run_store E' k (with_store st w) = with_store (w_storage (run_store E' k (with_store st w))) v"
    unfolding store(1) by (simp add: run_store_def with_store_def split: prod.split)
  with store(2) world_step.store [of k "with_store st w" E'] show ?thesis by (metis with_store_sel(1))
next
  case (gc clock)
  have "with_store st v = run_gc clock (with_store st w)" unfolding gc by (simp add: run_gc_def with_store_def)
  with world_step.gc [of E' "with_store st w" clock] show ?thesis by metis
qed

interpretation storage: simulation "world_step E" "world_step E'" "\<lambda>w v. same_libs E E' \<and> (\<exists>st. v = with_store st w)" for E E'
proof (unfold_locales, goal_cases)
  case (1 w v u)
  then obtain st where "same_libs E E'" and u: "u = with_store st w" by blast
  with with_store_step [OF 1(1), of E' st] show ?case unfolding u by blast
qed


definition failing_env :: "(string, unit) env" where
  "failing_env = \<lparr>e_libs = e_libs demo_env, e_to_string = e_to_string demo_env, e_recv = e_recv demo_env,
     e_store = (\<lambda>i m d s. (Inl (Io ''disk full''), s))\<rparr>"


lemma overlapping_creates_lose_document_witness:
  "\<exists>d1 d2 m1 m3. create_insert string_yrs 5 manager_new (DocumentId ''a'') Lww None = (d1, m1) \<and>
     create_insert string_yrs 6 m1 (DocumentId ''a'') CrdtText None = (d2, m3) \<and> manager_get m3 (DocumentId ''a'') = Inr d2 \<and>
     lww_data d2 = VObject fmempty"
proof -
  let ?i = "DocumentId ''a''"
  obtain d1 m1 where 1: "create_insert string_yrs 5 manager_new ?i Lww None = (d1, m1)" by fastforce
  obtain d2 m3 where 2: "create_insert string_yrs 6 m1 ?i CrdtText None = (d2, m3)" by fastforce
  have "create_check manager_new ?i = None" by (simp add: create_check_def manager_new_def)
  moreover have "manager_get m1 ?i = Inr d1" using 1 by (auto simp: create_insert_def Let_def manager_get_def)
  ultimately show ?thesis using overlapping_creates_lose_document [OF _ 1 _ 2] 1 2 by blast
qed

end
