(* ===== verification/CoreTests.thy ===== *)
theory CoreTests imports Basic ManagerLaws begin

section \<open>The unit tests of the repository\<close>

text \<open>
  The tests that stand at the end of the source files, as they are written: a test is \<open>True\<close> when all of its
  assertions hold and every \<^verbatim>\<open>unwrap\<close> finds a value. They are proved for every library that does what it
  documents and every clock whose readings are as the test expects, not for one run.
\<close>

definition unwrap :: "'e + 'a \<Rightarrow> ('a \<Rightarrow> bool) \<Rightarrow> bool" where
  "unwrap r f = (case r of Inl e \<Rightarrow> False | Inr a \<Rightarrow> f a)"

definition unwrap_with :: "('e + 'a) \<times> 's \<Rightarrow> ('a \<Rightarrow> 's \<Rightarrow> bool) \<Rightarrow> bool" where
  "unwrap_with r f = (case r of (Inl e, s) \<Rightarrow> False | (Inr a, s) \<Rightarrow> f a s)"

definition unwrap_some :: "'a option \<Rightarrow> ('a \<Rightarrow> bool) \<Rightarrow> bool" where
  "unwrap_some r f = (case r of None \<Rightarrow> False | Some a \<Rightarrow> f a)"

lemma unwrap_simps [simp]:
  "unwrap (Inr a) f = f a" "unwrap (Inl e) f = False" "unwrap_with (Inr a, s) g = g a s" "unwrap_with (Inl e, s) g = False"
  "unwrap_some (Some a) f = f a" "unwrap_some None f = False"
  by (simp_all add: unwrap_def unwrap_with_def unwrap_some_def)

subsection \<open>Values and paths (crdt.rs)\<close>

definition test_path_parsing :: bool where
  "test_path_parsing = unwrap_some (path_collect ''foo.bar[0].baz'') (\<lambda>segments.
     length segments > 3 \<and> segments ! 0 = Key ''foo'' \<and> segments ! 1 = Key ''bar'' \<and> segments ! 2 = Index 0 \<and> segments ! 3 = Key ''baz'')"

definition test_value_get_path :: bool where
  "test_value_get_path =
     (get_path (VObject (fmupd ''name'' (VString ''Alice'') fmempty)) ''name'' = Some (Some (VString ''Alice'')))"

definition test_value_set_path :: bool where
  "test_value_set_path = unwrap_some (set_path (VObject fmempty) ''user.name'' (VString ''Bob''))
     (\<lambda>v. get_path v ''user.name'' = Some (Some (VString ''Bob'')))"

subsection \<open>Documents (document.rs)\<close>

definition is_ok :: "'e + 'a \<Rightarrow> bool" where
  "is_ok r = (case r of Inl e \<Rightarrow> False | Inr a \<Rightarrow> True)"

definition test_document_id_valid :: bool where
  "test_document_id_valid = (is_ok (document_id_new ''user:123'') \<and> is_ok (document_id_new ''cart_items-456''))"

definition test_document_id_invalid :: bool where
  "test_document_id_invalid =
     (\<not> is_ok (document_id_new '''') \<and> \<not> is_ok (document_id_new ''user/123'') \<and> \<not> is_ok (document_id_new (replicate 513 (CHR ''a''))))"

text \<open>A call on a document that returns and does not fail.\<close>

definition unwrap_doc :: "((error + 'a) \<times> 'd) option \<Rightarrow> ('a \<Rightarrow> 'd \<Rightarrow> bool) \<Rightarrow> bool" where
  "unwrap_doc r f = unwrap_some r (\<lambda>r. unwrap_with r f)"

definition unwrap_get :: "(error + val) option \<Rightarrow> (val \<Rightarrow> bool) \<Rightarrow> bool" where
  "unwrap_get r f = unwrap_some r (\<lambda>r. unwrap r f)"

lemma unwrap_doc_simps [simp]:
  "unwrap_doc (Some (Inr a, d)) f = f a d" "unwrap_get (Some (Inr v)) g = g v"
  by (simp_all add: unwrap_doc_def unwrap_get_def)

definition test_document_set_get :: "'y yrs \<Rightarrow> (nat \<Rightarrow> u64) \<Rightarrow> bool" where
  "test_document_set_get y now =
     unwrap (document_id_new ''test:1'') (\<lambda>i.
     unwrap_doc (doc_set y (now 1) (document_new y (now 0) i Lww) ''name'' (VString ''Alice'')) (\<lambda>_ d.
     unwrap_get (doc_get y d (Some ''name'')) (\<lambda>v. v = VString ''Alice'')))"

definition test_document_nested_path :: "'y yrs \<Rightarrow> (nat \<Rightarrow> u64) \<Rightarrow> bool" where
  "test_document_nested_path y now =
     unwrap (document_id_new ''test:2'') (\<lambda>i.
     unwrap_doc (doc_set y (now 1) (document_new y (now 0) i CrdtMap) ''user.profile.name'' (VString ''Bob'')) (\<lambda>_ d.
     unwrap_get (doc_get y d (Some ''user.profile.name'')) (\<lambda>v. v = VString ''Bob'')))"

definition test_document_increment :: "'y yrs \<Rightarrow> (nat \<Rightarrow> u64) \<Rightarrow> bool" where
  "test_document_increment y now =
     unwrap (document_id_new ''test:3'') (\<lambda>i.
     unwrap_doc (doc_increment (now 1) (document_new y (now 0) i CrdtCounter) ''count'' 5) (\<lambda>a d. a = 5 \<and>
     unwrap_doc (doc_increment (now 2) d ''count'' 3) (\<lambda>b d. b = 8 \<and>
     unwrap_doc (doc_increment (now 3) d ''count'' (-2)) (\<lambda>c d. c = 6))))"

definition test_document_update_count :: "'y yrs \<Rightarrow> (nat \<Rightarrow> u64) \<Rightarrow> bool" where
  "test_document_update_count y now =
     unwrap (document_id_new ''test:4'') (\<lambda>i.
     let d = document_new y (now 0) i CrdtText in update_count d = 0 \<and>
     unwrap_doc (doc_set y (now 1) d ''content'' (VString ''Hello'')) (\<lambda>_ d. update_count d = 1 \<and>
     unwrap_doc (doc_set y (now 2) d ''content'' (VString ''Hello World'')) (\<lambda>_ d. update_count d = 2)))"

definition test_document_compaction :: "'y yrs \<Rightarrow> (nat \<Rightarrow> u64) \<Rightarrow> bool" where
  "test_document_compaction y now =
     unwrap (document_id_new ''test:5'') (\<lambda>i.
     unwrap_doc (doc_set y (now 1) (document_new y (now 0) i CrdtText) ''content'' (VString ''Hello World'')) (\<lambda>_ d.
     state_size y d > 0 \<and>
     unwrap_with (compact y d) (\<lambda>saved d.
     unwrap_get (doc_get y d None) (\<lambda>v. v = VString ''Hello World'' \<and> update_count d = 0 \<and> compaction_count d = 1))))"

fun set_keys :: "'y yrs \<Rightarrow> (nat \<Rightarrow> u64) \<Rightarrow> nat list \<Rightarrow> 'y document \<Rightarrow> ('y document \<Rightarrow> bool) \<Rightarrow> bool" where
  "set_keys y now [] d f = f d"
| "set_keys y now (i # is) d f =
     unwrap_doc (doc_set y (now i) d ''key'' (VNumber (NInteger (word_of_nat i)))) (\<lambda>_ d. set_keys y now is d f)"

definition test_should_compact_threshold :: "'y yrs \<Rightarrow> (nat \<Rightarrow> u64) \<Rightarrow> bool" where
  "test_should_compact_threshold y now =
     unwrap (document_id_new ''test:6'') (\<lambda>i.
     let d = document_new y (now 0) i Lww in
     \<not> should_compact y d \<and> set_keys y now [0..<10] d (\<lambda>d. \<not> should_compact y d))"

lemma example_ids [simp]:
  "document_id_new ''test:1'' = Inr (DocumentId ''test:1'')" "document_id_new ''test:2'' = Inr (DocumentId ''test:2'')"
  "document_id_new ''test:3'' = Inr (DocumentId ''test:3'')" "document_id_new ''test:4'' = Inr (DocumentId ''test:4'')"
  "document_id_new ''test:5'' = Inr (DocumentId ''test:5'')" "document_id_new ''test:6'' = Inr (DocumentId ''test:6'')"
  by (simp_all add: document_id_new_def id_char_def byte_def)

lemma test_index_path [simp]: "path_collect ''foo.bar[0].baz'' = Some [Key ''foo'', Key ''bar'', Index 0, Key ''baz'']"
  by (simp add: path_collect.simps path_next.simps path_index_def find_char_def key_end_def
      parse_unsigned_def digits_val_def is_digit_def byte_def strip_prefix_char_def)

lemma test_paths [simp]:
  "path_collect ''name'' = Some [Key ''name'']" "path_collect ''user.name'' = Some [Key ''user'', Key ''name'']"
  "path_collect ''user.profile.name'' = Some [Key ''user'', Key ''profile'', Key ''name'']"
  "path_collect ''count'' = Some [Key ''count'']" "path_collect ''key'' = Some [Key ''key'']"
  by (simp_all add: path_collect.simps path_next.simps key_end_Cons key_end_def find_char_def)

lemma path_tests_pass: "test_path_parsing \<and> test_value_get_path \<and> test_value_set_path"
  by (simp add: test_path_parsing_def test_value_get_path_def test_value_set_path_def get_path_segs set_path_segs or_object_def)

lemma test_index_get [simp]: "doc_strategy d = Lww \<or> doc_strategy d = CrdtMap \<Longrightarrow> doc_get y d (Some p) =
    Option.bind (get_path (lww_data d) p) (\<lambda>r. Some (case r of Some v \<Rightarrow> Inr v | None \<Rightarrow> Inl (InvalidPath p)))"
  by (auto simp: doc_get_def)

lemma new_document_sel [simp]:
  "meta (document_new y t i st) = meta_new t i st" "lww_data (document_new y t i st) = VObject fmempty"
  "ydoc (document_new y t i st) = y_new y" "update_count (document_new y t i st) = 0" "compaction_count (document_new y t i st) = 0"
  "meta_strategy (meta_new t i st) = st" "meta_id (meta_new t i st) = i"
  by (simp_all add: document_new_def meta_new_def)

lemma update_version_fields [simp]:
  "lww_data (update_version t d) = lww_data d" "ydoc (update_version t d) = ydoc d" "doc_strategy (update_version t d) = doc_strategy d"
  "update_count (update_version t d) = update_count d" "compaction_count (update_version t d) = compaction_count d"
  by (simp_all add: update_version_def)

lemma value_document_tests_pass:
  "test_document_id_valid" "test_document_id_invalid" "test_document_set_get y now" "test_document_nested_path y now"
  "test_document_increment y now"
  by (simp_all add: test_document_id_valid_def test_document_id_invalid_def is_ok_def document_id_new_def id_char_def byte_def
      test_document_set_get_def test_document_nested_path_def test_document_increment_def doc_set_def doc_increment_def
      set_path_segs get_path_segs or_object_def Let_def)

text \<open>A text document after a text is set.\<close>

lemma set_text:
  assumes "yrs_text_laws y" and "doc_strategy d = CrdtText" and "length (y_text y (ydoc d)) < 2 ^ 32"
  shows "\<exists>d'. doc_set y now d p (VString t) = Some (Inr (), d') \<and> doc_strategy d' = CrdtText \<and> y_text y (ydoc d') = t \<and>
    update_count d' = update_count d + 1 \<and> compaction_count d' = compaction_count d"
proof -
  have "unat (word_of_nat (length (y_text y (ydoc d))) :: u32) = length (y_text y (ydoc d))"
    using assms(3) by (simp add: unat_of_nat)
  with assms(1) have "y_text y (y_insert y (y_remove y (ydoc d) 0 (word_of_nat (length (y_text y (ydoc d))))) 0 t) = t"
    by (simp add: yrs_text_laws_def)
  with assms(2) show ?thesis by (auto simp: doc_set_def Let_def increment_update_count_def)
qed

lemma text_document_tests_pass:
  assumes "yrs_text_laws y" and "yrs_state_laws y"
  shows "test_document_update_count y now" "test_document_compaction y now"
proof -
  let ?d = "\<lambda>i. document_new y (now 0) i CrdtText"
  have new: "y_text y (y_new y) = []" using assms(1) by (simp add: yrs_text_laws_def)
  obtain d1 where d1: "doc_set y (now 1) (?d (DocumentId ''test:4'')) ''content'' (VString ''Hello'') = Some (Inr (), d1)"
    "doc_strategy d1 = CrdtText" "y_text y (ydoc d1) = ''Hello''" "update_count d1 = 1"
    using set_text [OF assms(1), of "?d (DocumentId ''test:4'')" "now 1" "''content''" "''Hello''"] new by auto
  obtain d2 where d2: "doc_set y (now 2) d1 ''content'' (VString ''Hello World'') = Some (Inr (), d2)" "update_count d2 = 2"
    using set_text [OF assms(1), of d1 "now 2" "''content''" "''Hello World''"] d1 by auto
  from d1(1,4) d2 show "test_document_update_count y now" by (simp add: test_document_update_count_def Let_def)
  obtain e where e: "doc_set y (now 1) (?d (DocumentId ''test:5'')) ''content'' (VString ''Hello World'') = Some (Inr (), e)"
    "doc_strategy e = CrdtText" "y_text y (ydoc e) = ''Hello World''" "compaction_count e = 0"
    using set_text [OF assms(1), of "?d (DocumentId ''test:5'')" "now 1" "''content''" "''Hello World''"] new by auto
  have "y_text y (y_insert y (y_new y) 0 ''Hello World'') = ''Hello World''" "y_encode y (ydoc e) \<noteq> []"
    using assms new by (simp_all add: yrs_text_laws_def yrs_state_laws_def)
  with e show "test_document_compaction y now"
    by (simp add: test_document_compaction_def state_size_def encode_state_def compact_def compacted_def doc_get_def Let_def)
qed

lemma set_keys_holds:
  "doc_strategy d = Lww \<Longrightarrow> update_count d = 0 \<Longrightarrow> lww_data d = VObject m \<Longrightarrow>
     (\<And>d'. doc_strategy d' = Lww \<Longrightarrow> update_count d' = 0 \<Longrightarrow> f d') \<Longrightarrow> set_keys y now is d f"
  by (induction "is" arbitrary: d m) (auto simp: doc_set_def set_path_segs or_object_def)

lemma compact_test_passes: "test_should_compact_threshold y now"
  by (auto simp: test_should_compact_threshold_def Let_def should_compact_def COMPACTION_THRESHOLD_def intro!: set_keys_holds)

subsection \<open>The document manager (manager.rs)\<close>

definition test_create_and_get :: "'y yrs \<Rightarrow> (nat \<Rightarrow> u64) \<Rightarrow> bool" where
  "test_create_and_get y now =
     unwrap (document_id_new ''test:1'') (\<lambda>i.
     unwrap_with (manager_create y (now 0) manager_new i Lww None) (\<lambda>d m.
     unwrap_doc (doc_set y (now 1) d ''key'' (VString ''value'')) (\<lambda>_ d.
     unwrap (manager_get (manager_put i d m) i) (\<lambda>retrieved.
     unwrap_get (doc_get y retrieved (Some ''key'')) (\<lambda>v. v = VString ''value'')))))"

definition test_duplicate_create_fails :: "'y yrs \<Rightarrow> (nat \<Rightarrow> u64) \<Rightarrow> bool" where
  "test_duplicate_create_fails y now =
     unwrap (document_id_new ''test:2'') (\<lambda>i.
     unwrap_with (manager_create y (now 0) manager_new i Lww None) (\<lambda>_ m.
     \<not> is_ok (fst (manager_create y (now 1) m i Lww None))))"

definition test_pattern_matching :: bool where
  "test_pattern_matching =
     (matches_pattern ''user:123'' ''user:*'' \<and> matches_pattern ''user:123'' ''*:123'' \<and> matches_pattern ''anything'' ''*'' \<and>
      \<not> matches_pattern ''cart:456'' ''user:*'')"

definition create_new :: "'y yrs \<Rightarrow> u64 \<Rightarrow> string \<Rightarrow> 'y manager \<Rightarrow> ('y manager \<Rightarrow> bool) \<Rightarrow> bool" where
  "create_new y now k m f = unwrap (document_id_new k) (\<lambda>i. unwrap_with (manager_create y now m i Lww None) (\<lambda>_ m. f m))"

definition test_list_with_pattern :: "'y yrs \<Rightarrow> (nat \<Rightarrow> u64) \<Rightarrow> bool" where
  "test_list_with_pattern y now =
     create_new y (now 0) ''user:1'' manager_new (\<lambda>m. create_new y (now 1) ''user:2'' m (\<lambda>m. create_new y (now 2) ''cart:1'' m (\<lambda>m.
     length (manager_list m (Some ''user:*'')) = 2 \<and> length (manager_list m None) = 3)))"

definition test_create_with_ttl :: "'y yrs \<Rightarrow> (nat \<Rightarrow> u64) \<Rightarrow> bool" where
  "test_create_with_ttl y now =
     unwrap (document_id_new ''ttl:1'') (\<lambda>i.
     unwrap_with (manager_create y (now 0) manager_new i Lww (Some 3600000)) (\<lambda>d m.
     \<not> document_is_expired (now 1) d \<and>
     unwrap_some (document_ttl_remaining (now 2) d) (\<lambda>r. 3599000 <s r \<and> r \<le>s 3600000)))"

definition test_set_expire :: "'y yrs \<Rightarrow> (nat \<Rightarrow> u64) \<Rightarrow> bool" where
  "test_set_expire y now =
     unwrap (document_id_new ''expire:1'') (\<lambda>i.
     unwrap_with (manager_create y (now 0) manager_new i Lww None) (\<lambda>_ m.
     unwrap (manager_ttl (now 1) m i) (\<lambda>r. r = None \<and>
     unwrap_with (set_expire m i (Some 5000)) (\<lambda>_ m.
     unwrap (manager_ttl (now 2) m i) (\<lambda>r. unwrap_some r (\<lambda>t. 0 <s t \<and> t \<le>s 5000 \<and>
     unwrap_with (set_expire m i None) (\<lambda>_ m.
     unwrap (manager_ttl (now 3) m i) (\<lambda>r. r = None))))))))"

definition test_gc_removes_expired :: "'y yrs \<Rightarrow> u64 \<Rightarrow> u64 \<Rightarrow> (string \<Rightarrow> u64) \<Rightarrow> (string \<Rightarrow> u64) \<Rightarrow> bool" where
  "test_gc_removes_expired y t0 t1 scan1 scan2 =
     unwrap (document_id_new ''gc:1'') (\<lambda>i.
     unwrap_with (manager_create y t0 manager_new i Lww (Some 1)) (\<lambda>_ m.
     unwrap (document_id_new ''gc:2'') (\<lambda>i2.
     unwrap_with (manager_create y t1 m i2 Lww None) (\<lambda>_ m.
     expired_count scan1 m = 1 \<and>
     (case gc scan2 m of (removed, m) \<Rightarrow>
        removed = 1 \<and> document_count (stats m) = 1 \<and> \<not> is_ok (manager_get m i) \<and> is_ok (manager_get m i2))))))"

lemma manager_ids [simp]:
  "document_id_new ''user:1'' = Inr (DocumentId ''user:1'')" "document_id_new ''user:2'' = Inr (DocumentId ''user:2'')"
  "document_id_new ''cart:1'' = Inr (DocumentId ''cart:1'')" "document_id_new ''ttl:1'' = Inr (DocumentId ''ttl:1'')"
  "document_id_new ''expire:1'' = Inr (DocumentId ''expire:1'')" "document_id_new ''gc:1'' = Inr (DocumentId ''gc:1'')"
  "document_id_new ''gc:2'' = Inr (DocumentId ''gc:2'')"
  by (simp_all add: document_id_new_def id_char_def byte_def)

lemma create_in_new [simp]:
  "manager_create y t manager_new i st None =
     (Inr (document_new y t i st), \<lparr>documents = [(id_str i, document_new y t i st)], receivers = 0, sent = [], presence_of = []\<rparr>)"
  "manager_create y t manager_new i st (Some ms) =
     (Inr (document_with_ttl y t i st ms), \<lparr>documents = [(id_str i, document_with_ttl y t i st ms)], receivers = 0, sent = [], presence_of = []\<rparr>)"
  by (simp_all add: manager_create_def manager_new_def Let_def)

lemma pattern_tests [simp]:
  "matches_pattern ''user:123'' ''user:*''" "matches_pattern ''user:123'' ''*:123''" "matches_pattern ''anything'' ''*''"
  "\<not> matches_pattern ''cart:456'' ''user:*''" "matches_pattern ''user:1'' ''user:*''" "matches_pattern ''user:2'' ''user:*''"
  "\<not> matches_pattern ''cart:1'' ''user:*''"
  by (simp_all add: matches_pattern_def strip_suffix_char_def strip_prefix_char_def suffix_def)

lemma manager_tests_pass:
  "test_create_and_get y now" "test_duplicate_create_fails y now" "test_pattern_matching" "test_list_with_pattern y now"
  by (simp_all add: test_create_and_get_def test_duplicate_create_fails_def test_pattern_matching_def test_list_with_pattern_def
      create_new_def manager_create_def manager_new_def Let_def manager_get_def manager_put_def manager_list_def is_ok_def doc_set_def set_path_segs get_path_segs
      or_object_def)

text \<open>
  Two of the tests have an answer in the time they take: they pass if less than the second, or the five seconds, that
  they allow has gone by.
\<close>

lemma ttl_left:
  assumes "unat t \<le> unat u" and "unat u - unat t < ms" and "ms < 2 ^ 62"
  shows "sint (t + word_of_nat ms - (u :: u64)) = int ms - int (unat u - unat t)"
proof -
  define k where "k = unat u - unat t"
  have "u = t + word_of_nat k" using assms(1) by (simp add: k_def of_nat_diff)
  then have "t + word_of_nat ms - u = word_of_nat ms - word_of_nat k" by simp
  also have "\<dots> = word_of_nat (ms - k)" using assms(2) by (simp add: k_def of_nat_diff)
  finally have eq: "t + word_of_nat ms - u = word_of_nat (ms - k)" .
  have "sint (word_of_nat (ms - k) :: u64) = int (ms - k)" using assms(3) by (intro sint_word_of_nat) simp
  with assms(2) show ?thesis unfolding eq by (simp add: k_def of_nat_diff)
qed

lemma not_expired_yet:
  assumes "unat t \<le> unat u" and "unat u - unat t < ms" and "unat t < 2 ^ 62" and "ms < 2 ^ 62"
  shows "u \<le> t + (word_of_nat ms :: u64)"
proof -
  have "unat (t + word_of_nat ms) = unat t + ms" using assms(3,4) by (simp add: unat_word_ariths unat_of_nat)
  with assms(1,2) show ?thesis by (simp add: word_le_nat_alt)
qed

lemma ttl_tests_pass:
  assumes "unat (now 0) < 2 ^ 62"
    and "unat (now 0) \<le> unat (now 1)" and "unat (now 1) - unat (now 0) < 3600000"
    and "unat (now 0) \<le> unat (now 2)" and "unat (now 2) - unat (now 0) < 1000"
  shows "test_create_with_ttl y now" and "test_set_expire y now"
proof -
  have "now 1 \<le> now 0 + 3600000" using not_expired_yet [of "now 0" "now 1" 3600000] assms by simp
  moreover have "sint (now 0 + 3600000 - now 2) = 3600000 - int (unat (now 2) - unat (now 0))"
    using ttl_left [of "now 0" "now 2" 3600000] assms by simp
  ultimately show "test_create_with_ttl y now"
    using assms(5) by (simp add: test_create_with_ttl_def document_is_expired_def document_ttl_remaining_def not_less document_with_ttl_def meta_with_ttl_def is_expired_def ttl_remaining_def
        Let_def word_sless_alt word_sle_eq)
  have "sint (now 0 + 5000 - now 2) = 5000 - int (unat (now 2) - unat (now 0))"
    using ttl_left [of "now 0" "now 2" 5000] assms by simp
  then show "test_set_expire y now"
    using assms(5) by (simp add: test_set_expire_def manager_ttl_def manager_get_def set_expire_def manager_put_def set_ttl_def
        ttl_remaining_def meta_new_def Let_def word_sless_alt word_sle_eq)
qed

lemma gc_test_passes:
  assumes "unat t0 < 2 ^ 62" and "unat t0 + 1 < unat (scan1 ''gc:1'')" and "unat t0 + 1 < unat (scan2 ''gc:1'')"
  shows "test_gc_removes_expired y t0 t1 scan1 scan2"
proof -
  have "unat (t0 + 1) = unat t0 + 1" using assms(1) by (simp add: unat_word_ariths)
  with assms have "t0 + 1 < scan1 ''gc:1''" "t0 + 1 < scan2 ''gc:1''" by (simp_all add: word_less_nat_alt)
  then show ?thesis
    by (simp add: test_gc_removes_expired_def manager_create_def manager_new_def document_with_ttl_def meta_with_ttl_def Let_def
        expired_count_def gc_def is_expired_def meta_new_def stats_def manager_get_def is_ok_def)
qed

end
