(* ===== verification/ProtocolTests.thy ===== *)
theory ProtocolTests imports CoreTests ParserLaws Response Benchmark begin

section \<open>The tests of the protocol crate\<close>

text \<open>
  The unit tests of \<^verbatim>\<open>parser.rs\<close> and \<^verbatim>\<open>response.rs\<close>, translated as in \<^verbatim>\<open>CoreTests\<close>, and that they pass.
\<close>

subsection \<open>The parser (parser.rs)\<close>

definition unwrap_parsed :: "(protocol_error + command option) \<times> parser \<Rightarrow> (command \<Rightarrow> bool) \<Rightarrow> bool" where
  "unwrap_parsed r f = unwrap_with r (\<lambda>c p. unwrap_some c f)"

definition test_parse_create :: "from_str \<Rightarrow> bool" where
  "test_parse_create from_str =
     unwrap_with (feed (''CREATE user:123 STRATEGY lww'' @ [CR, LF]) parser_new) (\<lambda>_ p.
     unwrap_parsed (parse from_str p) (\<lambda>cmd. cmd_kind cmd = Create Lww None \<and> cmd_document_id cmd = Some ''user:123''))"

definition test_parse_get :: "from_str \<Rightarrow> bool" where
  "test_parse_get from_str =
     unwrap_with (feed (''GET user:123 PATH name'' @ [CR, LF]) parser_new) (\<lambda>_ p.
     unwrap_parsed (parse from_str p) (\<lambda>cmd. cmd_kind cmd = Get (Some ''name'')))"

definition test_parse_set :: "from_str \<Rightarrow> bool" where
  "test_parse_set from_str =
     unwrap_with (feed (''SET user:123 name '' @ Benchmark.quoted ''Alice'' @ [CR, LF]) parser_new) (\<lambda>_ p.
     unwrap_parsed (parse from_str p) (\<lambda>cmd. case cmd_kind cmd of Set path _ \<Rightarrow> path = ''name'' | _ \<Rightarrow> False))"

definition test_parse_set_json :: "from_str \<Rightarrow> bool" where
  "test_parse_set_json from_str =
     unwrap_with (feed (''SET user:123 data {'' @ Benchmark.quoted ''age'' @ '': 30}'' @ [CR, LF]) parser_new) (\<lambda>_ p.
     unwrap_parsed (parse from_str p) (\<lambda>cmd. case cmd_kind cmd of Set _ _ \<Rightarrow> True | _ \<Rightarrow> False))"

definition test_parse_increment :: "from_str \<Rightarrow> bool" where
  "test_parse_increment from_str =
     unwrap_with (feed (''INC counter:views count 1'' @ [CR, LF]) parser_new) (\<lambda>_ p.
     unwrap_parsed (parse from_str p) (\<lambda>cmd. case cmd_kind cmd of Increment _ delta \<Rightarrow> delta = 1 | _ \<Rightarrow> False))"

definition test_parse_ping :: "from_str \<Rightarrow> bool" where
  "test_parse_ping from_str =
     unwrap_with (feed (''PING'' @ [CR, LF]) parser_new) (\<lambda>_ p. unwrap_parsed (parse from_str p) (\<lambda>cmd. cmd_kind cmd = Ping))"

definition test_incomplete_command :: "from_str \<Rightarrow> bool" where
  "test_incomplete_command from_str =
     unwrap_with (feed ''GET user:123'' parser_new) (\<lambda>_ p.
     unwrap_with (parse from_str p) (\<lambda>c p. c = None \<and>
     unwrap_with (feed [CR, LF] p) (\<lambda>_ p. unwrap_parsed (parse from_str p) (\<lambda>cmd. True))))"

text \<open>What the tests rely on of the JSON library.\<close>

definition json_documented :: "from_str \<Rightarrow> bool" where
  "json_documented from_str \<longleftrightarrow> from_str (Benchmark.quoted ''Alice'') = Inr (JString ''Alice'') \<and>
     (\<exists>f. from_str (''{'' @ Benchmark.quoted ''age'' @ '': 30}'') = Inr (JObject [(''age'', JNumber (JsonNumber (Some 30) f))]))"

text \<open>A line of visible characters and blanks, taken apart into its first word and the rest.\<close>

lemma parse_ascii_line:
  assumes "ascii t" and "LF \<notin> set t" and "t \<noteq> []" and "32 < byte (hd t)" and "32 < byte (last t)" and "next_token t = Some (w, r)"
    and "parse_command from_str (to_uppercase w) r = Inr c"
  shows "parse from_str \<lparr>buffer = t @ [CR, LF]\<rparr> = (Inr (Some c), \<lparr>buffer = []\<rparr>)"
proof -
  have "byte (hd t) < 128" "byte (last t) < 128" using assms(1,3) by (auto simp: list_all_iff)
  then have "trim t = t" using assms by (intro trim_idle) auto
  moreover have "from_utf8_lossy t = t" using assms(1) by (simp add: from_utf8_lossy_valid ascii_valid_utf8)
  ultimately show ?thesis
    using parse_complete [of "\<lparr>buffer = t @ [CR, LF]\<rparr>" "t @ [CR]" "[]" from_str] assms
    by (simp add: strip_cr_def parse_line_def)
qed

lemmas token_defs = next_token_def skip_blanks_def regular_token_def find_char_def Let_def

lemma words:
  "to_uppercase ''CREATE'' = ''CREATE''" "to_uppercase ''STRATEGY'' = ''STRATEGY''" "to_uppercase ''GET'' = ''GET''" "to_uppercase ''PATH'' = ''PATH''"
  "to_uppercase ''SET'' = ''SET''" "to_uppercase ''INC'' = ''INC''" "to_uppercase ''PING'' = ''PING''"
  "to_lowercase ''lww'' = ''lww''"
  by (simp_all add: to_uppercase_Cons upper_char_def byte_def to_lowercase_def lower_char_def)

lemma small_numbers: "parse_i64 ''1'' = Some 1"
  by (simp add: parse_i64_def parse_unsigned_def digits_val_def is_digit_def byte_def strip_prefix_char_def)

lemmas parse_test_defs = byte_def token_defs words parse_command_def require_def small_numbers

lemma create_line:
  "parse from_str \<lparr>buffer = ''CREATE user:123 STRATEGY lww'' @ [CR, LF]\<rparr> = (Inr (Some (cmd_create ''user:123'' Lww None)), \<lparr>buffer = []\<rparr>)"
  by (rule parse_ascii_line [where w = "''CREATE''" and r = "'' user:123 STRATEGY lww''"])
    (simp_all add: parse_test_defs parse_create_def create_options.simps strategy_from_str_def)

lemma get_line:
  "parse from_str \<lparr>buffer = ''GET user:123 PATH name'' @ [CR, LF]\<rparr> = (Inr (Some (cmd_get ''user:123'' (Some ''name''))), \<lparr>buffer = []\<rparr>)"
  by (rule parse_ascii_line [where w = "''GET''" and r = "'' user:123 PATH name''"])
    (simp_all add: parse_test_defs parse_get_def get_options.simps)

lemma plain_get_line:
  "parse from_str \<lparr>buffer = ''GET user:123'' @ [CR, LF]\<rparr> = (Inr (Some (cmd_get ''user:123'' None)), \<lparr>buffer = []\<rparr>)"
  by (rule parse_ascii_line [where w = "''GET''" and r = "'' user:123''"])
    (simp_all add: parse_test_defs parse_get_def get_options.simps)

lemma inc_line:
  "parse from_str \<lparr>buffer = ''INC counter:views count 1'' @ [CR, LF]\<rparr> = (Inr (Some (cmd_increment ''counter:views'' ''count'' 1)), \<lparr>buffer = []\<rparr>)"
  by (rule parse_ascii_line [where w = "''INC''" and r = "'' counter:views count 1''"])
    (simp_all add: parse_test_defs parse_increment_def)

lemma ping_line: "parse from_str \<lparr>buffer = ''PING'' @ [CR, LF]\<rparr> = (Inr (Some cmd_ping), \<lparr>buffer = []\<rparr>)"
  by (rule parse_ascii_line [where w = "''PING''" and r = "[]"]) (simp_all add: parse_test_defs)

lemma json_value:
  assumes "from_str t = Inr j" and "trim t = t"
  shows "parse_value from_str t = json_to_value j"
  using assms by (simp add: parse_value_def)

lemma set_line:
  assumes "json_documented from_str"
  shows "parse from_str \<lparr>buffer = (''SET user:123 name '' @ Benchmark.quoted ''Alice'') @ [CR, LF]\<rparr> =
    (Inr (Some (cmd_set ''user:123'' ''name'' (VString ''Alice''))), \<lparr>buffer = []\<rparr>)"
proof -
  have "trim (Benchmark.quoted ''Alice'') = Benchmark.quoted ''Alice''" by (rule trim_idle) (simp_all add: Benchmark.quoted_def byte_def)
  then have "parse_value from_str (Benchmark.quoted ''Alice'') = Inr (VString ''Alice'')"
    using assms by (simp add: parse_value_def json_documented_def)
  then show ?thesis
    by (intro parse_ascii_line [where w = "''SET''" and r = "'' user:123 name '' @ Benchmark.quoted ''Alice''"])
      (simp_all add: parse_test_defs parse_set_def require_rest_def rest_def Benchmark.quoted_def)
qed

lemma json_line:
  assumes "json_documented from_str"
  shows "parse from_str \<lparr>buffer = (''SET user:123 data {'' @ Benchmark.quoted ''age'' @ '': 30}'') @ [CR, LF]\<rparr> =
    (Inr (Some (cmd_set ''user:123'' ''data'' (VObject (fmupd ''age'' (VNumber (NInteger 30)) fmempty)))), \<lparr>buffer = []\<rparr>)"
proof -
  let ?j = "''{'' @ Benchmark.quoted ''age'' @ '': 30}''"
  have "trim ?j = ?j" by (rule trim_idle) (simp_all add: Benchmark.quoted_def byte_def)
  then have "parse_value from_str ?j = Inr (VObject (fmupd ''age'' (VNumber (NInteger 30)) fmempty))"
    using assms by (auto simp: parse_value_def json_documented_def)
  then show ?thesis
    by (intro parse_ascii_line [where w = "''SET''" and r = "'' user:123 data {'' @ Benchmark.quoted ''age'' @ '': 30}''"])
      (simp_all add: parse_test_defs parse_set_def require_rest_def rest_def Benchmark.quoted_def)
qed

lemma feed_new: "length t \<le> 100 \<Longrightarrow> feed t parser_new = (Inr (), \<lparr>buffer = t\<rparr>)"
  by (simp add: feed_def parser_new_def MAX_MESSAGE_SIZE_def)

lemma unwrap_parsed_Inr [simp]: "unwrap_parsed (Inr (Some c), p) f = f c"
  by (simp add: unwrap_parsed_def)

lemma parser_tests_pass:
  assumes "json_documented from_str"
  shows "test_parse_create from_str \<and> test_parse_get from_str \<and> test_parse_set from_str \<and> test_parse_set_json from_str \<and>
    test_parse_increment from_str \<and> test_parse_ping from_str \<and> test_incomplete_command from_str"
  using create_line [of from_str] get_line [of from_str] plain_get_line [of from_str] set_line [OF assms] json_line [OF assms]
    inc_line [of from_str] ping_line [of from_str]
  by (simp add: test_parse_create_def test_parse_get_def test_parse_set_def test_parse_set_json_def test_parse_increment_def test_parse_ping_def
      test_incomplete_command_def parser_new_def parse_incomplete feed_def MAX_MESSAGE_SIZE_def Benchmark.quoted_def
      cmd_create_def cmd_get_def cmd_set_def cmd_increment_def cmd_ping_def)

subsection \<open>The response encoder (response.rs)\<close>

definition test_encode_ok :: "(val \<Rightarrow> string option) \<Rightarrow> bool" where
  "test_encode_ok to_string \<longleftrightarrow> encode to_string response_ok = ''+OK'' @ [CR, LF]"

definition test_encode_error :: "(val \<Rightarrow> string option) \<Rightarrow> bool" where
  "test_encode_error to_string \<longleftrightarrow>
     encode to_string (response_error ''NOT_FOUND'' ''Document not found'') = ''-ERR NOT_FOUND Document not found'' @ [CR, LF]"

definition test_encode_bulk :: "(val \<Rightarrow> string option) \<Rightarrow> bool" where
  "test_encode_bulk to_string \<longleftrightarrow> encode to_string (response_bulk ''hello'') = ''$5'' @ [CR, LF] @ ''hello'' @ [CR, LF]"

definition test_encode_integer :: "(val \<Rightarrow> string option) \<Rightarrow> bool" where
  "test_encode_integer to_string \<longleftrightarrow> encode to_string (response_integer 42) = '':42'' @ [CR, LF]"

definition test_encode_null :: "(val \<Rightarrow> string option) \<Rightarrow> bool" where
  "test_encode_null to_string \<longleftrightarrow> encode to_string response_null = ''$-1'' @ [CR, LF]"

definition test_encode_array :: "(val \<Rightarrow> string option) \<Rightarrow> bool" where
  "test_encode_array to_string \<longleftrightarrow>
     encode to_string (response_array [response_ok, response_integer 1]) = ''*2'' @ [CR, LF] @ ''+OK'' @ [CR, LF] @ '':1'' @ [CR, LF]"

lemma test_digits: "digit 1 = CHR ''1''" "digit 4 = CHR ''4''"
  "digit (Suc (Suc 0)) = CHR ''2''" "digit (Suc (Suc (Suc (Suc (Suc 0))))) = CHR ''5''" "digit (Suc 0) = CHR ''1''" "digit 2 = CHR ''2''"
  by code_simp+

lemma response_tests_pass:
  "test_encode_ok js \<and> test_encode_error js \<and> test_encode_bulk js \<and> test_encode_integer js \<and> test_encode_null js \<and> test_encode_array js"
  by (simp add: test_encode_ok_def test_encode_error_def test_encode_bulk_def test_encode_integer_def test_encode_null_def
      test_encode_array_def response_ok_def response_error_def response_bulk_def response_integer_def response_null_def response_array_def encode_def bulk_bytes_def CRLF_def show_i64_def show_nat.simps test_digits)

end
