(* ===== verification/ServerTests.thy ===== *)
theory ServerTests imports CoreTests RateLimitLaws Tls TransportLaws begin

section \<open>The tests of the transport crate\<close>

text \<open>
  The tests of \<^verbatim>\<open>rate_limit.rs\<close>, \<^verbatim>\<open>tcp.rs\<close> and \<^verbatim>\<open>tls.rs\<close>, translated as in \<^verbatim>\<open>CoreTests\<close>, and under which
  readings of the clock and which behaviour of the network they pass.
\<close>

subsection \<open>The rate limiter (rate\_limit.rs)\<close>

text \<open>Every call reads the clock once; \<open>now i\<close> is the \<open>i\<close>-th reading of a test, in nanoseconds.\<close>

definition test_basic_rate_limiting :: "(nat \<Rightarrow> nat) \<Rightarrow> bool" where
  "test_basic_rate_limiting now =
     (case acquire_all (map now [1, 2, 3, 4, 5]) (limiter_new (now 0) (rate_limit_new 10 5)) of
        (bs, l) \<Rightarrow> list_all id bs \<and> \<not> fst (try_acquire (now 6) l))"

definition test_token_refill :: "(nat \<Rightarrow> nat) \<Rightarrow> bool" where
  "test_token_refill now =
     (case acquire_all (map now [1, 2, 3, 4, 5, 6, 7, 8, 9, 10]) (limiter_new (now 0) (rate_limit_new 1000 10)) of
        (_, l) \<Rightarrow> (case try_acquire (now 11) l of (b, l) \<Rightarrow> \<not> b \<and> fst (try_acquire (now 12) l)))"

definition test_would_limit :: "(nat \<Rightarrow> nat) \<Rightarrow> bool" where
  "test_would_limit now =
     (case would_limit (now 1) (limiter_new (now 0) (rate_limit_new 10 2)) of (w1, l) \<Rightarrow>
     (case try_acquire (now 2) l of (_, l) \<Rightarrow>
     (case would_limit (now 3) l of (w2, l) \<Rightarrow>
     (case try_acquire (now 4) l of (_, l) \<Rightarrow> \<not> w1 \<and> \<not> w2 \<and> fst (would_limit (now 5) l)))))"

definition test_reset :: "(nat \<Rightarrow> nat) \<Rightarrow> bool" where
  "test_reset now =
     (case acquire_all (map now [1, 2, 3, 4, 5]) (limiter_new (now 0) (rate_limit_new 10 5)) of
        (_, l) \<Rightarrow> (case available_tokens (now 6) l of (a, l) \<Rightarrow>
          a = 0 \<and> fst (available_tokens (now 8) (limiter_reset (now 7) l)) = 5))"

text \<open>
  Up to the time \<open>T\<close>, while less than one token has been refilled since the limiter was made at
  \<open>z\<close>, the whole tokens left are the burst less those spent.
\<close>

definition spent :: "nat \<Rightarrow> nat \<Rightarrow> rate_limit_config \<Rightarrow> nat \<Rightarrow> rate_limiter \<Rightarrow> bool" where
  "spent z T c u l \<longleftrightarrow> u \<le> unat (burst_size c) \<and> z \<le> last_refill l \<and> last_refill l \<le> T \<and>
     unat (max_tokens l) = 1000 * unat (burst_size c) \<and> unat (tokens_per_ms l) = unat (requests_per_second c) \<and>
     1000 * (unat (burst_size c) - u) \<le> unat (tokens l) \<and> unat (tokens l) \<le> unat (max_tokens l) \<and>
     unat (tokens l) \<le> 1000 * (unat (burst_size c) - u) + unat (requests_per_second c) * elapsed_millis (last_refill l) z"

lemma spent_new: "z \<le> T \<Longrightarrow> spent z T c 0 (limiter_new z c)"
  by (simp add: spent_def unat_max_tokens unat_tokens_per_ms elapsed_millis_def)

lemma elapsed_mono: "now \<le> T \<Longrightarrow> z \<le> since \<Longrightarrow> elapsed_millis now since \<le> elapsed_millis T z"
  unfolding elapsed_millis_def by (rule div_le_mono) simp

lemma spent_refill:
  assumes "spent z T c u l" and "now \<le> T" and "unat (requests_per_second c) * elapsed_millis T z < 1000"
  shows "spent z T c u (refill now l)"
proof (cases "refill now l = l")
  case False
  let ?e = "elapsed_millis now (last_refill l)"
  let ?new = "tokens_per_ms l * word_of_nat ?e"
  have r: "refill now l = l\<lparr>last_refill := now, tokens := min (tokens l + ?new) (max_tokens l)\<rparr>" and "?e > 0"
    using False by (auto simp: refill_def Let_def split: if_splits)
  have "unat ?new \<le> unat (requests_per_second c) * ?e"
    using unat_new_tokens [of "tokens_per_ms l" ?e] assms(1) by (simp add: spent_def)
  moreover have "unat (requests_per_second c) * ?e \<le> unat (requests_per_second c) * elapsed_millis T z"
    using elapsed_mono [of now T z "last_refill l"] assms(1,2) by (intro mult_le_mono2) (simp add: spent_def)
  moreover have "unat (burst_size c) < 4294967296" using unsigned_less [of "burst_size c"] by simp
  moreover have "unat (tokens l) \<le> 1000 * unat (burst_size c)" using assms(1) by (simp add: spent_def)
  ultimately have "unat (tokens l) + unat ?new < 18446744073709551616" using assms(3) by linarith
  then have "unat (tokens l + ?new) = unat (tokens l) + unat ?new" by (simp add: unat_word_ariths)
  moreover have "unat (tokens (refill now l)) + unat (tokens_per_ms l) * elapsed_millis (last_refill l) z
     \<le> unat (tokens l) + unat (tokens_per_ms l) * elapsed_millis (last_refill (refill now l)) z"
    using assms(1) by (intro refill_bound) (simp add: spent_def)
  moreover have "last_refill l \<le> now" using \<open>?e > 0\<close> by (simp add: elapsed_millis_def)
  ultimately show ?thesis using assms(1,2) r by (simp add: spent_def min_word)
qed (use assms in simp)

lemma spent_tokens:
  assumes "spent z T c u l" and "unat (requests_per_second c) * elapsed_millis T z < 1000"
  shows "unat (tokens l) div 1000 = unat (burst_size c) - u"
proof -
  have "unat (requests_per_second c) * elapsed_millis (last_refill l) z \<le> unat (requests_per_second c) * elapsed_millis T z"
    using elapsed_mono [of "last_refill l" T z z] assms(1) by (intro mult_le_mono2) (simp add: spent_def)
  moreover have "unat (tokens l) \<le> 1000 * (unat (burst_size c) - u) + unat (requests_per_second c) * elapsed_millis (last_refill l) z"
    and "1000 * (unat (burst_size c) - u) \<le> unat (tokens l)"
    using assms(1) unfolding spent_def by blast+
  ultimately have "unat (tokens l) < 1000 * (unat (burst_size c) - u) + 1000" and "1000 * (unat (burst_size c) - u) \<le> unat (tokens l)"
    using assms(2) by linarith+
  then show ?thesis by (intro div_nat_eqI) simp_all
qed

lemma spent_acquire:
  assumes "spent z T c u l" and "now \<le> T" and "unat (requests_per_second c) * elapsed_millis T z < 1000"
  shows "fst (try_acquire now l) \<longleftrightarrow> u < unat (burst_size c)"
    and "spent z T c (if u < unat (burst_size c) then Suc u else u) (snd (try_acquire now l))"
proof -
  note r = spent_refill [OF assms]
  have "tokens (refill now l) < 1000 \<longleftrightarrow> \<not> u < unat (burst_size c)"
    using spent_tokens [OF r assms(3)] r by (auto simp: word_less_nat_alt spent_def)
  moreover have "1000 * (unat (burst_size c) - u) \<le> unat (tokens (refill now l))" using r by (simp add: spent_def)
  ultimately show "fst (try_acquire now l) \<longleftrightarrow> u < unat (burst_size c)"
    and "spent z T c (if u < unat (burst_size c) then Suc u else u) (snd (try_acquire now l))"
    using r by (auto simp: try_acquire_def Let_def spent_def word_less_nat_alt word_le_nat_alt unat_sub)
qed

lemma spent_acquire_all:
  assumes "spent z T c u l" and "\<forall>t\<in>set ts. t \<le> T" and "u + length ts \<le> unat (burst_size c)"
    and "unat (requests_per_second c) * elapsed_millis T z < 1000"
  shows "list_all id (fst (acquire_all ts l)) \<and> spent z T c (u + length ts) (snd (acquire_all ts l))"
  using assms
proof (induction ts arbitrary: u l)
  case (Cons t ts)
  have "fst (try_acquire t l)" and "spent z T c (Suc u) (snd (try_acquire t l))"
    using spent_acquire [of z T c u l t] Cons.prems by auto
  with Cons.IH [of "Suc u" "snd (try_acquire t l)"] Cons.prems show ?case by (auto simp: case_prod_beta)
qed simp

lemma spent_burst:
  assumes "acquire_all ts (limiter_new z c) = (bs, l)" and "\<forall>t\<in>set ts. t \<le> T" and "length ts = unat (burst_size c)" and "z \<le> T"
    and "unat (requests_per_second c) * elapsed_millis T z < 1000"
  shows "list_all id bs" and "spent z T c (unat (burst_size c)) l"
  using spent_acquire_all [OF spent_new [OF assms(4)] assms(2) _ assms(5)] assms(1,3) by simp_all

lemma spent_would_limit:
  assumes "spent z T c u l" and "now \<le> T" and "unat (requests_per_second c) * elapsed_millis T z < 1000"
  shows "fst (would_limit now l) \<longleftrightarrow> u = unat (burst_size c)" and "spent z T c u (snd (would_limit now l))"
proof -
  note r = spent_refill [OF assms]
  have "tokens (refill now l) < 1000 \<longleftrightarrow> u = unat (burst_size c)"
    using spent_tokens [OF r assms(3)] r by (auto simp: word_less_nat_alt spent_def)
  with r show "fst (would_limit now l) \<longleftrightarrow> u = unat (burst_size c)" and "spent z T c u (snd (would_limit now l))"
    by (simp_all add: would_limit_def Let_def)
qed

lemma spent_available:
  assumes "spent z T c u l" and "now \<le> T" and "unat (requests_per_second c) * elapsed_millis T z < 1000"
  shows "unat (fst (available_tokens now l)) = unat (burst_size c) - u" and "spent z T c u (snd (available_tokens now l))"
proof -
  note r = spent_refill [OF assms]
  have "unat (tokens (refill now l) div 1000) = unat (burst_size c) - u"
    using spent_tokens [OF r assms(3)] by (simp add: unat_div)
  moreover have "unat (burst_size c) < 2 ^ 32" using unsigned_less [of "burst_size c"] by simp
  ultimately show "unat (fst (available_tokens now l)) = unat (burst_size c) - u" and "spent z T c u (snd (available_tokens now l))"
    using r by (simp_all add: available_tokens_def Let_def unsigned_ucast_eq take_bit_eq_mod)
qed

lemma spent_reset:
  assumes "spent z T c u l" and "now \<le> T" and "z \<le> now"
  shows "spent z T c 0 (limiter_reset now l)"
  using assms by (simp add: spent_def limiter_reset_def)

text \<open>
  Three of the tests pass when the whole test takes less than the time of one token, the hundred
  milliseconds of a limit of ten requests per second; \<^verbatim>\<open>test_token_refill\<close> at a thousand requests
  per second needs its first eleven calls within the same millisecond.
\<close>

lemma limiter_tests_pass:
  assumes "\<forall>i\<le>8. now 0 \<le> now i \<and> now i \<le> T" and "elapsed_millis T (now 0) < 100"
  shows "test_basic_rate_limiting now" "test_would_limit now" "test_reset now"
proof -
  have le: "now i \<le> T" "now 0 \<le> now i" if "i \<le> 8" for i using assms(1) that by simp_all
  have r: "unat (requests_per_second (rate_limit_new 10 b)) * elapsed_millis T (now 0) < 1000" for b
    using assms(2) by (simp add: rate_limit_new_def)
  note start = spent_new [OF le(1) [of 0], simplified]
  let ?c = "rate_limit_new 10 5"
  have five: "\<forall>t\<in>set (map now [1, 2, 3, 4, 5]). t \<le> T" by (simp add: le)
  obtain bs l where a: "acquire_all (map now [1, 2, 3, 4, 5]) (limiter_new (now 0) ?c) = (bs, l)"
    by (cases "acquire_all (map now [1, 2, 3, 4, 5]) (limiter_new (now 0) ?c)") auto
  have s: "list_all id bs" "spent (now 0) T ?c 5 l"
    using spent_burst [OF a five _ le(1) r] by (simp_all add: rate_limit_new_def)
  show "test_basic_rate_limiting now"
    unfolding test_basic_rate_limiting_def a using s(1) spent_acquire(1) [OF s(2) le(1) r, of 6] by (simp add: rate_limit_new_def)
  obtain n l' where n: "available_tokens (now 6) l = (n, l')" by (cases "available_tokens (now 6) l") auto
  have n': "unat n = 0" "spent (now 0) T ?c 5 l'"
    using spent_available [OF s(2) le(1) r, of 6] n by (simp_all add: rate_limit_new_def)
  note full = spent_reset [OF n'(2) le(1) le(2), of 7, simplified]
  have "unat (fst (available_tokens (now 8) (limiter_reset (now 7) l'))) = 5"
    using spent_available(1) [OF full le(1) r, of 8] by (simp add: rate_limit_new_def)
  then show "test_reset now"
    unfolding test_reset_def a using n'(1) by (simp add: n word_unat_eq_iff)
  show "test_would_limit now"
  proof -
    let ?d = "rate_limit_new 10 2"
    note start2 = start [of ?d]
    obtain w1 l1 where 1: "would_limit (now 1) (limiter_new (now 0) ?d) = (w1, l1)" by fastforce
    have s1: "\<not> w1" "spent (now 0) T ?d 0 l1" using spent_would_limit [OF start2 le(1) r, of 1] 1 by (simp_all add: rate_limit_new_def)
    obtain b2 l2 where 2: "try_acquire (now 2) l1 = (b2, l2)" by fastforce
    have s2: "spent (now 0) T ?d 1 l2" using spent_acquire(2) [OF s1(2) le(1) r, of 2] 2 by (simp add: rate_limit_new_def)
    obtain w3 l3 where 3: "would_limit (now 3) l2 = (w3, l3)" by fastforce
    have s3: "\<not> w3" "spent (now 0) T ?d 1 l3" using spent_would_limit [OF s2 le(1) r, of 3] 3 by (simp_all add: rate_limit_new_def)
    obtain b4 l4 where 4: "try_acquire (now 4) l3 = (b4, l4)" by fastforce
    have s4: "spent (now 0) T ?d 2 l4" using spent_acquire(2) [OF s3(2) le(1) r, of 4] 4 by (simp add: rate_limit_new_def numeral_2_eq_2 [symmetric])
    show ?thesis
      unfolding test_would_limit_def 1 2 3 4 prod.case
      using s1(1) s3(1) spent_would_limit(1) [OF s4 le(1) r, of 5] by (simp add: rate_limit_new_def)
  qed
qed

lemma refill_test_passes:
  assumes "\<forall>i\<le>11. now 0 \<le> now i \<and> now i \<le> T" and "elapsed_millis T (now 0) = 0" and "now 11 + 20000000 \<le> now 12"
    and "elapsed_millis (now 12) (now 0) < 2 ^ 32"
  shows "test_token_refill now"
proof -
  have le: "now i \<le> T" "now 0 \<le> now i" if "i \<le> 11" for i using assms(1) that by simp_all
  let ?c = "rate_limit_new 1000 10"
  have r: "unat (requests_per_second ?c) * elapsed_millis T (now 0) < 1000" using assms(2) by simp
  have ten: "\<forall>t\<in>set (map now [1, 2, 3, 4, 5, 6, 7, 8, 9, 10]). t \<le> T" by (simp add: le)
  obtain bs l where a: "acquire_all (map now [1, 2, 3, 4, 5, 6, 7, 8, 9, 10]) (limiter_new (now 0) ?c) = (bs, l)" by fastforce
  have s: "spent (now 0) T ?c 10 l"
    using spent_burst(2) [OF a ten _ le(1) r] by (simp add: rate_limit_new_def)
  obtain b l' where b: "try_acquire (now 11) l = (b, l')" by fastforce
  have l': "\<not> b" "spent (now 0) T ?c 10 l'" using spent_acquire [OF s le(1) r, of 11] b by (simp_all add: rate_limit_new_def)
  have l'': "unat (tokens_per_ms l') = 1000" "unat (max_tokens l') = 10000" "last_refill l' \<le> T" "now 0 \<le> last_refill l'"
    using l'(2) by (simp_all add: spent_def rate_limit_new_def)
  have "elapsed_millis (last_refill l') (now 0) = 0" using elapsed_mono [OF l''(3), of "now 0" "now 0"] assms(2) by simp
  then have "unat (tokens l') = 0" using l'(2) by (simp add: spent_def rate_limit_new_def)
  then have none: "tokens l' = 0" by (simp only: unat_eq_0)
  let ?e = "elapsed_millis (now 12) (last_refill l')"
  have "T - now 0 < 1000000" using assms(2) by (simp add: elapsed_millis_def div_eq_0_iff)
  then have "last_refill l' < now 0 + 1000000" using l''(3) by arith
  then have "19 * 1000000 \<le> now 12 - last_refill l'" using assms(3) le(2) [of 11] by arith
  then have e: "19 \<le> ?e" unfolding elapsed_millis_def by (simp add: less_eq_div_iff_mult_less_eq)
  have "?e < 4294967296" using assms(4) elapsed_mono [of "now 12" "now 12" "now 0" "last_refill l'"] l''(4) by simp
  then have new: "unat (tokens_per_ms l' * word_of_nat ?e) = 1000 * ?e"
    using l''(1) by (simp add: unat_word_ariths unsigned_of_nat take_bit_eq_mod)
  then have "tokens_per_ms l' * word_of_nat ?e > 0" using e by (simp add: word_gt_0 unat_gt_0 [symmetric])
  then have "tokens (refill (now 12) l') = min (tokens_per_ms l' * word_of_nat ?e) (max_tokens l')"
    using e none by (simp add: refill_def)
  then have "unat (tokens (refill (now 12) l')) \<ge> 1000" using new l''(2) e by (simp add: min_word)
  then have "fst (try_acquire (now 12) l')" by (simp add: try_acquire_def Let_def word_less_nat_alt)
  then show ?thesis unfolding test_token_refill_def a using l'(1) by (simp add: b)
qed

text \<open>With a millisecond from call to call the bucket stays full enough, and the test fails.\<close>

lemma refill_test_fails: "\<not> test_token_refill (\<lambda>i. i * 1000000)"
  by (simp add: test_token_refill_def limiter_new_def rate_limit_new_def try_acquire_def refill_def elapsed_millis_def Let_def)

subsection \<open>A TCP connection (tcp.rs)\<close>

text \<open>
  The server's side of the test: each of the client's two lines comes in one read, and \<open>fails\<close> tells
  which of the writes after the second read fails, for the client drops its end without reading on.
\<close>

definition test_tcp_ping_pong :: "'y libs \<Rightarrow> (val \<Rightarrow> string option) \<Rightarrow> (nat \<Rightarrow> clocks) \<Rightarrow> nat \<Rightarrow> nat option \<Rightarrow> bool" where
  "test_tcp_ping_pong L to_string cks now fails =
     (case open_connection now tcp_server_new ''test'' server_new of (c, s) \<Rightarrow>
     (case tcp_read L to_string cks None (TcpRead (''PING'' @ [CR, LF])) c s of None \<Rightarrow> False | Some (c, s) \<Rightarrow>
       (case conn_out c of [Raw response] \<Rightarrow> trim response = ''+PONG'' | _ \<Rightarrow> False) \<and>
     (case tcp_read L to_string cks fails (TcpRead (''QUIT'' @ [CR, LF])) c s of None \<Rightarrow> False | Some (c, s) \<Rightarrow>
       conn_state c = Closed)))"

text \<open>A command without arguments that the handler answers at once.\<close>

lemma process_word:
  assumes "c = cmd_ping \<and> r = Pong \<or> c = cmd_quit \<and> r = Ok (Some ''Goodbye'')"
  shows "process L cks (render_line True (\<lambda>j. []) (\<lambda>v. []) c) (handler_new cid) s = Some ([r], handler_new cid, s)"
proof -
  have ok: "\<forall>c\<in>set [c]. command_ok (l_from_str L) (\<lambda>j. []) (\<lambda>v. []) c"
    using assms by (auto simp: command_ok_def cmd_quit_def cmd_ping_def)
  have "run_commands L cks 0 [c] (handler_new cid) s = Some ([r], handler_new cid, s)"
    using assms by (auto simp: process_command_def ask_limiter_def limit_exempt_def cmd_quit_def cmd_ping_def
        handle_command_def ok_with_message_def)
  moreover have "length (render_line True (\<lambda>j. []) (\<lambda>v. []) c) \<le> 100"
    using assms by (auto simp: render_line_def render_command_def cmd_quit_def cmd_ping_def)
  ultimately show ?thesis
    using process_loop_commands [OF ok, where cks = cks and n = 0 and h = "handler_new cid" and s = s and e = True]
    by (simp add: process_def feed_def handler_new_def parser_new_def MAX_MESSAGE_SIZE_def)
qed

text \<open>The test passes exactly when the goodbye, which nobody reads, can still be written.\<close>

lemma tcp_test_passes: "test_tcp_ping_pong L js cks now fails \<longleftrightarrow> fails \<noteq> Some 0"
proof -
  have "render_line True (\<lambda>j. []) (\<lambda>v. []) cmd_ping = ''PING'' @ [CR, LF]" "render_line True (\<lambda>j. []) (\<lambda>v. []) cmd_quit = ''QUIT'' @ [CR, LF]"
    by (simp_all add: render_line_def render_command_def cmd_quit_def cmd_ping_def)
  then have p: "process L cks (''PING'' @ [CR, LF]) (handler_new cid) s = Some ([Pong], handler_new cid, s)"
    "process L cks (''QUIT'' @ [CR, LF]) (handler_new cid) s = Some ([Ok (Some ''Goodbye'')], handler_new cid, s)" for cid s
    using process_word [of cmd_ping Pong] process_word [of cmd_quit "Ok (Some ''Goodbye'')"] by metis+
  have "trim (''+PONG'' @ [CR, LF]) = ''+PONG''" by code_simp
  then show ?thesis
    using p by (simp add: test_tcp_ping_pong_def open_connection_def make_handler_def tcp_server_new_def Let_def tcp_read_def respond_def
        is_goodbye_def leave_def tcp_frame_def encode_def CRLF_def)
qed

subsection \<open>The text of an error (tls.rs)\<close>

definition test_tls_error_display :: bool where
  "test_tls_error_display \<longleftrightarrow> sublist ''certificate'' (tls_error_msg (CertLoad ''file not found''))"

lemma tls_test_passes: test_tls_error_display
  by code_simp

end
