(* ===== verification/Listing.thy ===== *)
theory Listing imports ManagerLaws StorageLaws "HOL-Library.List_Lexorder" "HOL-Library.Char_ord" begin

section \<open>What is listed\<close>

text \<open>
  The order in which a hash map lists its entries is not defined. Identifiers are ordered here as the texts
  they are, so that a listing has a normal form: sorted, it is the sorted list of a set, that is,
  each element of the set is listed, once.
\<close>

instantiation document_id :: linorder
begin

definition less_eq_document_id :: "document_id \<Rightarrow> document_id \<Rightarrow> bool" where
  "less_eq_document_id i j \<longleftrightarrow> id_str i \<le> id_str j"

definition less_document_id :: "document_id \<Rightarrow> document_id \<Rightarrow> bool" where
  "less_document_id i j \<longleftrightarrow> id_str i < id_str j"

instance
  by intro_classes (auto simp: less_eq_document_id_def less_document_id_def intro: document_id.expand)

end

lemma sort_listing:
  fixes ids :: "document_id list"
  shows "distinct ids \<Longrightarrow> set ids = A \<Longrightarrow> sort ids = sorted_list_of_set A"
  using sorted_list_of_set_sort_remdups [of ids] by (simp add: distinct_remdups_id)

lemma concat_if: "concat (map (\<lambda>k. if P k then if Q k then [f k] else [] else []) ks) = map f (filter (\<lambda>k. P k \<and> Q k) ks)"
  by (induction ks) simp_all

lemma in_map_id: "i \<in> set (map DocumentId ks) \<longleftrightarrow> id_str i \<in> set ks"
  by (cases i) auto

definition selected :: "string option \<Rightarrow> string \<Rightarrow> bool" where
  "selected pattern k = (case pattern of None \<Rightarrow> True | Some p \<Rightarrow> matches_pattern k p)"

lemma listed_entry:
  assumes "manager_ok m" and "(k, d) \<in> set (documents m)"
  shows "meta_id (meta d) = DocumentId k" and "manager_get m (DocumentId k) = Inr d"
proof -
  have get: "dm_get (documents m) k = Some d" using assms by (simp add: manager_ok_def dm_get_iff)
  from document_id_new_Inr [OF manager_ok_id [OF assms(1) get]] show "meta_id (meta d) = DocumentId k" by (cases "meta_id (meta d)") simp
  from get show "manager_get m (DocumentId k) = Inr d" by (simp add: manager_get_def)
qed

text \<open>
  C31. In every state the manager can reach, the list for a pattern has the metadata of each document whose identifier
  matches, once, and of no other: sorted by identifier it is the sorted list of the identifiers
  that match and under which a document is found, each with that document's metadata.
\<close>

theorem list_exact:
  assumes "(manager_step y)\<^sup>*\<^sup>* manager_new m"
  shows "sort (map meta_id (manager_list m pattern)) =
      sorted_list_of_set {i. selected pattern (id_str i) \<and> (\<exists>d. manager_get m i = Inr d)} \<and>
    (\<forall>mt\<in>set (manager_list m pattern). \<exists>d. manager_get m (meta_id mt) = Inr d \<and> meta d = mt)"
proof -
  have ok: "manager_ok m" using mgr.run_inv [OF assms] by (simp add: manager_ok_new)
  note entry = listed_entry [OF ok]
  have l: "manager_list m pattern = map (\<lambda>(k, d). meta d) (filter (\<lambda>(k, d). selected pattern k) (documents m))"
    by (simp add: manager_list_def selected_def)
  have ids: "map meta_id (manager_list m pattern) = map DocumentId (map fst (filter (\<lambda>(k, d). selected pattern k) (documents m)))"
    unfolding l using entry(1) by auto
  have "distinct (map meta_id (manager_list m pattern))"
    unfolding ids using ok by (simp add: manager_ok_def distinct_map inj_on_def distinct_map_filter)
  moreover have "set (map meta_id (manager_list m pattern)) = {i. selected pattern (id_str i) \<and> (\<exists>d. manager_get m i = Inr d)}"
    unfolding ids using ok entry(2) by (force simp: manager_ok_def manager_get_def dm_get_iff image_iff split: option.splits)
  moreover have "\<forall>mt\<in>set (manager_list m pattern). \<exists>d. manager_get m (meta_id mt) = Inr d \<and> meta d = mt"
    unfolding l using entry by auto
  ultimately show ?thesis by (simp only: sort_listing)
qed

lemma found_iff: "(\<exists>d. manager_get m i = Inr d) \<longleftrightarrow> id_str i \<in> set (map fst (documents m))"
  using map_of_eq_None_iff [of "documents m" "id_str i"] by (cases "dm_get (documents m) (id_str i)") (auto simp: manager_get_def)

lemma list_exact_witness:
  "\<exists>m. (manager_step string_yrs)\<^sup>*\<^sup>* manager_new m \<and>
     sort (map meta_id (manager_list m (Some ''a*''))) = [DocumentId ''a1'', DocumentId ''a2'']"
proof -
  have ids: "document_id_new ''a2'' = Inr (DocumentId ''a2'')" "document_id_new ''b'' = Inr (DocumentId ''b'')"
      "document_id_new ''a1'' = Inr (DocumentId ''a1'')"
    by (simp_all add: document_id_new_def id_char_def byte_def)
  obtain d1 m1 where 1: "manager_get_or_create string_yrs 0 manager_new (DocumentId ''a2'') Lww = (d1, m1)" by fastforce
  obtain d2 m2 where 2: "manager_get_or_create string_yrs 0 m1 (DocumentId ''b'') Lww = (d2, m2)" by fastforce
  obtain d3 m3 where 3: "manager_get_or_create string_yrs 0 m2 (DocumentId ''a1'') Lww = (d3, m3)" by fastforce
  have run: "(manager_step string_yrs)\<^sup>*\<^sup>* manager_new m3"
    using manager_step.get_or_create [OF ids(1) 1] manager_step.get_or_create [OF ids(2) 2] manager_step.get_or_create [OF ids(3) 3]
    by (meson converse_rtranclp_into_rtranclp rtranclp.rtrancl_refl)
  have "map fst (documents m3) = [''a2'', ''b'', ''a1'']"
    using 1 2 3 by (auto simp: manager_get_or_create_def manager_new_def Let_def)
  then have "{i. selected (Some ''a*'') (id_str i) \<and> (\<exists>d. manager_get m3 i = Inr d)} = {DocumentId ''a1'', DocumentId ''a2''}"
    by (auto simp: found_iff selected_def matches_pattern_def strip_suffix_char_def) (metis document_id.collapse)+
  then have "sorted_list_of_set {i. selected (Some ''a*'') (id_str i) \<and> (\<exists>d. manager_get m3 i = Inr d)} = [DocumentId ''a1'', DocumentId ''a2'']"
    by (simp add: less_document_id_def less_eq_document_id_def)
  with list_exact [OF run, of "Some ''a*''"] run show ?thesis by auto
qed

text \<open>So with the in-memory storage, whatever was stored.\<close>

lemma memory_list_exact:
  assumes "memory_ok s" and "memory_list pattern s = Inr ids"
  shows "sort ids = sorted_list_of_set {i. selected pattern (id_str i) \<and> document_id_new (id_str i) = Inr i \<and> memory_exists i s = Inr True}"
proof -
  let ?ks = "filter (\<lambda>k. selected pattern k \<and> document_id_new k = Inr (DocumentId k)) (map fst (mem_data s))"
  have new: "document_id_new k = Inr i \<Longrightarrow> i = DocumentId k" for k i using document_id_new_Inr [of k i] by (cases i) simp
  have one: "(case document_id_new k of Inr i \<Rightarrow> [i] | Inl e \<Rightarrow> []) = (if document_id_new k = Inr (DocumentId k) then [DocumentId k] else [])" for k
    using new [of k] by (cases "document_id_new k") auto
  have "ids = concat (map (\<lambda>k. if selected pattern k then (if document_id_new k = Inr (DocumentId k) then [DocumentId k] else []) else [])
      (map fst (mem_data s)))"
    using assms(2) unfolding memory_list_keys one memory_matches_eq selected_def by simp
  also have "\<dots> = map DocumentId ?ks" by (rule concat_if)
  finally have ids: "ids = map DocumentId ?ks" .
  have "distinct ids" unfolding ids using assms(1) by (simp add: memory_ok_def distinct_map inj_on_def)
  moreover have "set ids = {i. selected pattern (id_str i) \<and> document_id_new (id_str i) = Inr i \<and> memory_exists i s = Inr True}"
  proof (intro set_eqI)
    fix i :: document_id
    have "memory_exists i s = Inr True \<longleftrightarrow> id_str i \<in> set (map fst (mem_data s))"
      by (simp add: memory_exists_def map_of_eq_None_iff)
    then show "i \<in> set ids \<longleftrightarrow>
        i \<in> {i. selected pattern (id_str i) \<and> document_id_new (id_str i) = Inr i \<and> memory_exists i s = Inr True}"
      unfolding ids by (simp only: in_map_id set_filter mem_Collect_eq) auto
  qed
  ultimately show ?thesis by (simp only: sort_listing)
qed

end
