(* ===== verification/Floats.thy ===== *)
theory Floats imports Crdt begin

section \<open>Integers as floating point numbers (crdt.rs)\<close>

text \<open>
  A float is its 64 bits: a sign, eleven bits of exponent and fifty-two of mantissa. The conversion
  of an integer rounds to the nearest float and to the even one of two.
\<close>

definition round_half_even :: "nat \<Rightarrow> nat \<Rightarrow> nat" where
  "round_half_even m s =
     (let q = m div 2 ^ s; r = m mod 2 ^ s
      in if 2 * r > 2 ^ s \<or> (2 * r = 2 ^ s \<and> odd q) then Suc q else q)"

definition mantissa :: "nat \<Rightarrow> nat \<Rightarrow> nat" where
  "mantissa m e = (if e \<le> 52 then m * 2 ^ (52 - e) else round_half_even m (e - 52))"

fun top_bit :: "nat \<Rightarrow> nat" where
  "top_bit m = (if m < 2 then 0 else Suc (top_bit (m div 2)))"

declare top_bit.simps [simp del]

definition f64_of_nat :: "nat \<Rightarrow> nat" where
  "f64_of_nat m =
     (if m = 0 then 0
      else let e = top_bit m in (1023 + e) * 2 ^ 52 + (mantissa m e - 2 ^ 52))"

definition i64_to_f64 :: "i64 \<Rightarrow> f64" where
  "i64_to_f64 n =
     (if sint n < 0 then word_of_nat (2 ^ 63 + f64_of_nat (nat (- sint n))) else word_of_nat (f64_of_nat (nat (sint n))))"

fun as_f64 :: "val \<Rightarrow> f64 option" where
  "as_f64 (VNumber (NFloat x)) = Some x"
| "as_f64 (VNumber (NInteger n)) = Some (i64_to_f64 n)"
| "as_f64 _ = None"

text \<open>The number that finite bits stand for, as a multiple of the power of two with exponent -1075.\<close>

definition f64_units :: "nat \<Rightarrow> nat" where
  "f64_units a = (if a div 2 ^ 52 = 0 then 2 * (a mod 2 ^ 52) else (2 ^ 52 + a mod 2 ^ 52) * 2 ^ (a div 2 ^ 52))"

definition f64_scaled :: "f64 \<Rightarrow> int" where
  "f64_scaled x = (if unat x < 2 ^ 63 then int (f64_units (unat x)) else - int (f64_units (unat x - 2 ^ 63)))"

definition f64_finite :: "f64 \<Rightarrow> bool" where
  "f64_finite x \<longleftrightarrow> unat x mod 2 ^ 63 < 2047 * 2 ^ 52"

subsection \<open>Rounding\<close>

lemma near_either:
  fixes A P K R m r :: nat
  assumes "m = A + r" and "r < P" and "K \<le> A \<or> A + P \<le> K" and "R = A \<and> 2 * r \<le> P \<or> R = A + P \<and> P \<le> 2 * r"
  shows "\<bar>int R - int m\<bar> \<le> \<bar>int K - int m\<bar>"
  using assms by linarith

lemma round_near:
  fixes m s k :: nat
  shows "\<bar>int (round_half_even m s * 2 ^ s) - int m\<bar> \<le> \<bar>int (k * 2 ^ s) - int m\<bar>"
proof -
  let ?p = "2 ^ s :: nat"
  define q r where "q = m div ?p" and "r = m mod ?p"
  have m: "m = q * ?p + r" unfolding q_def r_def by (rule div_mult_mod_eq [symmetric])
  have r: "r < ?p" by (simp add: r_def)
  have k: "k * ?p \<le> q * ?p \<or> q * ?p + ?p \<le> k * ?p"
  proof (cases "k \<le> q")
    case False
    then have "Suc q * ?p \<le> k * ?p" by (intro mult_le_mono1) simp
    then show ?thesis by simp
  qed simp
  have "round_half_even m s * ?p = q * ?p \<and> 2 * r \<le> ?p \<or> round_half_even m s * ?p = q * ?p + ?p \<and> ?p \<le> 2 * r"
    by (auto simp: round_half_even_def q_def r_def Let_def)
  then show ?thesis by (rule near_either [OF m r k])
qed

lemma round_bounds:
  assumes "2 ^ (52 + s) \<le> m" and "m < 2 ^ (53 + s)"
  shows "2 ^ 52 \<le> round_half_even m s" and "round_half_even m s \<le> 2 ^ 53"
proof -
  have "2 ^ 52 * 2 ^ s \<le> m" "m < 2 ^ 53 * 2 ^ s" using assms by (simp_all add: power_add)
  then have "2 ^ 52 \<le> m div 2 ^ s" "m div 2 ^ s < 2 ^ 53"
    by (simp_all add: less_eq_div_iff_mult_less_eq less_mult_imp_div_less)
  then show "2 ^ 52 \<le> round_half_even m s" and "round_half_even m s \<le> 2 ^ 53"
    by (simp_all add: round_half_even_def Let_def)
qed

lemma bit_length: "0 < m \<Longrightarrow> 2 ^ top_bit m \<le> m \<and> m < 2 ^ Suc (top_bit m)"
proof (induction m rule: top_bit.induct)
  case (1 m)
  show ?case
  proof (cases "m < 2")
    case True
    with 1 show ?thesis by (simp add: top_bit.simps)
  next
    case False
    with 1 have "2 ^ top_bit (m div 2) \<le> m div 2" "m div 2 < 2 ^ Suc (top_bit (m div 2))" by auto
    then have "2 * 2 ^ top_bit (m div 2) \<le> m" "m < 2 * 2 ^ Suc (top_bit (m div 2))" by linarith+
    with False show ?thesis by (subst (1 2) top_bit.simps) simp
  qed
qed

lemma mantissa_bounds:
  assumes "2 ^ e \<le> m" and "m < 2 ^ Suc e"
  shows "2 ^ 52 \<le> mantissa m e" and "mantissa m e \<le> 2 ^ 53"
proof -
  have "2 ^ 52 \<le> mantissa m e \<and> mantissa m e \<le> 2 ^ 53"
  proof (cases "e \<le> 52")
    case True
    have "2 ^ e * 2 ^ (52 - e) \<le> m * 2 ^ (52 - e)" "m * 2 ^ (52 - e) \<le> 2 ^ Suc e * 2 ^ (52 - e)"
      using assms by (simp_all only: mult_le_mono1 less_imp_le)
    moreover have "2 ^ e * 2 ^ (52 - e) = (2 ^ 52 :: nat)" "2 ^ Suc e * 2 ^ (52 - e) = (2 ^ 53 :: nat)"
      using True by (simp_all flip: power_add)
    ultimately show ?thesis using True by (simp only: mantissa_def if_True)
  next
    case False
    then obtain s where s: "e = 52 + s" "e - 52 = s" by (metis le_add_diff_inverse nat_le_linear)
    then show ?thesis using round_bounds [of s m] assms False by (simp add: mantissa_def)
  qed
  then show "2 ^ 52 \<le> mantissa m e" and "mantissa m e \<le> 2 ^ 53" by simp_all
qed

lemma f64_units_of_nat:
  assumes "0 < m" and "e = top_bit m"
  shows "f64_units (f64_of_nat m) = mantissa m e * 2 ^ (1023 + e)"
proof -
  note b = mantissa_bounds [OF bit_length [OF assms(1), THEN conjunct1] bit_length [OF assms(1), THEN conjunct2], folded assms(2)]
  have a: "f64_of_nat m = (1023 + e) * 2 ^ 52 + (mantissa m e - 2 ^ 52)"
    using assms by (simp add: f64_of_nat_def Let_def)
  show ?thesis
  proof (cases "mantissa m e = 2 ^ 53")
    case True
    then have "f64_of_nat m = (1024 + e) * 2 ^ 52" by (simp add: a)
    then have "f64_of_nat m div 2 ^ 52 = 1024 + e" "f64_of_nat m mod 2 ^ 52 = 0" by simp_all
    with True show ?thesis by (simp add: f64_units_def power_add)
  next
    case False
    then have "mantissa m e - 2 ^ 52 < 2 ^ 52" using b by simp
    then have "f64_of_nat m div 2 ^ 52 = 1023 + e" "f64_of_nat m mod 2 ^ 52 = mantissa m e - 2 ^ 52"
      unfolding a by (simp_all only: div_mult_self3 mod_mult_self3 div_less mod_less add_0_right)
    with b show ?thesis by (simp add: f64_units_def)
  qed
qed

lemma scale_near:
  fixes a b m w :: nat
  assumes "\<bar>int a - int m\<bar> \<le> \<bar>int b - int m\<bar>"
  shows "\<bar>int (a * w) - int m * int w\<bar> \<le> \<bar>int (b * w) - int m * int w\<bar>"
  using mult_right_mono [OF assms, of "int w"] by (simp add: abs_mult left_diff_distrib [symmetric])

lemma near_below:
  fixes R K g M :: nat
  assumes "\<bar>int R - int M\<bar> \<le> \<bar>int K - int M\<bar>" and "g \<le> K" and "K \<le> M"
  shows "\<bar>int R - int M\<bar> \<le> \<bar>int g - int M\<bar>"
  using assms by linarith

lemma nearest_on_grid:
  assumes "2 ^ (52 + s) \<le> m" and "k < 2 ^ 53"
  shows "\<bar>int (round_half_even m s * 2 ^ (c + s)) - int (m * 2 ^ c)\<bar> \<le> \<bar>int (k * 2 ^ E) - int (m * 2 ^ c)\<bar>"
proof -
  have near: "\<bar>int (round_half_even m s * 2 ^ (c + s)) - int (m * 2 ^ c)\<bar> \<le> \<bar>int (j * 2 ^ (c + s)) - int (m * 2 ^ c)\<bar>" for j
    using scale_near [OF round_near [of m s j], of "2 ^ c"] by (simp add: power_add ac_simps)
  show ?thesis
  proof (cases "c + s \<le> E")
    case True
    have "k * 2 ^ E = (k * 2 ^ (E - (c + s))) * 2 ^ (c + s)" using True by (simp add: mult.assoc flip: power_add)
    then show ?thesis using near by metis
  next
    case False
    then have "2 ^ Suc E \<le> (2 ^ (c + s) :: nat)" by (intro power_increasing) simp_all
    with assms(2) have "k * 2 ^ Suc E \<le> 2 ^ 53 * 2 ^ (c + s)" by (intro mult_le_mono) simp_all
    then have g: "k * 2 ^ E \<le> 2 ^ 52 * 2 ^ (c + s)" by simp
    have "2 ^ (52 + s) * 2 ^ c \<le> m * 2 ^ c" using assms(1) by (rule mult_le_mono1)
    then have "2 ^ 52 * 2 ^ (c + s) \<le> m * 2 ^ c" by (simp add: power_add ac_simps)
    then show ?thesis by (rule near_below [OF near [of "2 ^ 52"] g])
  qed
qed

lemma f64_units_form: "\<exists>k E. f64_units a = k * 2 ^ E \<and> k < 2 ^ 53"
proof (cases "a div 2 ^ 52 = 0")
  case True
  then show ?thesis by (intro exI [of _ "2 * (a mod 2 ^ 52)"] exI [of _ 0]) (simp add: f64_units_def)
next
  case False
  have "a mod 2 ^ 52 < 2 ^ 52" by simp
  then have "2 ^ 52 + a mod 2 ^ 52 < 2 ^ 53" by simp
  with False show ?thesis by (intro exI [of _ "2 ^ 52 + a mod 2 ^ 52"] exI [of _ "a div 2 ^ 52"]) (simp add: f64_units_def)
qed

lemma top_bit_positive: "0 < top_bit m \<Longrightarrow> 0 < m"
  by (cases "m = 0") (simp_all add: top_bit.simps)

lemma f64_units_small:
  assumes "top_bit m \<le> 52"
  shows "f64_units (f64_of_nat m) = m * 2 ^ 1075"
proof (cases "m = 0")
  case False
  then have "f64_units (f64_of_nat m) = m * 2 ^ (52 - top_bit m) * 2 ^ (1023 + top_bit m)"
    using f64_units_of_nat [of m "top_bit m"] assms by (simp only: mantissa_def if_True)
  also have "\<dots> = m * 2 ^ ((52 - top_bit m) + (1023 + top_bit m))" by (simp only: power_add mult.assoc)
  also have "(52 - top_bit m) + (1023 + top_bit m) = 1075" using assms by simp
  finally show ?thesis .
qed (simp add: f64_of_nat_def f64_units_def)

lemma f64_units_large:
  assumes "\<not> top_bit m \<le> 52"
  shows "f64_units (f64_of_nat m) = round_half_even m (top_bit m - 52) * 2 ^ (1075 + (top_bit m - 52))"
proof -
  have "1023 + top_bit m = 1075 + (top_bit m - 52)" using assms by simp
  moreover have "0 < m" by (rule top_bit_positive) (use assms in simp)
  ultimately show ?thesis using f64_units_of_nat [of m "top_bit m"] assms by (simp only: mantissa_def if_False)
qed

lemma f64_of_nat_nearest: "\<bar>int (f64_units (f64_of_nat m)) - int (m * 2 ^ 1075)\<bar> \<le> \<bar>int (f64_units g) - int (m * 2 ^ 1075)\<bar>"
proof (cases "top_bit m \<le> 52")
  case False
  obtain k E where g: "f64_units g = k * 2 ^ E" "k < 2 ^ 53" using f64_units_form by blast
  have "0 < m" by (rule top_bit_positive) (use False in simp)
  moreover have "52 + (top_bit m - 52) = top_bit m" using False by simp
  ultimately have "2 ^ (52 + (top_bit m - 52)) \<le> m" using bit_length [of m] by (simp only:)
  then show ?thesis unfolding f64_units_large [OF False] g(1) by (rule nearest_on_grid [OF _ g(2)])
qed (simp only: f64_units_small diff_self abs_zero abs_ge_zero)

lemma f64_of_nat_exact:
  assumes "m \<le> 2 ^ 53"
  shows "f64_units (f64_of_nat m) = m * 2 ^ 1075"
proof (cases "m = 2 ^ 53")
  case True
  have t: "top_bit m = 53" unfolding True by (simp add: top_bit.simps)
  have "round_half_even (2 ^ 53) 1 = 2 ^ 52" by (simp add: round_half_even_def)
  with f64_units_large [of m] t have "f64_units (f64_of_nat m) = 2 ^ 52 * 2 ^ (1075 + 1)" by (simp only: True) simp
  also have "\<dots> = 2 ^ 53 * 2 ^ 1075" by (simp only: power_add power_one_right mult.assoc) simp
  finally show ?thesis by (simp only: True)
next
  case False
  have "top_bit m \<le> 52"
  proof (rule ccontr)
    assume "\<not> top_bit m \<le> 52"
    then have "2 ^ 53 \<le> (2 ^ top_bit m :: nat)" by (intro power_increasing) simp_all
    moreover have "0 < m" by (rule top_bit_positive) (use \<open>\<not> top_bit m \<le> 52\<close> in simp)
    ultimately show False using bit_length [of m] assms False by linarith
  qed
  then show ?thesis by (rule f64_units_small)
qed

lemma f64_of_nat_less:
  assumes "m \<le> 2 ^ 63"
  shows "f64_of_nat m < 2047 * 2 ^ 52"
proof (cases "m = 0")
  case False
  have "top_bit m \<le> 63"
  proof (rule ccontr)
    assume "\<not> top_bit m \<le> 63"
    then have "2 ^ 64 \<le> (2 ^ top_bit m :: nat)" by (intro power_increasing) simp_all
    with bit_length [of m] False assms show False by simp
  qed
  then show ?thesis using mantissa_bounds [of "top_bit m" m] bit_length [of m] False by (simp add: f64_of_nat_def Let_def)
qed (simp add: f64_of_nat_def)

lemma i64_to_f64_bits:
  "unat (i64_to_f64 n) = (if sint n < 0 then 2 ^ 63 + f64_of_nat (nat (- sint n)) else f64_of_nat (nat (sint n)))"
proof -
  have "- (2 ^ 63) \<le> sint n" "sint n < 2 ^ 63" using sint_ge [of n] sint_lt [of n] by simp_all
  then have "f64_of_nat (nat \<bar>sint n\<bar>) < 2047 * 2 ^ 52" by (intro f64_of_nat_less) simp
  then have b: "f64_of_nat (nat \<bar>sint n\<bar>) < 9223372036854775808" by simp
  show ?thesis
  proof (cases "sint n < 0")
    case True
    with b have "9223372036854775808 + f64_of_nat (nat (- sint n)) < 2 ^ 64" by simp
    with True show ?thesis by (simp only: i64_to_f64_def if_True unat_of_nat) (simp add: take_bit_nat_eq_self)
  next
    case False
    with b have "f64_of_nat (nat (sint n)) < 2 ^ 64" by simp
    with False show ?thesis by (simp only: i64_to_f64_def if_False unat_of_nat) (simp add: take_bit_nat_eq_self)
  qed
qed

lemma near_signed:
  fixes u M g z :: int
  assumes "\<bar>u - M\<bar> \<le> \<bar>g - M\<bar>" and "0 \<le> M" and "\<bar>z\<bar> = g"
  shows "\<bar>u - M\<bar> \<le> \<bar>z - M\<bar>" and "\<bar>- u - (- M)\<bar> \<le> \<bar>z - (- M)\<bar>"
  using assms by arith+

lemma f64_scaled_abs: "\<exists>g. \<bar>f64_scaled y\<bar> = int (f64_units g)"
  by (cases "unat y < 2 ^ 63") (auto simp: f64_scaled_def)

lemma f64_scaled_i64: "f64_scaled (i64_to_f64 n) = (if sint n < 0 then - 1 else 1) * int (f64_units (f64_of_nat (nat \<bar>sint n\<bar>)))"
  and f64_finite_i64: "f64_finite (i64_to_f64 n)"
proof -
  have "- (2 ^ 63) \<le> sint n" "sint n < 2 ^ 63" using sint_ge [of n] sint_lt [of n] by simp_all
  then have b: "f64_of_nat (nat \<bar>sint n\<bar>) < 2047 * 2 ^ 52" by (intro f64_of_nat_less) simp
  then show "f64_scaled (i64_to_f64 n) = (if sint n < 0 then - 1 else 1) * int (f64_units (f64_of_nat (nat \<bar>sint n\<bar>)))"
    by (cases "sint n < 0") (simp_all add: f64_scaled_def i64_to_f64_bits)
  from b show "f64_finite (i64_to_f64 n)" by (cases "sint n < 0") (simp_all add: f64_finite_def i64_to_f64_bits)
qed

text \<open>
  C40. An integer read as a float is the nearest of all finite floats, and the integer itself up to the
  size of two to the power of 53.
\<close>

theorem as_f64_nearest:
  "\<exists>x. as_f64 (VNumber (NInteger n)) = Some x \<and> f64_finite x \<and>
     (\<forall>y. f64_finite y \<longrightarrow> \<bar>f64_scaled x - sint n * 2 ^ 1075\<bar> \<le> \<bar>f64_scaled y - sint n * 2 ^ 1075\<bar>) \<and>
     (\<bar>sint n\<bar> \<le> 2 ^ 53 \<longrightarrow> f64_scaled x = sint n * 2 ^ 1075)"
proof -
  define m where "m = nat \<bar>sint n\<bar>"
  define M u where "M = int (m * 2 ^ 1075)" and "u = int (f64_units (f64_of_nat m))"
  have N: "sint n * 2 ^ 1075 = (if sint n < 0 then - M else M)"
    unfolding M_def m_def of_nat_mult of_nat_power of_nat_nat [OF abs_ge_zero] of_nat_numeral by (simp only: abs_if of_int_eq_id id_apply mult_minus_left minus_minus if_distrib [of "\<lambda>x. x * 2 ^ 1075"] split: if_split) blast
  have x: "f64_scaled (i64_to_f64 n) = (if sint n < 0 then - u else u)" by (simp add: f64_scaled_i64 u_def m_def)
  have "0 \<le> M" by (simp only: M_def of_nat_0_le_iff)
  have near: "\<bar>u - M\<bar> \<le> \<bar>int (f64_units g) - M\<bar>" for g unfolding u_def M_def by (rule f64_of_nat_nearest)
  have "\<bar>f64_scaled (i64_to_f64 n) - sint n * 2 ^ 1075\<bar> \<le> \<bar>f64_scaled y - sint n * 2 ^ 1075\<bar>" for y
  proof -
    obtain g where "\<bar>f64_scaled y\<bar> = int (f64_units g)" using f64_scaled_abs by blast
    from near_signed [OF near [of g] \<open>0 \<le> M\<close> this] show ?thesis unfolding N x by (cases "sint n < 0") simp_all
  qed
  moreover have "f64_scaled (i64_to_f64 n) = sint n * 2 ^ 1075" if "\<bar>sint n\<bar> \<le> 2 ^ 53"
  proof -
    have "m \<le> 2 ^ 53" using that unfolding m_def by (simp only: nat_le_iff of_nat_power of_nat_numeral)
    then have "u = M" unfolding u_def M_def by (simp only: f64_of_nat_exact)
    then show ?thesis unfolding N x by simp
  qed
  ultimately show ?thesis using f64_finite_i64 [of n] by (intro exI [of _ "i64_to_f64 n"] conjI allI impI) simp_all
qed

text \<open>Two to the power of 53, and one: no float is that, and the even one of the two beside it is taken.\<close>

lemma as_f64_nearest_witness:
  "as_f64 (VNumber (NInteger (2 ^ 53))) = as_f64 (VNumber (NInteger (2 ^ 53 + 1))) \<and>
   f64_scaled (i64_to_f64 (2 ^ 53)) = sint (2 ^ 53 :: i64) * 2 ^ 1075"
proof -
  have "\<bar>sint (2 ^ 53 :: i64)\<bar> \<le> 2 ^ 53" by simp
  with as_f64_nearest [of "2 ^ 53"] have "f64_scaled (i64_to_f64 (2 ^ 53)) = sint (2 ^ 53 :: i64) * 2 ^ 1075" by (auto simp only: as_f64.simps option.inject)
  moreover have "i64_to_f64 (2 ^ 53) = i64_to_f64 (2 ^ 53 + 1)"
    by (simp add: i64_to_f64_def f64_of_nat_def Let_def mantissa_def round_half_even_def top_bit.simps)
  ultimately show ?thesis by (simp only: as_f64.simps)
qed

end
