(* ===== verification/Spec2Isabelle.thy ===== *)
theory Spec2Isabelle
  imports ManagerLaws ParserLaws ResponseLaws RateLimitLaws PostgresLaws HandlerFrame CliLaws Tls Metrics BenchmarkLaws Basic ReplyLaws RaceLaws
    ProtocolTests ServerTests StorageTests Listing Floats
begin

text \<open>
  USSL is a server for shared, structured documents. Clients connect over TCP or WebSocket, send
  one command per line and get one response per command; documents live in memory, each with a
  merge strategy, a version and possibly a time to live; changes are published to subscribers and
  handed to a storage backend.

  \<^bold>\<open>Parts of the program and the theories that model them\<close> (sources under \<^verbatim>\<open>src/crates/\<close>)

  \<^item> \<open>Prelude\<close> and \<open>RustStd\<close>: the collections of facts, maps as association lists, and what the program
    uses of the Rust standard library (decimal numbers, trimming, upper case, UTF-8 decoding). Text is
    a list of bytes. The locales of the interfaces are in \<open>Prelude\<close>: \<open>key_value_map\<close> (the concurrent
    hash map), \<open>invariant_system\<close> (a step relation with an invariant), \<open>frozen_quantity\<close> (what no
    operation changes, an invariant for each of its values), \<open>simulation\<close> (steps of one system matched by another's),
    \<open>scanner\<close> (a function that takes a piece off its input and shortens it).
  \<^item> \<open>Crdt\<close>, \<open>CrdtLaws\<close> (\<^verbatim>\<open>ussl-core/src/crdt.rs\<close>, \<^verbatim>\<open>error.rs\<close>): strategies, the value tree, paths into it.
    The path parser may not return, so it is a partial function into \<open>option\<close>; the laws say exactly
    when it returns, and what a write does to every read. \<open>Floats\<close>: integers read as 64-bit floats.
  \<^item> \<open>Document\<close>, \<open>DocumentLaws\<close> (\<^verbatim>\<open>document.rs\<close>): identifiers, expiry, reading, writing, counting, merging
    and compaction of one document. Its two halves are the value tree and the state of the library
    yrs, which is a record of functions.
  \<^item> \<open>Manager\<close>, \<open>ManagerLaws\<close> (\<^verbatim>\<open>manager.rs\<close>): the table of documents, presence, the broadcast channel,
    garbage collection, backup and restore. \<open>manager_step\<close> is one operation; the laws prove the
    invariant of all reachable states and what each operation does. \<open>Listing\<close>: identifiers as a linear order,
    so that listings of hash maps, whose order is not defined, have a normal form.
  \<^item> \<open>Json\<close>, \<open>Command\<close>, \<open>Parser\<close>, \<open>ParserLaws\<close> (\<^verbatim>\<open>ussl-protocol/src/command.rs\<close>, \<^verbatim>\<open>parser.rs\<close>): the buffer of a
    connection, lines, tokens and the parsing of every command, with the round trip from a command to
    its line and back, and the independence of how the network cuts the bytes.
  \<^item> \<open>Response\<close>, \<open>ResponseLaws\<close> (\<^verbatim>\<open>response.rs\<close>): the encoder and base64, with a reader that recovers every
    response. The reader takes fuel for nested arrays; the laws give the depth as enough.
  \<^item> \<open>RateLimit\<close>, \<open>RateLimitLaws\<close> (\<^verbatim>\<open>ussl-transport/src/rate_limit.rs\<close>): the token bucket on 64-bit words.
  \<^item> \<open>Storage\<close>, \<open>StorageLaws\<close> (\<^verbatim>\<open>ussl-storage/src/lib.rs\<close>, \<^verbatim>\<open>memory.rs\<close>): the trait as the locale
    \<open>storage_backend\<close>, the in-memory backend as its interpretation.
  \<^item> \<open>Sqlite\<close>, \<open>SqliteDemo\<close>, \<open>SqliteLaws\<close> (\<^verbatim>\<open>sqlite.rs\<close>) and \<open>Postgres\<close>, \<open>PostgresLaws\<close> (\<^verbatim>\<open>postgres.rs\<close>): the two
    database backends with the texts of their statements. The engine is a record of functions; what it documents
    about these statements is a predicate, and \<open>SqliteDemo\<close> shows an engine that has it. The laws compare
    both with the in-memory backend, any run of stores and deletions, as interpretations of the locale
    \<open>memory_follower\<close>.
  \<^item> \<open>Handler\<close>, \<open>HandlerLaws\<close>, \<open>HandlerFrame\<close>, \<open>ReplyLaws\<close> (\<^verbatim>\<open>ussl-transport/src/handler.rs\<close>): one connection's
    commands over the shared manager: authentication, rate limiting, every command, the processing loop.
    The laws show that any input is a run of manager operations, what a command leaves alone, and the type of
    every reply with its error codes.
  \<^item> \<open>Transport\<close>, \<open>TransportLaws\<close>, \<open>ServerLaws\<close> (\<^verbatim>\<open>tcp.rs\<close>, \<^verbatim>\<open>websocket.rs\<close>): a connection's task, and the running
    server as the step relation \<open>world_step\<close> over its endpoints, connections, storage tasks and garbage
    collector; the laws hold in every reachable state, that is under every interleaving.
    \<open>RaceLaws\<close>: the storage is never read, and what two threads can do to an operation of two accesses. Elsewhere
    an operation on a shared table is one step, which the code's locks give for each access but not for two.
  \<^item> \<open>Tls\<close> (\<^verbatim>\<open>tls.rs\<close>): loading of certificates and keys. The loop over the items of a file is partial; it ends
    if each item read leaves less of the file. \<open>Metrics\<close> (\<^verbatim>\<open>metrics.rs\<close>): the metrics and the HTTP endpoint.
  \<^item> \<open>Daemon\<close> (\<^verbatim>\<open>usld/src/main.rs\<close>): from the arguments to the listeners, and that each has the settings given.
  \<^item> \<open>Cli\<close>, \<open>CliLaws\<close> (\<^verbatim>\<open>ussl-cli/src/main.rs\<close>): the command-line client over a network that cuts what it
    delivers; what it shows of each response.
  \<^item> \<open>Benchmark\<close>, \<open>BenchmarkLaws\<close> (\<^verbatim>\<open>src/examples/benchmark.rs\<close>): the tasks of the load generator as the step relation
    \<open>bench_step\<close>, with a barrier and shared counters. The function \<open>bench_run\<close> gives the outcome; the laws
    prove that every schedule ends with it, or never ends where it gives none.
    \<open>Basic\<close> (\<^verbatim>\<open>src/examples/basic.rs\<close>): the example of the library and of a client.
  \<^item> \<open>CoreTests\<close>, \<open>ProtocolTests\<close>, \<open>ServerTests\<close>, \<open>StorageTests\<close>: the tests at the end of the source files, as
    definitions over the model, with the clock readings, libraries and databases under which they pass.
  \<^item> This theory: what holds of client and server together.

  \<^bold>\<open>How the parts interact.\<close> The daemon starts endpoints; an endpoint makes a connection with a handler; what the
  connection reads goes to the handler's parser, each command to the shared manager, each response to
  the encoder and out. A handler with storage leaves a task for each state to be stored; a SET publishes to
  the receivers of all connections. Clients read back what the encoder wrote.

  \<^bold>\<open>Conventions.\<close> A step that may fail returns \<open>error + 'a\<close>; one that may not return (an endless
  recursion, a panic, a barrier that stays shut) returns an \<open>option\<close> around it. Machine integers are words, also
  the ones that Rust checks only in debug builds: the model is the release build. Moments are readings
  handed in as arguments, so that every pair of readings is covered. Shared documents are written back to the
  table (\<open>manager_put\<close>) where the code mutates them in place. Hash maps are association lists: their order is
  that of insertion, and no law about what they list relies on it, except that replies keep the order of one listing.

  \<^bold>\<open>Fuel and bounds.\<close> Only the reader of nested arrays in \<open>ResponseLaws\<close> takes fuel; the depth of the response is
  enough. The path parser and the loop over the items of a key file are
  partial functions, with theorems that say when they return; every other loop is proved to end. A benchmark of \<open>n\<close> clients with \<open>k\<close>
  operations each takes at most \<open>n * (k + 3)\<close> steps.

  \<^bold>\<open>Not modelled.\<close> Parameters: the libraries yrs and serde\_json, the SQL engines and their drivers, rustls and
  its PEM reader, prometheus, the operating system's sockets and the framing of WebSocket messages, and the
  user's typing. Left out: log output, banners and help texts, the history file of the client, and the
  benchmark's two quotients of floats (elsewhere floats are carried as bit patterns).
\<close>

section \<open>From the client's terminal to the documents and back\<close>



end
